(* ===== verification/Monitor_Prelude.thy ===== *)
theory Monitor_Prelude
  imports
    Complex_Main
    "HOL-Library.Multiset"
    "HOL-Library.Sublist"
    "HOL-Library.Product_Lexorder"
begin

text \<open>
  Shared vocabulary of the system-monitor development: the exceptions the program
  can meet, results that may raise, Python's slicing of a list by a signed bound,
  and the list facts every component uses.

  \<^item> \<open>exn\<close> lists the exception classes that occur in \<^verbatim>\<open>src/tools/system_monitor.py\<close>:
    the three psutil errors named in the \<^verbatim>\<open>except\<close> tuples of \<^verbatim>\<open>get_top_processes\<close>, the
    errors Python raises on \<^verbatim>\<open>None\<close> values, on division by zero, on a missing key, on a
    malformed number and on a missing module, \<^verbatim>\<open>OSError\<close> for what the operating system
    refuses, and \<^verbatim>\<open>KeyboardInterrupt\<close>, the only one of them that is not an \<^verbatim>\<open>Exception\<close>. The
    set is closed: other exceptions a host could raise (\<^verbatim>\<open>SystemExit\<close>, \<^verbatim>\<open>MemoryError\<close>, an
    encoding error of \<^verbatim>\<open>print\<close>) are not represented.
  \<^item> A computation that may raise returns \<open>exn + 'a\<close>, with \<open>Inl\<close> for the raised
    exception.
  \<^item> \<open>slice_to xs n\<close> is Python's \<^verbatim>\<open>xs[:n]\<close> for an integer \<open>n\<close> of either sign.

  The collections \<open>py_eval\<close> (definitions unfolded to evaluate closed terms) and
  \<open>monitor_simps\<close> (characteristic equations of the model's operations) carry the
  component proofs.
\<close>

section \<open>Collections\<close>

named_theorems py_eval "definitions of the modelled Python built-ins, for closed evaluation"

named_theorems monitor_simps "characteristic equations of the monitor's operations"

section \<open>Exceptions and results\<close>

datatype exn =
    NoSuchProcess
  | AccessDenied
  | ZombieProcess
  | AttributeError
  | TypeError
  | ZeroDivisionError
  | KeyError string
  | ValueError
  | OSError
  | ImportError
  | KeyboardInterrupt

type_synonym 'a raises = "exn + 'a"

type_synonym pyfloat = rat

definition psutil_skippable :: "exn \<Rightarrow> bool" where
  "psutil_skippable e \<longleftrightarrow> e \<in> {NoSuchProcess, AccessDenied, ZombieProcess}"

definition is_Exception :: "exn \<Rightarrow> bool" where
  "is_Exception e \<longleftrightarrow> e \<noteq> KeyboardInterrupt"

section \<open>Slicing\<close>

definition slice_to :: "'a list \<Rightarrow> int \<Rightarrow> 'a list" where
  "slice_to xs n = (if 0 \<le> n then take (nat n) xs else take (length xs - nat (- n)) xs)"

section \<open>Descending stable sort\<close>

text \<open>
  Python's \<^verbatim>\<open>xs.sort(key=k, reverse=True)\<close> orders by decreasing key and keeps the
  original order among equal keys. \<open>sort_key\<close> is a stable insertion sort, so sorting
  by the negated key is the same list.
\<close>

definition sort_desc :: "('a \<Rightarrow> rat) \<Rightarrow> 'a list \<Rightarrow> 'a list" where
  "sort_desc k xs = sort_key (\<lambda>x. - k x) xs"

section \<open>Loops over fallible steps\<close>

text \<open>
  A loop whose body sits in \<^verbatim>\<open>try: ... except (NoSuchProcess, AccessDenied, ZombieProcess):
  continue\<close> sees a list of step results. \<open>first_raise\<close> is the exception that leaves
  the loop, if any: the first one the \<^verbatim>\<open>except\<close> clause does not name.
  \<open>observations\<close> are the values of the steps that raised nothing, \<open>skipped\<close> the
  steps the clause swallows, \<open>raised\<close> the exceptions of the steps.
\<close>

fun first_raise :: "'a raises list \<Rightarrow> exn option" where
  "first_raise [] = None"
| "first_raise (Inr x # rs) = first_raise rs"
| "first_raise (Inl e # rs) = (if psutil_skippable e then first_raise rs else Some e)"

fun observations :: "'a raises list \<Rightarrow> 'a list" where
  "observations [] = []"
| "observations (Inr x # rs) = x # observations rs"
| "observations (Inl e # rs) = observations rs"

fun skipped :: "'a raises \<Rightarrow> bool" where
  "skipped (Inl e) = psutil_skippable e"
| "skipped (Inr x) = False"

definition raised :: "'a raises list \<Rightarrow> exn list" where
  "raised evs = List.map_filter (\<lambda>ev. case ev of Inl e \<Rightarrow> Some e | Inr x \<Rightarrow> None) evs"

section \<open>Which exceptions are caught\<close>

lemma psutil_skippable_simps [simp, monitor_simps]:
  "psutil_skippable NoSuchProcess" "psutil_skippable AccessDenied"
  "psutil_skippable ZombieProcess" "\<not> psutil_skippable AttributeError"
  "\<not> psutil_skippable TypeError" "\<not> psutil_skippable ZeroDivisionError"
  "\<not> psutil_skippable (KeyError k)" "\<not> psutil_skippable ValueError"
  "\<not> psutil_skippable OSError" "\<not> psutil_skippable ImportError"
  "\<not> psutil_skippable KeyboardInterrupt"
  by (simp_all add: psutil_skippable_def)

lemma is_Exception_simps [simp, monitor_simps]:
  "is_Exception NoSuchProcess" "is_Exception AccessDenied" "is_Exception ZombieProcess"
  "is_Exception AttributeError" "is_Exception TypeError" "is_Exception ZeroDivisionError"
  "is_Exception (KeyError k)" "is_Exception ValueError" "is_Exception OSError"
  "is_Exception ImportError" "\<not> is_Exception KeyboardInterrupt"
  by (simp_all add: is_Exception_def)

lemma psutil_skippable_is_Exception: "psutil_skippable e \<Longrightarrow> is_Exception e"
  by (auto simp: psutil_skippable_def is_Exception_def)

section \<open>Slices are prefixes\<close>

lemma slice_to_nonneg [monitor_simps]: "0 \<le> n \<Longrightarrow> slice_to xs n = take (nat n) xs"
  by (simp add: slice_to_def)

lemma slice_to_neg [monitor_simps]:
  "n < 0 \<Longrightarrow> slice_to xs n = take (length xs - nat (- n)) xs"
  by (simp add: slice_to_def)

lemma slice_to_Nil [simp]: "slice_to [] n = []"
  by (simp add: slice_to_def)

lemma slice_to_prefix: "prefix (slice_to xs n) xs"
  by (simp add: slice_to_def take_is_prefix)

lemma set_slice_to: "set (slice_to xs n) \<subseteq> set xs"
  using set_mono_prefix [OF slice_to_prefix] .

lemma length_slice_to:
  "length (slice_to xs n) =
     (if 0 \<le> n then min (nat n) (length xs) else length xs - nat (- n))"
  by (auto simp: slice_to_def min_def)

lemma length_slice_to_le: "length (slice_to xs n) \<le> length xs"
  by (simp add: length_slice_to)

lemma slice_to_all [simp]: "int (length xs) \<le> n \<Longrightarrow> slice_to xs n = xs"
  by (simp add: slice_to_def)

lemma slice_to_idem [simp]: "0 \<le> n \<Longrightarrow> slice_to (slice_to xs n) n = slice_to xs n"
  by (simp add: slice_to_def)

lemma sorted_wrt_slice_to: "sorted_wrt R xs \<Longrightarrow> sorted_wrt R (slice_to xs n)"
  by (simp add: slice_to_def)

lemma mset_slice_to_subset: "mset (slice_to xs n) \<subseteq># mset xs"
proof -
  obtain ys where "xs = slice_to xs n @ ys"
    using slice_to_prefix [of xs n] by (auto simp: prefix_def)
  then have "mset xs = mset (slice_to xs n) + mset ys"
    by (metis mset_append)
  then show ?thesis by simp
qed

section \<open>Sums over prefixes\<close>

lemma sum_list_take_le:
  fixes f :: "'a \<Rightarrow> 'b::linordered_idom"
  assumes "\<forall>x \<in> set xs. 0 \<le> f x"
  shows "sum_list (map f (take n xs)) \<le> sum_list (map f xs)"
proof -
  have "sum_list (map f xs) = sum_list (map f (take n xs)) + sum_list (map f (drop n xs))"
    by (metis append_take_drop_id map_append sum_list_append)
  moreover have "0 \<le> sum_list (map f (drop n xs))"
    using assms by (intro sum_list_nonneg) (auto dest: in_set_dropD)
  ultimately show ?thesis by simp
qed

lemma sum_list_slice_to_le:
  fixes f :: "'a \<Rightarrow> 'b::linordered_idom"
  assumes "\<forall>x \<in> set xs. 0 \<le> f x"
  shows "sum_list (map f (slice_to xs n)) \<le> sum_list (map f xs)"
  using assms by (simp add: slice_to_def sum_list_take_le)

section \<open>The descending sort is a stable permutation\<close>

lemma mset_sort_desc [simp]: "mset (sort_desc k xs) = mset xs"
  by (simp add: sort_desc_def)

lemma set_sort_desc [simp]: "set (sort_desc k xs) = set xs"
  by (simp add: sort_desc_def)

lemma length_sort_desc [simp]: "length (sort_desc k xs) = length xs"
  by (simp add: sort_desc_def)

lemma sort_desc_Nil [simp]: "sort_desc k [] = []"
  by (simp add: sort_desc_def)

lemma sorted_sort_desc: "sorted_wrt (\<lambda>x y. k y \<le> k x) (sort_desc k xs)"
proof -
  have "sorted (map (\<lambda>x. - k x) (sort_desc k xs))"
    by (simp add: sort_desc_def)
  then show ?thesis
    by (simp add: sorted_map sorted_wrt_iff_nth_less)
qed

lemma sort_desc_stable: "filter (\<lambda>x. k x = c) (sort_desc k xs) = filter (\<lambda>x. k x = c) xs"
proof -
  have "filter (\<lambda>x. - k x = - c) (sort_key (\<lambda>x. - k x) xs) = filter (\<lambda>x. - k x = - c) xs"
    by (rule sort_key_stable)
  then show ?thesis by (simp add: sort_desc_def)
qed

lemma sort_desc_id_if_sorted:
  "sorted_wrt (\<lambda>x y. k y \<le> k x) xs \<Longrightarrow> sort_desc k xs = xs"
proof -
  assume "sorted_wrt (\<lambda>x y. k y \<le> k x) xs"
  then have "sorted (map (\<lambda>x. - k x) xs)"
    by (simp add: sorted_map sorted_wrt_iff_nth_less)
  then show ?thesis
    unfolding sort_desc_def by (rule sort_key_id_if_sorted)
qed

lemma sort_desc_idem [simp]: "sort_desc k (sort_desc k xs) = sort_desc k xs"
  by (rule sort_desc_id_if_sorted) (rule sorted_sort_desc)

lemma filter_sort_desc: "filter P (sort_desc k xs) = sort_desc k (filter P xs)"
  by (simp add: sort_desc_def filter_sort)

lemma sorted_wrt_lex:
  fixes k :: "'a \<Rightarrow> 'b::linorder"
  assumes "sorted_wrt (\<lambda>x y. k y \<le> k x) xs"
    and "\<And>c. sorted_wrt R (filter (\<lambda>x. k x = c) xs)"
  shows "sorted_wrt (\<lambda>x y. k y < k x \<or> k x = k y \<and> R x y) xs"
  using assms
proof (induction xs)
  case Nil
  then show ?case by simp
next
  case (Cons x xs)
  have tl: "sorted_wrt R (filter (\<lambda>x. k x = c) xs)" for c
    using Cons.prems(2) [of c] by (simp split: if_splits)
  have hd: "k y < k x \<or> k x = k y \<and> R x y" if "y \<in> set xs" for y
  proof (cases "k y = k x")
    case True
    with Cons.prems(2) [of "k x"] that show ?thesis by auto
  next
    case False
    with Cons.prems(1) that show ?thesis by auto
  qed
  from Cons.IH [OF _ tl] Cons.prems(1) hd show ?case by auto
qed

lemma sort_desc_lex:
  assumes "sorted_wrt R xs"
  shows "sorted_wrt (\<lambda>x y. k y < k x \<or> k x = k y \<and> R x y) (sort_desc k xs)"
proof (rule sorted_wrt_lex)
  show "sorted_wrt (\<lambda>x y. k y \<le> k x) (sort_desc k xs)" by (rule sorted_sort_desc)
  show "sorted_wrt R (filter (\<lambda>x. k x = c) (sort_desc k xs))" for c
    using assms by (simp add: sort_desc_stable sorted_wrt_filter)
qed

text \<open>What a sorted list leaves behind a prefix is no larger than what the prefix holds.\<close>

lemma sorted_wrt_take_drop:
  assumes "sorted_wrt R xs" and "x \<in> set (take n xs)" and "y \<in> set (drop n xs)"
  shows "R x y"
proof -
  from assms(1) have "sorted_wrt R (take n xs @ drop n xs)" by simp
  with assms(2,3) show ?thesis unfolding sorted_wrt_append by blast
qed

lemma mset_drop_eq_diff: "mset (drop n xs) = mset xs - mset (take n xs)"
proof -
  have "mset xs = mset (take n xs) + mset (drop n xs)"
    by (metis append_take_drop_id mset_append)
  then show ?thesis by simp
qed

section \<open>What leaves a loop and what it has seen\<close>

lemma first_raise_Cons:
  "first_raise (r # rs) =
     (case r of Inl e \<Rightarrow> if psutil_skippable e then first_raise rs else Some e
      | Inr x \<Rightarrow> first_raise rs)"
  by (cases r) simp_all

lemma observations_Cons:
  "observations (r # rs) = (case r of Inl e \<Rightarrow> observations rs | Inr x \<Rightarrow> x # observations rs)"
  by (cases r) simp_all

lemma first_raise_append:
  "first_raise (rs @ ss) = (case first_raise rs of None \<Rightarrow> first_raise ss | Some e \<Rightarrow> Some e)"
  by (induction rs rule: first_raise.induct) simp_all

lemma first_raise_filter_skipped [simp]:
  "first_raise (filter (\<lambda>r. \<not> skipped r) rs) = first_raise rs"
  by (induction rs rule: first_raise.induct) simp_all

lemma first_raise_SomeD:
  "first_raise rs = Some e \<Longrightarrow> Inl e \<in> set rs \<and> \<not> psutil_skippable e"
  by (induction rs rule: first_raise.induct) (auto split: if_splits)

lemma first_raise_None_iff:
  "first_raise rs = None \<longleftrightarrow> (\<forall>e. Inl e \<in> set rs \<longrightarrow> psutil_skippable e)"
  by (induction rs rule: first_raise.induct) auto

lemma raised_simps [simp]:
  "raised [] = []" "raised (Inl e # evs) = e # raised evs" "raised (Inr x # evs) = raised evs"
  by (simp_all add: raised_def List.map_filter_simps)

lemma set_raised: "e \<in> set (raised evs) \<longleftrightarrow> Inl e \<in> set evs"
  by (induction evs rule: observations.induct) auto

lemma first_raise_raised: "first_raise evs = Some e \<Longrightarrow> e \<in> set (raised evs)"
  by (simp add: set_raised first_raise_SomeD)

lemma first_raise_map_Inr [simp]: "first_raise (map (\<lambda>x. Inr (f x)) xs) = None"
  by (induction xs) simp_all

lemma observations_append [simp]:
  "observations (rs @ ss) = observations rs @ observations ss"
  by (induction rs rule: observations.induct) simp_all

lemma observations_filter_skipped [simp]:
  "observations (filter (\<lambda>r. \<not> skipped r) rs) = observations rs"
  by (induction rs rule: observations.induct) simp_all

lemma observations_map_Inr [simp]: "observations (map (\<lambda>x. Inr (f x)) xs) = map f xs"
  by (induction xs) simp_all

lemma set_observations: "x \<in> set (observations rs) \<longleftrightarrow> Inr x \<in> set rs"
  by (induction rs rule: observations.induct) auto

end
