(* ===== verification/Py_Float.thy ===== *)
theory Py_Float
  imports Monitor_Prelude
begin

text \<open>
  Python's floats, as the monitor uses them: \<^verbatim>\<open>/\<close> on integers and floats, \<^verbatim>\<open>*\<close>,
  \<^verbatim>\<open>sum\<close>, \<^verbatim>\<open>float\<close> of an integer, and \<^verbatim>\<open>round(x, 1)\<close>.

  A float is modelled by the rational number it is (\<open>pyfloat = rat\<close>): a binary fraction
  with at most 53 significant bits. Every operation computes the exact result and
  rounds it to the nearest such fraction, ties to the even one, as IEEE 754 binary64
  arithmetic does: \<open>round_double\<close>. The exponent range is not modelled (no overflow to
  infinity, no subnormal numbers, no NaN, no negative zero): the model is Python's for
  magnitudes between \<open>2\<^sup>-\<^sup>1\<^sup>0\<^sup>2\<^sup>2\<close> and \<open>2\<^sup>1\<^sup>0\<^sup>2\<^sup>4\<close>, which the quantities of the monitor
  (percentages, byte counts, megabytes) do not leave.

  \<^item> \<open>round_half_even\<close> rounds a rational to the nearest integer, ties to even.
  \<^item> \<open>binade x\<close> is the exponent \<open>e\<close> with \<open>2\<^sup>e \<le> \<bar>x\<bar> < 2\<^sup>e\<^sup>+\<^sup>1\<close>, computed from the bit
    length of an integer; \<open>ulp x\<close> the distance of neighbouring floats there;
    \<open>round_double\<close> the rounding of a rational to a float; \<open>is_double\<close> its fixed points.
  \<^item> \<open>py_float\<close> is \<^verbatim>\<open>float(n)\<close>, the conversion Python applies to an integer operand of
    a float operation; \<open>truediv\<close> is \<^verbatim>\<open>/\<close> (on two integers Python rounds the exact
    quotient once, which is \<open>truediv\<close> on the integers themselves); \<open>float_mul\<close> and
    \<open>float_add\<close> are \<^verbatim>\<open>*\<close> and \<^verbatim>\<open>+\<close>; \<open>py_sum\<close> is \<^verbatim>\<open>sum\<close> of floats, added from left to
    right (CPython before 3.12; later versions compensate the rounding errors, which
    only brings the result closer to the exact sum, see \<open>py_sum_error\<close>).
  \<^item> \<open>py_round1\<close> is \<^verbatim>\<open>round(x, 1)\<close>: the float nearest to the tenth nearest to \<open>x\<close>
    (\<open>nearest_tenth\<close>, ties to the even tenth); \<open>is_rounded1\<close> holds of the floats that
    are nearest to a tenth.
  \<^item> The lemmas: the binade brackets its argument; rounding is within half an
    \<open>ulp\<close>, that is within \<open>\<bar>x\<bar> / 2\<^sup>5\<^sup>3\<close>, monotone, odd, idempotent, exact on integers
    up to \<open>2\<^sup>5\<^sup>3\<close> and on their quotients by powers of two, and commutes with scaling
    by powers of two; the error of a sum of floats.
\<close>

section \<open>Rounding to the nearest integer, ties to even\<close>

definition round_half_even :: "rat \<Rightarrow> int" where
  "round_half_even x =
     (let f = \<lfloor>x\<rfloor>; r = x - of_int f
      in if r < 1 / 2 then f else if 1 / 2 < r then f + 1
         else if even f then f else f + 1)"

section \<open>Rounding to a float\<close>

fun bit_length :: "nat \<Rightarrow> nat" where
  "bit_length n = (if n = 0 then 0 else Suc (bit_length (n div 2)))"

declare bit_length.simps [simp del]

definition is_pow2 :: "nat \<Rightarrow> bool" where
  "is_pow2 d \<longleftrightarrow> d = 2 ^ (bit_length d - 1)"

definition binade :: "rat \<Rightarrow> int" where
  "binade x =
     (if 1 \<le> \<bar>x\<bar> then int (bit_length (nat \<lfloor>\<bar>x\<bar>\<rfloor>)) - 1
      else - int (bit_length (nat (\<lceil>1 / \<bar>x\<bar>\<rceil> - 1))))"

definition ulp :: "rat \<Rightarrow> rat" where
  "ulp x = 2 powi (binade x - 52)"

definition round_double :: "rat \<Rightarrow> rat" where
  "round_double x = (if x = 0 then 0 else of_int (round_half_even (x / ulp x)) * ulp x)"

definition is_double :: "rat \<Rightarrow> bool" where
  "is_double x \<longleftrightarrow> round_double x = x"

section \<open>Operations on floats\<close>

definition py_float :: "int \<Rightarrow> pyfloat" where
  "py_float n = round_double (of_int n)"

definition truediv :: "pyfloat \<Rightarrow> pyfloat \<Rightarrow> pyfloat" where
  "truediv x y = round_double (x / y)"

definition float_mul :: "pyfloat \<Rightarrow> pyfloat \<Rightarrow> pyfloat" where
  "float_mul x y = round_double (x * y)"

definition float_add :: "pyfloat \<Rightarrow> pyfloat \<Rightarrow> pyfloat" where
  "float_add x y = round_double (x + y)"

definition py_sum :: "pyfloat list \<Rightarrow> pyfloat" where
  "py_sum xs = foldl float_add 0 xs"

definition nearest_tenth :: "rat \<Rightarrow> rat" where
  "nearest_tenth x = of_int (round_half_even (x * 10)) / 10"

definition py_round1 :: "pyfloat \<Rightarrow> pyfloat" where
  "py_round1 x = round_double (nearest_tenth x)"

definition is_tenth :: "rat \<Rightarrow> bool" where
  "is_tenth x \<longleftrightarrow> of_int \<lfloor>x * 10\<rfloor> = x * 10"

definition is_rounded1 :: "pyfloat \<Rightarrow> bool" where
  "is_rounded1 x \<longleftrightarrow> round_double (nearest_tenth x) = x"

section \<open>Rounding to an integer is monotone and within a half\<close>

lemma round_half_even_disj:
  "round_half_even x = \<lfloor>x\<rfloor> \<and> x - of_int \<lfloor>x\<rfloor> \<le> 1 / 2 \<or>
   round_half_even x = \<lfloor>x\<rfloor> + 1 \<and> 1 / 2 \<le> x - of_int \<lfloor>x\<rfloor>"
  unfolding round_half_even_def Let_def by (simp only: split: if_split) linarith

lemma round_half_even_cases:
  obtains (down) "round_half_even x = \<lfloor>x\<rfloor>" "x - of_int \<lfloor>x\<rfloor> \<le> 1 / 2"
  | (up) "round_half_even x = \<lfloor>x\<rfloor> + 1" "1 / 2 \<le> x - of_int \<lfloor>x\<rfloor>"
  using round_half_even_disj [of x] by blast

lemma round_half_even_of_int [simp]: "round_half_even (of_int n) = n"
  by (simp add: round_half_even_def)

lemma round_half_even_numeral [simp]:
  "round_half_even 0 = 0" "round_half_even 1 = 1" "round_half_even (numeral k) = numeral k"
  using round_half_even_of_int [of 0] round_half_even_of_int [of 1]
    round_half_even_of_int [of "numeral k"] by simp_all

lemma round_half_even_close: "\<bar>of_int (round_half_even x) - x\<bar> \<le> 1 / 2"
proof (cases x rule: round_half_even_cases)
  case down
  have "of_int \<lfloor>x\<rfloor> \<le> x" by simp
  with down show ?thesis by simp
next
  case up
  have "x < of_int \<lfloor>x\<rfloor> + 1" by linarith
  with up show ?thesis by simp
qed

lemma round_half_even_ge_floor: "\<lfloor>x\<rfloor> \<le> round_half_even x"
  by (cases x rule: round_half_even_cases) simp_all

lemma round_half_even_le_ceiling: "round_half_even x \<le> \<lfloor>x\<rfloor> + 1"
  by (cases x rule: round_half_even_cases) simp_all

lemma round_half_even_mono: "x \<le> y \<Longrightarrow> round_half_even x \<le> round_half_even y"
proof -
  assume xy: "x \<le> y"
  then have fl: "\<lfloor>x\<rfloor> \<le> \<lfloor>y\<rfloor>" by (rule floor_mono)
  show ?thesis
  proof (cases "\<lfloor>x\<rfloor> = \<lfloor>y\<rfloor>")
    case True
    with xy have "x - of_int \<lfloor>x\<rfloor> \<le> y - of_int \<lfloor>y\<rfloor>" by simp
    with True show ?thesis
      by (auto simp: round_half_even_def Let_def)
  next
    case False
    with fl have "\<lfloor>x\<rfloor> + 1 \<le> \<lfloor>y\<rfloor>" by simp
    with round_half_even_le_ceiling [of x] round_half_even_ge_floor [of y]
    show ?thesis by linarith
  qed
qed

lemma round_half_even_nonneg: "0 \<le> x \<Longrightarrow> 0 \<le> round_half_even x"
  using round_half_even_mono [of 0 x] by simp

lemma round_half_even_unique:
  assumes "\<bar>x - of_int k\<bar> < 1 / 2"
  shows "round_half_even x = k"
proof -
  from assms have "\<lfloor>x + 1 / 2\<rfloor> = k" "\<lceil>x - 1 / 2\<rceil> = k"
    unfolding floor_eq_iff ceiling_eq_iff by linarith+
  moreover have "round_half_even x \<le> \<lfloor>x + 1 / 2\<rfloor>" "\<lceil>x - 1 / 2\<rceil> \<le> round_half_even x"
    using round_half_even_close [of x] unfolding le_floor_iff ceiling_le_iff by linarith+
  ultimately show ?thesis by simp
qed

lemma round_half_even_minus: "round_half_even (- x) = - round_half_even x"
proof (cases "\<exists>k. x = of_int k + 1 / 2")
  case True
  then obtain k where x: "x = of_int k + 1 / 2" ..
  have fl: "\<lfloor>x\<rfloor> = k" "\<lfloor>- x\<rfloor> = - k - 1"
    unfolding x by (simp_all add: floor_eq_iff)
  show ?thesis
    unfolding round_half_even_def Let_def fl by (simp add: x)
next
  case False
  define k where "k = round_half_even x"
  have "\<bar>of_int k - x\<bar> \<le> 1 / 2" unfolding k_def by (rule round_half_even_close)
  moreover have "\<bar>of_int k - x\<bar> \<noteq> 1 / 2"
  proof
    assume "\<bar>of_int k - x\<bar> = 1 / 2"
    then have "x = of_int k + 1 / 2 \<or> x = of_int (k - 1) + 1 / 2"
      by (auto simp: abs_if split: if_splits)
    with False show False by blast
  qed
  ultimately have "\<bar>- x - of_int (- k)\<bar> < 1 / 2" by simp
  then show ?thesis
    unfolding k_def [symmetric] by (rule round_half_even_unique)
qed

text \<open>The same rounding on a quotient of integers, by integer division only.\<close>

lemma round_half_even_div:
  assumes "0 < q"
  shows "round_half_even (of_int p / of_int q) =
     (let d = p div q; r = p mod q
      in if 2 * r < q then d else if q < 2 * r then d + 1
         else if even d then d else d + 1)"
proof -
  have fl: "\<lfloor>(of_int p / of_int q :: rat)\<rfloor> = p div q"
    by (simp add: floor_divide_of_int_eq)
  have "(of_int p :: rat) = of_int (p div q) * of_int q + of_int (p mod q)"
    by (metis div_mult_mod_eq of_int_add of_int_mult)
  with assms have fr: "(of_int p / of_int q :: rat) - of_int (p div q) = of_int (p mod q) / of_int q"
    by (simp add: field_simps)
  have q: "(0 :: rat) < of_int q" using assms by simp
  have "(of_int (p mod q) / of_int q :: rat) < 1 / 2 \<longleftrightarrow>
      (of_int (2 * (p mod q)) :: rat) < of_int q"
    using q by (simp add: pos_divide_less_eq mult.commute)
  then have lt: "(of_int (p mod q) / of_int q :: rat) < 1 / 2 \<longleftrightarrow> 2 * (p mod q) < q"
    by (simp only: of_int_less_iff)
  have "(1 / 2 :: rat) < of_int (p mod q) / of_int q \<longleftrightarrow>
      (of_int q :: rat) < of_int (2 * (p mod q))"
    using q by (simp add: pos_less_divide_eq mult.commute)
  then have gt: "(1 / 2 :: rat) < of_int (p mod q) / of_int q \<longleftrightarrow> q < 2 * (p mod q)"
    by (simp only: of_int_less_iff)
  show ?thesis
    unfolding round_half_even_def fl fr Let_def lt gt ..
qed

lemma round_half_even_numeral_div [simp]:
  "round_half_even (numeral p / numeral q) =
     (let d = numeral p div numeral q; r = numeral p mod (numeral q :: int)
      in if 2 * r < numeral q then d else if numeral q < 2 * r then d + 1
         else if even d then d else d + 1)"
  using round_half_even_div [of "numeral q" "numeral p"] by simp

lemma round_half_even_one_div [simp]:
  "round_half_even (1 / numeral q) =
     (let d = 1 div numeral q; r = 1 mod (numeral q :: int)
      in if 2 * r < numeral q then d else if numeral q < 2 * r then d + 1
         else if even d then d else d + 1)"
  using round_half_even_div [of "numeral q" 1] by simp

section \<open>Powers of two and binades\<close>

lemma bit_length_0 [simp]: "bit_length 0 = 0"
  by (simp add: bit_length.simps)

lemma bit_length_pos: "0 < n \<Longrightarrow> bit_length n = Suc (bit_length (n div 2))"
  by (subst bit_length.simps) simp

lemma bit_length_bounds: "0 < n \<Longrightarrow> 2 ^ (bit_length n - 1) \<le> n \<and> n < 2 ^ bit_length n"
proof (induction n rule: bit_length.induct)
  case (1 n)
  define k where "k = bit_length (n div 2)"
  from "1.prems" have bl: "bit_length n = Suc k" by (simp add: bit_length_pos k_def)
  show ?case
  proof (cases "n div 2 = 0")
    case True
    with "1.prems" have "n = 1" by (simp add: div_eq_0_iff)
    then show ?thesis by (simp add: bit_length_pos)
  next
    case False
    then have pos: "0 < n div 2" by simp
    with "1.IH" "1.prems" have ih: "2 ^ (k - 1) \<le> n div 2" "n div 2 < 2 ^ k"
      by (simp_all add: k_def)
    from pos have "0 < k" by (simp add: bit_length_pos k_def)
    then have "(2::nat) ^ k = 2 * 2 ^ (k - 1)" by (cases k) simp_all
    with ih have "2 ^ k \<le> 2 * (n div 2)" "2 * (n div 2) + 2 \<le> 2 * 2 ^ k" by simp_all
    then have "2 ^ k \<le> n" "n < 2 * 2 ^ k" by linarith+
    then show ?thesis by (simp add: bl)
  qed
qed

lemma bit_length_bounds_rat:
  assumes "0 < n"
  shows "(2::rat) ^ (bit_length n - 1) \<le> of_nat n" and "(of_nat n + 1 :: rat) \<le> 2 ^ bit_length n"
proof -
  from bit_length_bounds [OF assms]
  have "2 ^ (bit_length n - 1) \<le> n" and "Suc n \<le> 2 ^ bit_length n" by simp_all
  then have "(of_nat (2 ^ (bit_length n - 1)) :: rat) \<le> of_nat n"
    and "(of_nat (Suc n) :: rat) \<le> of_nat (2 ^ bit_length n)"
    by (simp_all only: of_nat_le_iff)
  then show "(2::rat) ^ (bit_length n - 1) \<le> of_nat n"
    and "(of_nat n + 1 :: rat) \<le> 2 ^ bit_length n" by simp_all
qed

lemma two_powi_pos [simp]: "0 < (2::rat) powi e"
  by (simp add: power_int_def)

lemma two_powi_nat: "(2::rat) powi (int n) = 2 ^ n"
  by simp

lemma two_powi_neg_nat: "(2::rat) powi (- int n) = 1 / 2 ^ n"
  by (simp add: power_int_minus field_simps)

lemma two_powi_Suc: "(2::rat) powi (e + 1) = 2 * 2 powi e"
  by (simp add: power_int_add)

lemma two_powi_mono: "d \<le> e \<Longrightarrow> (2::rat) powi d \<le> 2 powi e"
  by (rule power_int_increasing) simp_all

lemma two_powi_strict_mono: "d < e \<Longrightarrow> (2::rat) powi d < 2 powi e"
  by (rule power_int_strict_increasing) simp_all

lemma two_powi_le_iff [simp]: "(2::rat) powi d \<le> 2 powi e \<longleftrightarrow> d \<le> e"
  using two_powi_mono [of d e] two_powi_strict_mono [of e d] by (cases "d \<le> e") auto

lemma two_powi_less_iff [simp]: "(2::rat) powi d < 2 powi e \<longleftrightarrow> d < e"
  using two_powi_strict_mono [of d e] two_powi_mono [of e d] by (cases "d < e") (auto simp: not_less)

lemma two_powi_add: "(2::rat) powi (d + e) = 2 powi d * 2 powi e"
  by (simp add: power_int_add)

lemma two_powi_diff: "(2::rat) powi (d - e) = 2 powi d / 2 powi e"
  by (simp add: power_int_diff)

lemma binade_bounds_large:
  assumes "1 \<le> \<bar>x\<bar>"
  shows "2 powi binade x \<le> \<bar>x\<bar> \<and> \<bar>x\<bar> < 2 powi (binade x + 1)"
proof -
  define n where "n = nat \<lfloor>\<bar>x\<bar>\<rfloor>"
  from assms have n: "0 < n" by (simp add: n_def)
  have nx: "of_nat n \<le> \<bar>x\<bar>" "\<bar>x\<bar> < of_nat n + 1"
    using assms by (simp_all add: n_def) linarith+
  note b = bit_length_bounds_rat [OF n]
  from n have bl: "0 < bit_length n" by (simp add: bit_length_pos)
  have e: "binade x = int (bit_length n - 1)"
    using assms bl by (simp add: binade_def n_def)
  have hi: "(2::rat) powi (binade x + 1) = 2 ^ bit_length n"
    unfolding e using bl by (cases "bit_length n") (simp_all add: two_powi_Suc)
  have lo: "(2::rat) powi binade x = 2 ^ (bit_length n - 1)"
    unfolding e by simp
  show ?thesis
    unfolding lo hi using nx b by linarith
qed

lemma binade_bounds_small:
  assumes "x \<noteq> 0" and "\<not> 1 \<le> \<bar>x\<bar>"
  shows "2 powi binade x \<le> \<bar>x\<bar> \<and> \<bar>x\<bar> < 2 powi (binade x + 1)"
proof -
  define y where "y = 1 / \<bar>x\<bar>"
  define m where "m = nat (\<lceil>y\<rceil> - 1)"
  from assms have y1: "1 < y" by (simp add: y_def)
  then have "2 \<le> \<lceil>y\<rceil>" by (simp add: le_ceiling_iff)
  then have m: "0 < m" by (simp add: m_def)
  have my: "of_nat m < y" "y \<le> of_nat m + 1"
    using \<open>2 \<le> \<lceil>y\<rceil>\<close> by (simp_all add: m_def) linarith+
  note b = bit_length_bounds_rat [OF m]
  from m have bl: "0 < bit_length m" by (simp add: bit_length_pos)
  have e: "binade x = - int (bit_length m)"
    using assms(2) by (simp add: binade_def m_def y_def)
  have lo: "(2::rat) ^ (bit_length m - 1) < y"
    using b(1) my(1) by linarith
  have hi: "y \<le> 2 ^ bit_length m"
    using b(2) my(2) by linarith
  have xpos: "0 < \<bar>x\<bar>" using assms(1) by simp
  have "1 / 2 ^ bit_length m \<le> \<bar>x\<bar>"
    using hi xpos by (simp add: y_def field_simps)
  moreover have "\<bar>x\<bar> < 1 / 2 ^ (bit_length m - 1)"
    using lo xpos by (simp add: y_def field_simps)
  moreover have "(2::rat) powi (binade x + 1) = 1 / 2 ^ (bit_length m - 1)"
    unfolding e using bl
    by (cases "bit_length m") (simp_all add: two_powi_Suc power_int_minus field_simps)
  moreover have "(2::rat) powi binade x = 1 / 2 ^ bit_length m"
    unfolding e by (rule two_powi_neg_nat)
  ultimately show ?thesis by simp
qed

lemma binade_bounds:
  assumes "x \<noteq> 0"
  shows "2 powi binade x \<le> \<bar>x\<bar>" and "\<bar>x\<bar> < 2 powi (binade x + 1)"
  using binade_bounds_large [of x] binade_bounds_small [OF assms] by blast+

lemma binade_unique:
  assumes "2 powi e \<le> \<bar>x\<bar>" and "\<bar>x\<bar> < 2 powi (e + 1)"
  shows "binade x = e"
proof -
  have x: "x \<noteq> 0"
  proof
    assume "x = 0"
    with assms(1) two_powi_pos [of e] show False by simp
  qed
  note b = binade_bounds [OF x]
  have "\<not> binade x + 1 \<le> e"
  proof
    assume "binade x + 1 \<le> e"
    then have "(2::rat) powi (binade x + 1) \<le> 2 powi e" by (rule two_powi_mono)
    with b(2) assms(1) show False by simp
  qed
  moreover have "\<not> e + 1 \<le> binade x"
  proof
    assume "e + 1 \<le> binade x"
    then have "(2::rat) powi (e + 1) \<le> 2 powi binade x" by (rule two_powi_mono)
    with b(1) assms(2) show False by simp
  qed
  ultimately show ?thesis by simp
qed

lemma binade_minus [simp]: "binade (- x) = binade x"
  by (simp add: binade_def)

lemma binade_scale:
  assumes "x \<noteq> 0"
  shows "binade (x * 2 powi k) = binade x + k"
proof (rule binade_unique)
  note b = binade_bounds [OF assms]
  have a: "\<bar>x * 2 powi k\<bar> = \<bar>x\<bar> * 2 powi k"
    by (simp add: abs_mult)
  show "2 powi (binade x + k) \<le> \<bar>x * 2 powi k\<bar>"
    unfolding a two_powi_add using b(1) by simp
  have "(2::rat) powi (binade x + k + 1) = 2 powi (binade x + 1) * 2 powi k"
    by (simp add: power_int_add)
  then show "\<bar>x * 2 powi k\<bar> < 2 powi (binade x + k + 1)"
    unfolding a using b(2) by simp
qed

section \<open>Rounding to a float is within half a unit in the last place\<close>

lemma ulp_pos [simp]: "0 < ulp x"
  by (simp add: ulp_def)

lemma ulp_neq_0 [simp]: "ulp x \<noteq> 0"
  by (metis ulp_pos less_irrefl)

lemma ulp_scale: "x \<noteq> 0 \<Longrightarrow> ulp (x * 2 powi k) = ulp x * 2 powi k"
  by (simp add: ulp_def binade_scale power_int_add power_int_diff)

lemma ulp_minus [simp]: "ulp (- x) = ulp x"
  by (simp add: ulp_def)

lemma ulp_times: "ulp x * 2 ^ 52 = 2 powi binade x" "ulp x * 2 ^ 53 = 2 powi (binade x + 1)"
  by (simp_all add: ulp_def power_int_diff power_int_add)

lemma ulp_le: "x \<noteq> 0 \<Longrightarrow> ulp x \<le> \<bar>x\<bar> / 2 ^ 52"
  using binade_bounds(1) [of x] by (simp add: ulp_def power_int_diff field_simps)

lemma round_double_0 [simp]: "round_double 0 = 0"
  by (simp add: round_double_def)

lemma round_double_multiple:
  "round_double x = of_int (round_half_even (x / ulp x)) * ulp x"
  by (simp add: round_double_def)

lemma round_double_scale: "round_double (x * 2 powi k) = round_double x * 2 powi k"
proof (cases "x = 0")
  case False
  then have "x * 2 powi k / (ulp x * 2 powi k) = x / ulp x" by simp
  with False show ?thesis
    by (simp add: round_double_def ulp_scale)
qed simp

lemma round_double_div_pow2: "round_double (x / 2 ^ n) = round_double x / 2 ^ n"
  using round_double_scale [of x "- int n"] by (simp add: two_powi_neg_nat)

lemma round_double_mult_pow2: "round_double (x * 2 ^ n) = round_double x * 2 ^ n"
  using round_double_scale [of x "int n"] by simp

lemma round_double_div_1024 [simp]: "round_double (x / 1024) = round_double x / 1024"
  using round_double_div_pow2 [of x 10] by simp

lemma round_double_minus: "round_double (- x) = - round_double x"
  by (simp add: round_double_def round_half_even_minus)

lemma round_double_error: "\<bar>round_double x - x\<bar> \<le> ulp x / 2"
proof (cases "x = 0")
  case False
  have "\<bar>of_int (round_half_even (x / ulp x)) - x / ulp x\<bar> * ulp x \<le> 1 / 2 * ulp x"
    by (intro mult_right_mono round_half_even_close less_imp_le ulp_pos)
  also have "\<bar>of_int (round_half_even (x / ulp x)) - x / ulp x\<bar> * ulp x =
      \<bar>(of_int (round_half_even (x / ulp x)) - x / ulp x) * ulp x\<bar>"
    by (simp add: abs_mult abs_of_pos)
  also have "(of_int (round_half_even (x / ulp x)) - x / ulp x) * ulp x =
      of_int (round_half_even (x / ulp x)) * ulp x - x"
    using ulp_pos [of x] by (simp add: left_diff_distrib)
  finally show ?thesis
    using False by (simp add: round_double_def)
qed (simp add: less_imp_le)

lemma round_double_relative: "\<bar>round_double x - x\<bar> \<le> \<bar>x\<bar> / 2 ^ 53"
proof (cases "x = 0")
  case False
  from round_double_error [of x] ulp_le [OF False] show ?thesis by simp
qed simp

lemma round_double_characterised:
  assumes "2 powi e \<le> \<bar>x\<bar>" and "\<bar>x\<bar> < 2 powi (e + 1)"
  shows "round_double x = of_int (round_half_even (x * 2 powi (52 - e))) / 2 powi (52 - e)"
proof -
  from assms have e: "binade x = e" by (rule binade_unique)
  have x: "x \<noteq> 0"
  proof
    assume "x = 0"
    with assms(1) two_powi_pos [of e] show False by simp
  qed
  have u: "ulp x = 1 / 2 powi (52 - e)"
    by (simp add: ulp_def e power_int_diff)
  show ?thesis using x by (simp add: round_double_def u)
qed

section \<open>Floats: the values rounding leaves alone\<close>

lemma int_multiple_of_ulp:
  assumes "\<bar>m\<bar> \<le> 2 ^ 53" and "m \<noteq> 0"
  shows "\<exists>j. (of_int m :: rat) = of_int j * ulp (of_int m)"
proof -
  define e where "e = binade (of_int m)"
  from assms(2) have m: "(of_int m :: rat) \<noteq> 0" by simp
  note b = binade_bounds [OF m, folded e_def]
  from assms(1) have "(of_int \<bar>m\<bar> :: rat) \<le> of_int (2 ^ 53)"
    by (simp only: of_int_le_iff)
  then have m53: "\<bar>of_int m :: rat\<bar> \<le> 2 ^ 53" by simp
  have e53: "e \<le> 53"
  proof (rule ccontr)
    assume "\<not> e \<le> 53"
    then have "54 \<le> e" by simp
    then have "(2::rat) powi 54 \<le> 2 powi e" by (rule two_powi_mono)
    with b(1) m53 show False by simp
  qed
  show ?thesis
  proof (cases "e \<le> 52")
    case True
    define n where "n = nat (52 - e)"
    have "ulp (of_int m) = 2 powi (- int n)"
      using True by (simp add: ulp_def e_def n_def)
    then have "(of_int m :: rat) = of_int (m * 2 ^ n) * ulp (of_int m)"
      by (simp add: two_powi_neg_nat)
    then show ?thesis ..
  next
    case False
    with e53 have e: "e = 53" by simp
    have "(2::rat) ^ 53 \<le> \<bar>of_int m\<bar>" using b(1) by (simp add: e)
    then have "2 ^ 53 \<le> \<bar>m\<bar>"
      by (simp flip: of_int_abs)
    with assms(1) have "\<bar>m\<bar> = 2 ^ 53" by simp
    then have "m = 9007199254740992 \<or> m = - 9007199254740992"
      by (simp add: abs_if split: if_splits)
    then have "even m" by auto
    then obtain j where "m = 2 * j" ..
    moreover have "ulp (of_int m) = 2" by (simp add: ulp_def e_def [symmetric] e)
    ultimately have "(of_int m :: rat) = of_int j * ulp (of_int m)" by simp
    then show ?thesis ..
  qed
qed

lemma round_double_multiple_of_ulp:
  assumes "x = of_int j * ulp x"
  shows "round_double x = x"
proof -
  have "x / ulp x = of_int j * ulp x / ulp x"
    by (rule arg_cong [where f = "\<lambda>t. t / ulp x", OF assms])
  then have "x / ulp x = of_int j" by simp
  then have "round_double x = of_int j * ulp x"
    by (simp add: round_double_multiple)
  with assms show ?thesis by simp
qed

lemma round_double_of_int:
  assumes "\<bar>m\<bar> \<le> 2 ^ 53"
  shows "round_double (of_int m) = of_int m"
proof (cases "m = 0")
  case False
  with assms obtain j where "(of_int m :: rat) = of_int j * ulp (of_int m)"
    using int_multiple_of_ulp by blast
  then show ?thesis by (rule round_double_multiple_of_ulp)
qed simp

lemma round_double_exact:
  "\<bar>m\<bar> \<le> 2 ^ 53 \<Longrightarrow> round_double (of_int m * 2 powi k) = of_int m * 2 powi k"
  by (simp add: round_double_scale round_double_of_int)

lemma round_double_dyadic:
  "\<bar>m\<bar> \<le> 2 ^ 53 \<Longrightarrow> round_double (of_int m / 2 ^ n) = of_int m / 2 ^ n"
  by (simp add: round_double_div_pow2 round_double_of_int)

lemma round_double_idem [simp]: "round_double (round_double x) = round_double x"
proof (cases "x = 0")
  case False
  define r where "r = round_half_even (x / ulp x)"
  note b = binade_bounds [OF False]
  have "2 powi (binade x + 1) = ulp x * 2 ^ 53"
    by (simp add: ulp_def power_int_diff power_int_add)
  with b(2) have "\<bar>x\<bar> / ulp x < 2 ^ 53"
    by (simp add: pos_divide_less_eq mult.commute)
  then have "\<bar>x / ulp x\<bar> < 2 ^ 53" by (simp add: abs_of_pos)
  then have "- (2 ^ 53) \<le> x / ulp x" "x / ulp x \<le> 2 ^ 53"
    by linarith+
  then have "of_int (- (2 ^ 53)) \<le> x / ulp x" "x / ulp x \<le> of_int (2 ^ 53)"
    by simp_all
  from round_half_even_mono [OF this(1)] round_half_even_mono [OF this(2)]
  have "\<bar>r\<bar> \<le> 2 ^ 53"
    unfolding r_def round_half_even_of_int by simp
  then have "round_double (of_int r * 2 powi (binade x - 52)) = of_int r * 2 powi (binade x - 52)"
    by (rule round_double_exact)
  then show ?thesis
    by (simp add: round_double_multiple [of x] r_def ulp_def)
qed simp

lemma is_double_round_double [simp]: "is_double (round_double x)"
  by (simp add: is_double_def)

lemma is_double_of_int: "\<bar>m\<bar> \<le> 2 ^ 53 \<Longrightarrow> is_double (of_int m)"
  by (simp add: is_double_def round_double_of_int)

lemma is_double_dyadic: "\<bar>m\<bar> \<le> 2 ^ 53 \<Longrightarrow> is_double (of_int m / 2 ^ n)"
  by (simp add: is_double_def round_double_dyadic)

lemma is_double_div_pow2: "is_double x \<Longrightarrow> is_double (x / 2 ^ n)"
  by (simp add: is_double_def round_double_div_pow2)

lemma is_double_minus [simp]: "is_double (- x) \<longleftrightarrow> is_double x"
  by (simp add: is_double_def round_double_minus)

lemma round_double_numeral [simp]:
  "numeral k \<le> (2 ^ 53 :: int) \<Longrightarrow> round_double (numeral k) = numeral k"
  using round_double_of_int [of "numeral k"] by simp

lemma round_double_1 [simp]: "round_double 1 = 1"
  using round_double_of_int [of 1] by simp

lemma round_double_power2 [simp]: "round_double (2 ^ k) = 2 ^ k"
  using round_double_mult_pow2 [of 1 k] by simp

lemma is_pow2_numeral: "is_pow2 (numeral d) \<Longrightarrow> \<exists>n. (numeral d :: rat) = 2 ^ n"
proof -
  assume "is_pow2 (numeral d)"
  then have "(numeral d :: nat) = 2 ^ (bit_length (numeral d) - 1)" by (simp add: is_pow2_def)
  then have "(of_nat (numeral d) :: rat) = of_nat (2 ^ (bit_length (numeral d) - 1))"
    by (rule arg_cong)
  then have "(numeral d :: rat) = 2 ^ (bit_length (numeral d) - 1)" by simp
  then show ?thesis ..
qed

lemma round_double_div_numeral:
  "is_pow2 (numeral d) \<Longrightarrow> round_double (x / numeral d) = round_double x / numeral d"
proof -
  assume "is_pow2 (numeral d)"
  then obtain n where "(numeral d :: rat) = 2 ^ n" using is_pow2_numeral by blast
  then show ?thesis by (simp only: round_double_div_pow2)
qed

lemma round_double_mult_numeral:
  "is_pow2 (numeral d) \<Longrightarrow> round_double (x * numeral d) = round_double x * numeral d"
proof -
  assume "is_pow2 (numeral d)"
  then obtain n where "(numeral d :: rat) = 2 ^ n" using is_pow2_numeral by blast
  then show ?thesis by (simp only: round_double_mult_pow2)
qed

section \<open>Evaluation\<close>

text \<open>
  With these rules \<open>simp\<close> computes the float nearest to a quotient of numerals, and
  with it the operations on numerals.
\<close>

lemma floor_numeral_div: "\<lfloor>numeral a / numeral b :: rat\<rfloor> = numeral a div numeral b"
  using floor_divide_of_int_eq [of "numeral a" "numeral b", where ?'a = rat] by simp

lemma ceiling_numeral_div: "\<lceil>numeral a / numeral b :: rat\<rceil> = - (- numeral a div numeral b)"
  using ceiling_divide_eq_div [of "numeral a" "numeral b", where ?'a = rat] by simp

lemma floor_one_div: "\<lfloor>1 / numeral b :: rat\<rfloor> = 1 div numeral b"
  using floor_numeral_div [of Num.One b] by simp

lemma ceiling_one_div: "\<lceil>1 / numeral b :: rat\<rceil> = - (- 1 div numeral b)"
  using ceiling_numeral_div [of Num.One b] by simp

lemma bit_length_numeral:
  "bit_length (numeral k) = Suc (bit_length (numeral k div 2))"
  "bit_length 1 = 1" "bit_length (Suc 0) = 1"
  by (simp_all add: bit_length.simps [of "numeral k"] bit_length.simps [of 1]
      bit_length.simps [of "Suc 0"])

lemmas float_compute =
  round_double_def ulp_def binade_def bit_length_numeral floor_numeral_div ceiling_numeral_div
  floor_one_div ceiling_one_div power_int_minus

lemmas float_eval =
  py_float_def truediv_def float_mul_def float_add_def py_sum_def py_round1_def nearest_tenth_def
  is_tenth_def float_compute

lemmas [py_eval] = float_eval

section \<open>Rounding to a float is monotone\<close>

lemma round_double_binade:
  assumes "0 < x"
  shows "2 powi binade x \<le> round_double x" and "round_double x \<le> 2 powi (binade x + 1)"
proof -
  from assms have x: "x \<noteq> 0" by simp
  note b = binade_bounds [OF x]
  from b assms have "ulp x * 2 ^ 52 \<le> x" "x \<le> ulp x * 2 ^ 53"
    unfolding ulp_times by simp_all
  then have "of_int (2 ^ 52) \<le> x / ulp x" "x / ulp x \<le> of_int (2 ^ 53)"
    by (simp_all add: pos_le_divide_eq pos_divide_le_eq mult.commute)
  from round_half_even_mono [OF this(1)] round_half_even_mono [OF this(2)]
  have "2 ^ 52 \<le> round_half_even (x / ulp x)" "round_half_even (x / ulp x) \<le> 2 ^ 53"
    unfolding round_half_even_of_int by simp_all
  then have "(of_int (2 ^ 52) :: rat) \<le> of_int (round_half_even (x / ulp x))"
    "(of_int (round_half_even (x / ulp x)) :: rat) \<le> of_int (2 ^ 53)"
    by (simp_all only: of_int_le_iff)
  then have "2 ^ 52 * ulp x \<le> round_double x" "round_double x \<le> 2 ^ 53 * ulp x"
    unfolding round_double_multiple by (simp_all add: mult_right_mono less_imp_le)
  then show "2 powi binade x \<le> round_double x" and "round_double x \<le> 2 powi (binade x + 1)"
    using ulp_times [of x] by (simp_all add: mult.commute)
qed

lemma round_double_nonneg: "0 \<le> x \<Longrightarrow> 0 \<le> round_double x"
  by (simp add: round_double_def round_half_even_nonneg less_imp_le)

lemma round_double_mono_pos:
  assumes "0 < x" and "x \<le> y"
  shows "round_double x \<le> round_double y"
proof -
  from assms have y: "0 < y" and x0: "x \<noteq> 0" and y0: "y \<noteq> 0" by simp_all
  have "2 powi binade x \<le> x" using binade_bounds(1) [OF x0] assms(1) by simp
  also note assms(2)
  also have "y < 2 powi (binade y + 1)" using binade_bounds(2) [OF y0] y by simp
  finally have le: "binade x \<le> binade y" by simp
  show ?thesis
  proof (cases "binade x = binade y")
    case True
    then have u: "ulp x = ulp y" by (simp add: ulp_def)
    have "x / ulp y \<le> y / ulp y"
      using assms(2) by (simp add: divide_right_mono less_imp_le)
    then have "round_half_even (x / ulp y) \<le> round_half_even (y / ulp y)"
      by (rule round_half_even_mono)
    then show ?thesis
      unfolding round_double_multiple u by (simp add: mult_right_mono less_imp_le)
  next
    case False
    with le have "binade x + 1 \<le> binade y" by simp
    then have "(2::rat) powi (binade x + 1) \<le> 2 powi binade y" by simp
    with round_double_binade(2) [OF assms(1)] round_double_binade(1) [OF y]
    show ?thesis by linarith
  qed
qed

lemma round_double_mono: "x \<le> y \<Longrightarrow> round_double x \<le> round_double y"
proof -
  assume xy: "x \<le> y"
  consider "0 < x" | "x \<le> 0" "0 \<le> y" | "y < 0" by linarith
  then show ?thesis
  proof cases
    case 1
    then show ?thesis using xy by (rule round_double_mono_pos)
  next
    case 2
    from 2(1) have "0 \<le> round_double (- x)" by (intro round_double_nonneg) simp
    with round_double_nonneg [OF 2(2)] show ?thesis by (simp add: round_double_minus)
  next
    case 3
    with xy have "0 < - y" "- y \<le> - x" by simp_all
    then have "round_double (- y) \<le> round_double (- x)" by (rule round_double_mono_pos)
    then show ?thesis by (simp add: round_double_minus)
  qed
qed

lemma round_double_less_int_iff:
  assumes "- (2 ^ 53) < b" and "b \<le> 2 ^ 53"
  shows "round_double (of_int n) < of_int b \<longleftrightarrow> n < b"
proof
  assume "n < b"
  then have "n \<le> b - 1" by simp
  then have "(of_int n :: rat) \<le> of_int (b - 1)" by (simp only: of_int_le_iff)
  then have "round_double (of_int n) \<le> round_double (of_int (b - 1))" by (rule round_double_mono)
  also have "round_double (of_int (b - 1)) = of_int (b - 1)"
    using assms by (intro round_double_of_int) simp
  finally show "round_double (of_int n) < of_int b" by simp
next
  assume lt: "round_double (of_int n) < of_int b"
  show "n < b"
  proof (rule ccontr)
    assume "\<not> n < b"
    then have "(of_int b :: rat) \<le> of_int n" by simp
    then have "round_double (of_int b) \<le> round_double (of_int n)" by (rule round_double_mono)
    moreover have "round_double (of_int b) = of_int b"
      using assms by (intro round_double_of_int) simp
    ultimately show False using lt by simp
  qed
qed

lemma round_double_le_int:
  "\<bar>b\<bar> \<le> 2 ^ 53 \<Longrightarrow> x \<le> of_int b \<Longrightarrow> round_double x \<le> of_int b"
  using round_double_mono [of x "of_int b"] by (simp add: round_double_of_int)

lemma round_double_ge_int:
  "\<bar>b\<bar> \<le> 2 ^ 53 \<Longrightarrow> of_int b \<le> x \<Longrightarrow> of_int b \<le> round_double x"
  using round_double_mono [of "of_int b" x] by (simp add: round_double_of_int)

lemma round_double_between:
  assumes "of_int a \<le> x" and "x \<le> of_int b" and "\<bar>a\<bar> \<le> 2 ^ 53" and "\<bar>b\<bar> \<le> 2 ^ 53"
  shows "of_int a \<le> round_double x \<and> round_double x \<le> of_int b"
  using assms by (simp add: round_double_le_int round_double_ge_int)

lemma round_double_less_numeral_iff [simp]:
  "numeral b \<le> (2 ^ 53 :: int) \<Longrightarrow> round_double (of_int n) < numeral b \<longleftrightarrow> n < numeral b"
  using round_double_less_int_iff [of "numeral b" n] by simp

section \<open>What rounds to a given float\<close>

lemma double_mantissa:
  assumes "is_double x" and "0 < x"
  obtains m where "x = of_int m * ulp x" and "2 ^ 52 \<le> m" and "m < 2 ^ 53"
proof -
  define m where "m = round_half_even (x / ulp x)"
  from assms(1) have x: "x = of_int m * ulp x"
    by (simp add: is_double_def round_double_multiple [of x] m_def)
  from assms(2) have nz: "x \<noteq> 0" by simp
  from binade_bounds [OF nz] assms(2)
  have "ulp x * 2 ^ 52 \<le> x" "x < ulp x * 2 ^ 53"
    unfolding ulp_times by simp_all
  then have "2 ^ 52 * ulp x \<le> of_int m * ulp x" "of_int m * ulp x < 2 ^ 53 * ulp x"
    using x by (simp_all add: mult.commute)
  then have "(2 ^ 52 :: rat) \<le> of_int m" "(of_int m :: rat) < 2 ^ 53"
    by simp_all
  then have "(of_int (2 ^ 52) :: rat) \<le> of_int m" "(of_int m :: rat) < of_int (2 ^ 53)"
    by simp_all
  then have "2 ^ 52 \<le> m" "m < 2 ^ 53"
    by (simp_all only: of_int_le_iff of_int_less_iff)
  with x show thesis by (rule that)
qed

lemma round_double_in_binade:
  assumes "2 powi e \<le> y" and "y < 2 powi (e + 1)" and "\<bar>y / 2 powi (e - 52) - of_int m\<bar> < 1 / 2"
  shows "round_double y = of_int m * 2 powi (e - 52)"
proof -
  have "0 < (2::rat) powi e" by simp
  with assms(1) have y: "0 < y" by linarith
  then have "binade y = e"
    using assms(1,2) by (intro binade_unique) simp_all
  then have u: "ulp y = 2 powi (e - 52)" by (simp add: ulp_def)
  from assms(3) have "round_half_even (y / ulp y) = m"
    unfolding u by (rule round_half_even_unique)
  with y u show ?thesis by (simp add: round_double_multiple [of y])
qed

lemma round_double_above:
  assumes "is_double x" and "0 < x"
  shows "round_double (x + ulp x / 4) = x"
proof -
  from assms obtain m where m: "x = of_int m * ulp x" "2 ^ 52 \<le> m" "m < 2 ^ 53"
    by (rule double_mantissa)
  define e where "e = binade x"
  have u: "ulp x = 2 powi (e - 52)" by (simp add: ulp_def e_def)
  from assms(2) have nz: "x \<noteq> 0" by simp
  from binade_bounds(1) [OF nz] assms(2) ulp_pos [of x] have lo: "2 powi e \<le> x + ulp x / 4"
    unfolding e_def by linarith
  from m(3) have "m + 1 \<le> 2 ^ 53" by simp
  then have "(of_int (m + 1) :: rat) \<le> of_int (2 ^ 53)" by (simp only: of_int_le_iff)
  then have "(of_int m + 1) * ulp x \<le> 2 ^ 53 * ulp x"
    by (intro mult_right_mono) (simp_all add: less_imp_le)
  then have "x + ulp x \<le> 2 powi (e + 1)"
    using m(1) ulp_times(2) [of x] by (simp add: e_def algebra_simps)
  then have hi: "x + ulp x / 4 < 2 powi (e + 1)"
    using ulp_pos [of x] by linarith
  have "(x + ulp x / 4) / ulp x = of_int m + 1 / 4"
    using m(1) by (simp add: field_simps)
  then have "\<bar>(x + ulp x / 4) / 2 powi (e - 52) - of_int m\<bar> < 1 / 2"
    by (simp add: u)
  from round_double_in_binade [OF lo hi this] m(1) u show ?thesis by simp
qed

lemma round_double_below_pow2: "round_double (2 powi e - 2 powi (e - 54)) = 2 powi e"
proof -
  have "(2::rat) powi e - 2 powi (e - 54) = 18014398509481983 * 2 powi (e - 54)"
    by (simp add: power_int_diff)
  moreover have "round_double 18014398509481983 = 18014398509481984"
    by (simp add: float_compute)
  ultimately have "round_double (2 powi e - 2 powi (e - 54)) = 18014398509481984 * 2 powi (e - 54)"
    by (simp only: round_double_scale)
  then show ?thesis by (simp add: power_int_diff)
qed

lemma round_double_below:
  assumes "is_double x" and "0 < x"
  shows "round_double (x - ulp x / 4) = x"
proof -
  from assms obtain m where m: "x = of_int m * ulp x" "2 ^ 52 \<le> m" "m < 2 ^ 53"
    by (rule double_mantissa)
  define e where "e = binade x"
  have u: "ulp x = 2 powi (e - 52)" by (simp add: ulp_def e_def)
  from assms(2) have nz: "x \<noteq> 0" by simp
  show ?thesis
  proof (cases "m = 2 ^ 52")
    case True
    with m(1) ulp_times(1) [of x] have "x = 2 powi e" by (simp add: e_def mult.commute)
    moreover have "ulp x / 4 = 2 powi (e - 54)" by (simp add: u power_int_diff)
    ultimately show ?thesis using round_double_below_pow2 [of e] by simp
  next
    case False
    with m(2) have "2 ^ 52 + 1 \<le> m" by simp
    then have "(of_int (2 ^ 52 + 1) :: rat) \<le> of_int m" by (simp only: of_int_le_iff)
    then have "(2 ^ 52 + 1) * ulp x \<le> of_int m * ulp x"
      by (intro mult_right_mono) (simp_all add: less_imp_le)
    then have "2 powi e + ulp x \<le> x"
      using m(1) ulp_times(1) [of x] by (simp add: e_def algebra_simps)
    then have lo: "2 powi e \<le> x - ulp x / 4"
      using ulp_pos [of x] by linarith
    from binade_bounds(2) [OF nz] assms(2) ulp_pos [of x]
    have hi: "x - ulp x / 4 < 2 powi (e + 1)"
      unfolding e_def by linarith
    have "(x - ulp x / 4) / ulp x = of_int m - 1 / 4"
      using m(1) by (simp add: field_simps)
    then have "\<bar>(x - ulp x / 4) / 2 powi (e - 52) - of_int m\<bar> < 1 / 2"
      by (simp add: u)
    from round_double_in_binade [OF lo hi this] m(1) u show ?thesis by simp
  qed
qed

lemma round_double_near_pos:
  assumes "is_double x" and "0 < x" and "\<bar>d - x\<bar> \<le> ulp x / 4"
  shows "round_double d = x"
proof (rule antisym)
  from assms(3) have "d \<le> x + ulp x / 4" by linarith
  then have "round_double d \<le> round_double (x + ulp x / 4)" by (rule round_double_mono)
  then show "round_double d \<le> x" by (simp add: round_double_above assms)
  from assms(3) have "x - ulp x / 4 \<le> d" by linarith
  then have "round_double (x - ulp x / 4) \<le> round_double d" by (rule round_double_mono)
  then show "x \<le> round_double d" by (simp add: round_double_below assms)
qed

lemma round_double_near:
  assumes "is_double x" and "x \<noteq> 0" and "\<bar>d - x\<bar> \<le> ulp x / 4"
  shows "round_double d = x"
proof (cases "0 < x")
  case True
  with assms show ?thesis by (simp add: round_double_near_pos)
next
  case False
  with assms(2) have "0 < - x" by simp
  moreover from assms(3) have "\<bar>- d - (- x)\<bar> \<le> ulp (- x) / 4"
    by (simp add: abs_minus_commute)
  ultimately have "round_double (- d) = - x"
    using assms(1) by (intro round_double_near_pos) simp_all
  then show ?thesis by (simp add: round_double_minus)
qed

lemma binade_ge: "2 powi e \<le> \<bar>x\<bar> \<Longrightarrow> e \<le> binade x"
proof -
  assume a: "2 powi e \<le> \<bar>x\<bar>"
  from a two_powi_pos [of e] have "0 < \<bar>x\<bar>" by linarith
  then have "x \<noteq> 0" by simp
  from binade_bounds(2) [OF this] a have "(2::rat) powi e < 2 powi (binade x + 1)" by linarith
  then show ?thesis by simp
qed

section \<open>The operations\<close>

lemma py_float_exact: "\<bar>n\<bar> \<le> 2 ^ 53 \<Longrightarrow> py_float n = of_int n"
  by (simp add: py_float_def round_double_of_int)

lemma py_float_numeral [simp]:
  "numeral k \<le> (2 ^ 53 :: int) \<Longrightarrow> py_float (numeral k) = numeral k"
  "py_float 0 = 0" "py_float 1 = 1"
  by (simp_all add: py_float_def)

lemma is_double_py_float [simp]: "is_double (py_float n)"
  by (simp add: py_float_def)

lemma is_double_truediv [simp]: "is_double (truediv x y)"
  by (simp add: truediv_def)

lemma truediv_pow2: "truediv x (2 ^ n) = round_double x / 2 ^ n"
  by (simp add: truediv_def round_double_div_pow2)

lemma truediv_1024: "truediv x 1024 = round_double x / 1024"
  using truediv_pow2 [of x 10] by simp

lemma truediv_twice_1024: "truediv (truediv x 1024) 1024 = truediv x 1048576"
proof -
  have "truediv (truediv x 1024) 1024 = round_double x / 1024 / 1024"
    by (simp only: truediv_def round_double_div_1024 round_double_idem)
  moreover have "truediv x 1048576 = round_double x / 2 ^ 20"
    using round_double_div_pow2 [of x 20] by (simp add: truediv_def)
  ultimately show ?thesis by simp
qed

lemma truediv_relative: "\<bar>truediv x y - x / y\<bar> \<le> \<bar>x / y\<bar> / 2 ^ 53"
  unfolding truediv_def by (rule round_double_relative)

lemma float_mul_relative: "\<bar>float_mul x y - x * y\<bar> \<le> \<bar>x * y\<bar> / 2 ^ 53"
  unfolding float_mul_def by (rule round_double_relative)

lemma is_tenth_iff: "is_tenth x \<longleftrightarrow> (\<exists>k. x = of_int k / 10)"
  by (simp add: is_tenth_def of_int_floor_cancel eq_divide_eq)

lemma is_tenth_nearest_tenth [simp]: "is_tenth (nearest_tenth x)"
  by (auto simp: is_tenth_iff nearest_tenth_def)

lemma nearest_tenth_close: "\<bar>nearest_tenth x - x\<bar> \<le> 1 / 20"
proof -
  have "\<bar>of_int (round_half_even (x * 10)) - x * 10\<bar> \<le> 1 / 2"
    by (rule round_half_even_close)
  then show ?thesis
    by (simp add: nearest_tenth_def field_simps abs_le_iff)
qed

lemma nearest_tenth_mono: "x \<le> y \<Longrightarrow> nearest_tenth x \<le> nearest_tenth y"
  by (simp add: nearest_tenth_def round_half_even_mono divide_right_mono)

lemma nearest_tenth_nonneg: "0 \<le> x \<Longrightarrow> 0 \<le> nearest_tenth x"
  by (simp add: nearest_tenth_def round_half_even_nonneg)

lemma nearest_tenth_of_int_div [simp]: "nearest_tenth (of_int n / 10) = of_int n / 10"
  by (simp add: nearest_tenth_def)

lemma nearest_tenth_tenth: "is_tenth x \<Longrightarrow> nearest_tenth x = x"
  unfolding is_tenth_iff using nearest_tenth_of_int_div by blast

lemma nearest_tenth_unique:
  assumes "is_tenth t" and "\<bar>x - t\<bar> < 1 / 20"
  shows "nearest_tenth x = t"
proof -
  from assms(1) obtain k where t: "t = of_int k / 10" by (auto simp: is_tenth_iff)
  from assms(2) have "\<bar>x * 10 - of_int k\<bar> < 1 / 2"
    unfolding t by (simp add: abs_less_iff field_simps)
  then have "round_half_even (x * 10) = k" by (rule round_half_even_unique)
  then show ?thesis by (simp add: nearest_tenth_def t)
qed

lemma nearest_tenth_round_double:
  assumes "is_tenth t" and "\<bar>t\<bar> \<le> 2 ^ 48"
  shows "nearest_tenth (round_double t) = t"
proof (rule nearest_tenth_unique [OF assms(1)])
  have "\<bar>round_double t - t\<bar> \<le> \<bar>t\<bar> / 2 ^ 53" by (rule round_double_relative)
  also have "\<dots> \<le> 2 ^ 48 / 2 ^ 53" using assms(2) by (simp add: divide_right_mono)
  finally show "\<bar>round_double t - t\<bar> < 1 / 20" by simp
qed

lemma py_round1_close: "\<bar>py_round1 x - x\<bar> \<le> 1 / 20 + (\<bar>x\<bar> + 1 / 20) / 2 ^ 53"
proof -
  have "\<bar>py_round1 x - nearest_tenth x\<bar> \<le> \<bar>nearest_tenth x\<bar> / 2 ^ 53"
    unfolding py_round1_def by (rule round_double_relative)
  moreover have "\<bar>nearest_tenth x\<bar> \<le> \<bar>x\<bar> + 1 / 20"
    using nearest_tenth_close [of x] by linarith
  then have "\<bar>nearest_tenth x\<bar> / 2 ^ 53 \<le> (\<bar>x\<bar> + 1 / 20) / 2 ^ 53"
    by (simp add: divide_right_mono)
  ultimately show ?thesis
    using nearest_tenth_close [of x] by linarith
qed

lemma py_round1_mono: "x \<le> y \<Longrightarrow> py_round1 x \<le> py_round1 y"
  by (simp add: py_round1_def round_double_mono nearest_tenth_mono)

lemma py_round1_nonneg: "0 \<le> x \<Longrightarrow> 0 \<le> py_round1 x"
  by (simp add: py_round1_def round_double_nonneg nearest_tenth_nonneg)

lemma py_round1_0 [simp]: "py_round1 0 = 0"
  by (simp add: py_round1_def nearest_tenth_def)

lemma is_double_py_round1 [simp]: "is_double (py_round1 x)"
  by (simp add: py_round1_def)

lemma is_tenth_0 [simp]: "is_tenth 0"
  by (simp add: is_tenth_def)

lemma is_tenth_add: "is_tenth x \<Longrightarrow> is_tenth y \<Longrightarrow> is_tenth (x + y)"
proof -
  assume "is_tenth x" and "is_tenth y"
  then obtain j k where "x = of_int j / 10" "y = of_int k / 10" by (auto simp: is_tenth_iff)
  then have "x + y = of_int (j + k) / 10" by (simp add: add_divide_distrib)
  then show ?thesis unfolding is_tenth_iff ..
qed

lemma is_tenth_sum_list: "\<forall>x \<in> set xs. is_tenth x \<Longrightarrow> is_tenth (sum_list xs)"
  by (induction xs) (simp_all add: is_tenth_add)

lemma is_rounded1_py_round1: "\<bar>x\<bar> \<le> 2 ^ 47 \<Longrightarrow> is_rounded1 (py_round1 x)"
proof -
  assume x: "\<bar>x\<bar> \<le> 2 ^ 47"
  have "\<bar>nearest_tenth x\<bar> \<le> \<bar>x\<bar> + 1 / 20"
    using nearest_tenth_close [of x] by linarith
  with x have "\<bar>nearest_tenth x\<bar> \<le> 2 ^ 48" by simp
  then have "nearest_tenth (round_double (nearest_tenth x)) = nearest_tenth x"
    by (intro nearest_tenth_round_double) simp_all
  then show ?thesis by (simp add: is_rounded1_def py_round1_def)
qed

lemma is_rounded1_close:
  assumes "is_rounded1 x" and "0 \<le> x"
  shows "\<bar>x - nearest_tenth x\<bar> \<le> x / 2 ^ 52"
proof -
  define t where "t = nearest_tenth x"
  from assms(2) have t0: "0 \<le> t" unfolding t_def by (rule nearest_tenth_nonneg)
  from assms(1) have x: "x = round_double t" by (simp add: is_rounded1_def t_def)
  have "\<bar>round_double t - t\<bar> \<le> \<bar>t\<bar> / 2 ^ 53" by (rule round_double_relative)
  with t0 have d: "\<bar>x - t\<bar> \<le> t / 2 ^ 53" by (simp add: x)
  have "t / 2 ^ 53 \<le> t / 2" using t0 by (simp add: field_simps)
  with d have "t \<le> 2 * x" by linarith
  then have "t / 2 ^ 53 \<le> x / 2 ^ 52" by simp
  with d show ?thesis by (simp add: t_def)
qed

section \<open>Sums of floats\<close>

lemma py_sum_snoc [simp]: "py_sum (xs @ [x]) = float_add (py_sum xs) x"
  by (simp add: py_sum_def)

lemma py_sum_Nil [simp]: "py_sum [] = 0"
  by (simp add: py_sum_def)

lemma py_sum_nonneg: "\<forall>x \<in> set xs. 0 \<le> x \<Longrightarrow> 0 \<le> py_sum xs"
  by (induction xs rule: rev_induct) (simp_all add: float_add_def round_double_nonneg)

lemma py_sum_error:
  assumes "\<forall>x \<in> set xs. 0 \<le> x" and "0 \<le> B"
    and "sum_list xs + of_nat (length xs) * B / 2 ^ 53 \<le> B"
  shows "\<bar>py_sum xs - sum_list xs\<bar> \<le> of_nat (length xs) * B / 2 ^ 53"
  using assms
proof (induction xs rule: rev_induct)
  case Nil
  then show ?case by simp
next
  case (snoc x xs)
  define n where "n = (of_nat (length xs) :: rat)"
  define s where "s = py_sum xs"
  define S where "S = sum_list xs"
  from snoc.prems have x: "0 \<le> x" and nonneg: "\<forall>x \<in> set xs. 0 \<le> x" by simp_all
  from snoc.prems(3) have bound: "S + x + (n + 1) * B / 2 ^ 53 \<le> B"
    by (simp add: n_def S_def algebra_simps)
  have c: "0 \<le> B / 2 ^ 53" using snoc.prems(2) by simp
  have "(n + 1) * B / 2 ^ 53 = n * B / 2 ^ 53 + B / 2 ^ 53" by (simp add: algebra_simps add_divide_distrib)
  with bound x c have "S + n * B / 2 ^ 53 \<le> B" and up: "S + x + n * B / 2 ^ 53 \<le> B"
    by linarith+
  with snoc.IH nonneg snoc.prems(2) have ih: "\<bar>s - S\<bar> \<le> n * B / 2 ^ 53"
    by (simp add: n_def s_def S_def)
  have s0: "0 \<le> s" unfolding s_def using nonneg by (rule py_sum_nonneg)
  from ih up have "s + x \<le> B" by linarith
  with s0 x have "\<bar>s + x\<bar> / 2 ^ 53 \<le> B / 2 ^ 53" by (simp add: divide_right_mono)
  with round_double_relative [of "s + x"]
  have "\<bar>round_double (s + x) - (s + x)\<bar> \<le> B / 2 ^ 53" by linarith
  with ih have "\<bar>round_double (s + x) - (S + x)\<bar> \<le> n * B / 2 ^ 53 + B / 2 ^ 53" by linarith
  then show ?case
    by (simp add: float_add_def n_def s_def S_def algebra_simps add_divide_distrib)
qed

lemma sum_list_close:
  fixes c :: rat
  assumes "\<forall>x \<in> set xs. \<bar>x - f x\<bar> \<le> x * c"
  shows "\<bar>sum_list xs - sum_list (map f xs)\<bar> \<le> sum_list xs * c"
  using assms
proof (induction xs)
  case Nil
  then show ?case by simp
next
  case (Cons x xs)
  then have "\<bar>x - f x\<bar> \<le> x * c" "\<bar>sum_list xs - sum_list (map f xs)\<bar> \<le> sum_list xs * c"
    by simp_all
  then show ?case by (simp add: algebra_simps)
qed

section \<open>Quotients and roundings within integer bounds\<close>

lemma truediv_between:
  assumes "0 \<le> x" and "x \<le> of_int b * y" and "0 < y" and "\<bar>b\<bar> \<le> 2 ^ 53"
  shows "0 \<le> truediv x y \<and> truediv x y \<le> of_int b"
proof -
  from assms(1-3) have "of_int 0 \<le> x / y" "x / y \<le> of_int b"
    by (simp_all add: pos_divide_le_eq)
  with assms(4) show ?thesis
    unfolding truediv_def using round_double_between [of 0 "x / y" b] by simp
qed

lemma py_round1_between:
  assumes "0 \<le> x" and "x \<le> of_int b" and "\<bar>b\<bar> \<le> 2 ^ 47"
  shows "0 \<le> py_round1 x \<and> py_round1 x \<le> of_int b \<and> is_rounded1 (py_round1 x)"
proof -
  have "nearest_tenth (of_int b) = of_int b"
    using nearest_tenth_of_int_div [of "b * 10"] by simp
  moreover from assms(3) have "\<bar>b\<bar> \<le> 2 ^ 53" by simp
  ultimately have "py_round1 (of_int b) = of_int b"
    by (simp add: py_round1_def round_double_of_int)
  with py_round1_mono [OF assms(2)] have "py_round1 x \<le> of_int b" by simp
  moreover from assms(3) have "b \<le> 2 ^ 47" by simp
  then have "(of_int b :: rat) \<le> of_int (2 ^ 47)" by (simp only: of_int_le_iff)
  with assms(1,2) have "\<bar>x\<bar> \<le> 2 ^ 47" by simp
  then have "is_rounded1 (py_round1 x)" by (rule is_rounded1_py_round1)
  ultimately show ?thesis using assms(1) by (simp add: py_round1_nonneg)
qed

end
