(* ===== verification/Py_Format.thy ===== *)
theory Py_Format
  imports Py_Float
begin

text \<open>
  The Python built-ins the monitor calls to print numbers and to handle strings, as
  executable functions: the format specifications \<^verbatim>\<open>.1f\<close>, \<^verbatim>\<open>d\<close>, \<^verbatim>\<open><w\<close> and \<^verbatim>\<open>>w\<close> of
  f-strings, \<^verbatim>\<open>str.lower\<close>, \<^verbatim>\<open>str.endswith\<close>, and \<^verbatim>\<open>int\<close> of a string.

  Python prints a float with one decimal by rounding its exact binary value to the
  nearest tenth, ties to the even tenth: \<open>fmt_f1\<close> does so on the rational a float is
  (theory \<open>Py_Float\<close>). An integer is converted to a float before it is printed with
  \<^verbatim>\<open>.1f\<close>: \<open>format_f1\<close>.

  Characters are Isabelle's 8-bit \<open>char\<close>, a text outside ASCII being the list of its
  UTF-8 bytes. \<^verbatim>\<open>len\<close> and the widths of the format specifications count code points:
  \<open>py_len\<close> counts the bytes that do not continue a character (\<open>is_continuation\<close>), and
  \<open>take_chars\<close> is the slice \<^verbatim>\<open>s[:n]\<close> of a string. \<open>lower\<close> maps the ASCII capitals only,
  which decides membership in the deny-list as \<^verbatim>\<open>str.lower\<close> does.
  \<open>py_int\<close> reads what \<^verbatim>\<open>int\<close> accepts among ASCII strings: white space around, one
  sign, decimal digits with single underscores between them; everything else raises
  \<^verbatim>\<open>ValueError\<close>. The limit recent Python versions put on the number of digits (4300)
  is not modelled.
\<close>

section \<open>Decimal numerals\<close>

definition digit_char :: "nat \<Rightarrow> char" where
  "digit_char d = ''0123456789'' ! d"

definition digit_val :: "char \<Rightarrow> nat" where
  "digit_val c = length (takeWhile (\<lambda>d. d \<noteq> c) ''0123456789'')"

definition is_digit :: "char \<Rightarrow> bool" where
  "is_digit c \<longleftrightarrow> c \<in> set ''0123456789''"

fun show_nat :: "nat \<Rightarrow> string" where
  "show_nat n =
     (if n < 10 then [digit_char n] else show_nat (n div 10) @ [digit_char (n mod 10)])"

declare show_nat.simps [simp del]

definition show_int :: "int \<Rightarrow> string" where
  "show_int i = (if i < 0 then CHR ''-'' # show_nat (nat (- i)) else show_nat (nat i))"

definition read_nat :: "string \<Rightarrow> nat" where
  "read_nat s = foldl (\<lambda>acc c. 10 * acc + digit_val c) 0 s"

section \<open>Format specifications\<close>

definition fmt_f1 :: "pyfloat \<Rightarrow> string" where
  "fmt_f1 x =
     (let t = nat (round_half_even (\<bar>x\<bar> * 10))
      in (if x < 0 then ''-'' else []) @ show_nat (t div 10) @ [CHR ''.'', digit_char (t mod 10)])"

definition format_f1 :: "pyfloat \<Rightarrow> string" where
  "format_f1 x = fmt_f1 (round_double x)"

definition is_continuation :: "char \<Rightarrow> bool" where
  "is_continuation c \<longleftrightarrow> digit7 c \<and> \<not> digit6 c"

definition py_len :: "string \<Rightarrow> nat" where
  "py_len s = length (filter (\<lambda>c. \<not> is_continuation c) s)"

fun take_chars :: "nat \<Rightarrow> string \<Rightarrow> string" where
  "take_chars n [] = []"
| "take_chars n (c # s) =
     (if is_continuation c then c # take_chars n s
      else case n of 0 \<Rightarrow> [] | Suc m \<Rightarrow> c # take_chars m s)"

definition ascii :: "string \<Rightarrow> bool" where
  "ascii s \<longleftrightarrow> list_all (\<lambda>c. \<not> digit7 c) s"

definition ljust :: "nat \<Rightarrow> string \<Rightarrow> string" where
  "ljust w s = s @ replicate (w - py_len s) CHR '' ''"

definition rjust :: "nat \<Rightarrow> string \<Rightarrow> string" where
  "rjust w s = replicate (w - py_len s) CHR '' '' @ s"

section \<open>Strings\<close>

definition newline :: char where
  "newline = CHR 0x0A"

definition lower_char :: "char \<Rightarrow> char" where
  "lower_char c =
     (case map_of (zip ''ABCDEFGHIJKLMNOPQRSTUVWXYZ'' ''abcdefghijklmnopqrstuvwxyz'') c of
        Some d \<Rightarrow> d
      | None \<Rightarrow> c)"

definition lower :: "string \<Rightarrow> string" where
  "lower s = map lower_char s"

definition endswith :: "string \<Rightarrow> string \<Rightarrow> bool" where
  "endswith s t \<longleftrightarrow> length t \<le> length s \<and> drop (length s - length t) s = t"

lemmas [py_eval] =
  newline_def fmt_f1_def format_f1_def show_nat.simps show_int_def ljust_def rjust_def lower_def
  lower_char_def endswith_def digit_char_def slice_to_def sort_desc_def py_len_def
  is_continuation_def

section \<open>Reading integers\<close>

definition is_space :: "char \<Rightarrow> bool" where
  "is_space c \<longleftrightarrow>
     c \<in> set [CHR 0x09, CHR 0x0A, CHR 0x0B, CHR 0x0C, CHR 0x0D, CHR 0x1C, CHR 0x1D, CHR 0x1E,
       CHR 0x1F, CHR '' '']"

definition strip :: "string \<Rightarrow> string" where
  "strip s = rev (dropWhile is_space (rev (dropWhile is_space s)))"

fun well_grouped :: "string \<Rightarrow> bool" where
  "well_grouped [] \<longleftrightarrow> False"
| "well_grouped [c] \<longleftrightarrow> is_digit c"
| "well_grouped (c # d # s) \<longleftrightarrow>
     is_digit c \<and> (if d = CHR ''_'' then well_grouped s else well_grouped (d # s))"

definition split_sign :: "string \<Rightarrow> bool \<times> string" where
  "split_sign t =
     (case t of
        [] \<Rightarrow> (False, [])
      | c # r \<Rightarrow>
          if c = CHR ''-'' then (True, r) else if c = CHR ''+'' then (False, r) else (False, t))"

definition py_int :: "string \<Rightarrow> int raises" where
  "py_int s =
     (let (negative, body) = split_sign (strip s)
      in if well_grouped body
         then Inr ((if negative then - 1 else 1) * int (read_nat (filter is_digit body)))
         else Inl ValueError)"

lemmas read_eval =
  is_space_def strip_def split_sign_def py_int_def read_nat_def digit_val_def is_digit_def

section \<open>Decimal numerals read back\<close>

lemma digit_char_cases:
  "d < 10 \<Longrightarrow> d \<in> {0, 1, 2, 3, 4, 5, 6, 7, 8, 9 :: nat}"
  by auto

lemma digit_val_digit_char [simp]: "d < 10 \<Longrightarrow> digit_val (digit_char d) = d"
  by (drule digit_char_cases) (auto simp: digit_val_def digit_char_def)

lemma is_digit_digit_char [simp]: "d < 10 \<Longrightarrow> is_digit (digit_char d)"
  by (drule digit_char_cases) (auto simp: is_digit_def digit_char_def)

lemma show_nat_small [simp]: "n < 10 \<Longrightarrow> show_nat n = [digit_char n]"
  by (simp add: show_nat.simps)

lemma show_nat_large: "10 \<le> n \<Longrightarrow> show_nat n = show_nat (n div 10) @ [digit_char (n mod 10)]"
  by (subst show_nat.simps) simp

lemma show_nat_nonempty [simp]: "show_nat n \<noteq> []"
  by (subst show_nat.simps) simp

lemma show_nat_digits: "\<forall>c \<in> set (show_nat n). is_digit c"
proof (induction n rule: show_nat.induct)
  case (1 n)
  show ?case
  proof (cases "n < 10")
    case True
    then show ?thesis by simp
  next
    case False
    with "1.IH" show ?thesis by (simp add: show_nat_large)
  qed
qed

lemma read_nat_snoc [simp]: "read_nat (s @ [c]) = 10 * read_nat s + digit_val c"
  by (simp add: read_nat_def)

lemma read_show_nat [simp]: "read_nat (show_nat n) = n"
proof (induction n rule: show_nat.induct)
  case (1 n)
  show ?case
  proof (cases "n < 10")
    case True
    then show ?thesis by (simp add: read_nat_def)
  next
    case False
    with "1.IH" show ?thesis by (simp add: show_nat_large)
  qed
qed

lemma show_nat_inj: "show_nat m = show_nat n \<longleftrightarrow> m = n"
  by (metis read_show_nat)

lemma not_digit_simps [simp]:
  "\<not> is_digit CHR '' ''" "\<not> is_digit CHR ''.''" "\<not> is_digit CHR ''-''"
  by (simp_all add: is_digit_def)

section \<open>Widths of formatted numbers\<close>

lemma replicate_numeral [py_eval]:
  "replicate (numeral k) x = x # replicate (pred_numeral k) x"
  by (simp add: numeral_eq_Suc)

lemma is_continuation_Char [simp]:
  "is_continuation (Char b0 b1 b2 b3 b4 b5 b6 b7) \<longleftrightarrow> b7 \<and> \<not> b6"
  by (simp add: is_continuation_def)

lemma py_len_simps [simp]:
  "py_len [] = 0" "py_len (s @ t) = py_len s + py_len t"
  "py_len (c # s) = (if is_continuation c then py_len s else Suc (py_len s))"
  "py_len (replicate n CHR '' '') = n"
  by (simp_all add: py_len_def is_continuation_def)

lemma py_len_le_length: "py_len s \<le> length s"
  by (simp add: py_len_def)

lemma py_len_ascii: "ascii s \<Longrightarrow> py_len s = length s"
  by (induction s) (simp_all add: ascii_def is_continuation_def)

lemma ascii_simps [simp]:
  "ascii []" "ascii (c # s) \<longleftrightarrow> \<not> digit7 c \<and> ascii s" "ascii (s @ t) \<longleftrightarrow> ascii s \<and> ascii t"
  by (simp_all add: ascii_def)

lemma ascii_iff: "ascii s \<longleftrightarrow> (\<forall>c \<in> set s. \<not> digit7 c)"
  by (simp add: ascii_def list_all_iff)

lemma is_digit_ascii: "is_digit c \<Longrightarrow> \<not> digit7 c"
  by (auto simp: is_digit_def)

lemma ascii_show_nat [simp]: "ascii (show_nat n)"
  using show_nat_digits [of n] by (auto simp: ascii_iff dest: is_digit_ascii)

lemma ascii_show_int [simp]: "ascii (show_int i)"
  by (simp add: show_int_def)

lemma py_len_show_nat [simp]: "py_len (show_nat n) = length (show_nat n)"
  by (simp add: py_len_ascii)

lemma py_len_show_int [simp]: "py_len (show_int i) = length (show_int i)"
  by (simp add: py_len_ascii)

lemma py_len_take_chars: "py_len (take_chars n s) = min n (py_len s)"
  by (induction n s rule: take_chars.induct) (simp_all split: nat.splits)

lemma take_chars_all: "py_len s \<le> n \<Longrightarrow> take_chars n s = s"
  by (induction n s rule: take_chars.induct) (auto split: nat.splits if_splits)

lemma take_chars_ascii: "ascii s \<Longrightarrow> take_chars n s = take n s"
  by (induction n s rule: take_chars.induct)
    (auto simp: is_continuation_def split: nat.splits)

lemma py_len_ljust [simp]: "py_len (ljust w s) = max w (py_len s)"
  by (simp add: ljust_def)

lemma py_len_rjust [simp]: "py_len (rjust w s) = max w (py_len s)"
  by (simp add: rjust_def)

lemma ljust_id [simp]: "w \<le> py_len s \<Longrightarrow> ljust w s = s"
  by (simp add: ljust_def)

lemma rjust_id [simp]: "w \<le> py_len s \<Longrightarrow> rjust w s = s"
  by (simp add: rjust_def)

lemma fmt_f1_nonneg:
  "0 \<le> x \<Longrightarrow> fmt_f1 x =
     show_nat (nat (round_half_even (x * 10)) div 10) @
     [CHR ''.'', digit_char (nat (round_half_even (x * 10)) mod 10)]"
  by (simp add: fmt_f1_def Let_def)

lemma fmt_f1_of_int:
  "0 \<le> n \<Longrightarrow> fmt_f1 (of_int n) = show_nat (nat n) @ ''.0''"
proof -
  assume n: "0 \<le> n"
  have "round_half_even (of_int n * 10) = n * 10"
    using round_half_even_of_int [of "n * 10"] by simp
  with n show ?thesis
    by (simp add: fmt_f1_nonneg nat_mult_distrib digit_char_def)
qed

lemma length_fmt_f1_ge: "3 \<le> length (fmt_f1 x)"
proof -
  have "1 \<le> length (show_nat n)" for n
    using show_nat_nonempty [of n] by (cases "show_nat n") auto
  then show ?thesis
    by (auto simp: fmt_f1_def Let_def intro: le_trans)
qed

lemma length_show_nat_le: "0 < k \<Longrightarrow> n < 10 ^ k \<Longrightarrow> length (show_nat n) \<le> k"
proof (induction n arbitrary: k rule: show_nat.induct)
  case (1 n)
  show ?case
  proof (cases "n < 10")
    case True
    with "1.prems" show ?thesis by simp
  next
    case False
    with "1.prems" obtain j where k: "k = Suc j" and j: "0 < j"
      by (cases k; cases "k - 1") auto
    from "1.prems" k have "n div 10 < 10 ^ j"
      by (simp add: less_mult_imp_div_less mult.commute)
    with "1.IH" [OF False j] False k show ?thesis
      by (simp add: show_nat_large)
  qed
qed

lemma length_fmt_f1_le:
  assumes "0 \<le> x" and "x \<le> 10 ^ k - 1" and "0 < k"
  shows "length (fmt_f1 x) \<le> k + 2"
proof -
  let ?t = "round_half_even (x * 10)"
  have "x * 10 \<le> of_int ((10 ^ k - 1) * 10)"
    using assms(2) by simp
  then have "?t \<le> round_half_even (of_int ((10 ^ k - 1) * 10))"
    by (rule round_half_even_mono)
  then have "?t < 10 ^ k * 10"
    unfolding round_half_even_of_int by simp
  moreover have "0 \<le> ?t"
    using assms(1) by (intro round_half_even_nonneg) simp
  ultimately have "nat ?t < 10 ^ k * 10"
    by (simp add: nat_less_iff)
  then have "nat ?t div 10 < 10 ^ k"
    by (rule less_mult_imp_div_less)
  from length_show_nat_le [OF assms(3) this] assms(1) show ?thesis
    by (simp add: fmt_f1_nonneg)
qed

lemma show_int_no_space: "CHR '' '' \<notin> set (show_int i)"
proof -
  have "\<forall>c \<in> set (show_int i). is_digit c \<or> c = CHR ''-''"
    using show_nat_digits by (auto simp: show_int_def)
  then show ?thesis by (fastforce simp: is_digit_def)
qed

lemma fmt_f1_no_space: "CHR '' '' \<notin> set (fmt_f1 x)"
proof -
  have "\<forall>c \<in> set (fmt_f1 x). is_digit c \<or> c = CHR ''.'' \<or> c = CHR ''-''"
    using show_nat_digits by (auto simp: fmt_f1_def Let_def)
  then show ?thesis by fastforce
qed

lemma ascii_fmt_f1 [simp]: "ascii (fmt_f1 x)"
proof -
  have "\<forall>c \<in> set (fmt_f1 x). is_digit c \<or> c = CHR ''.'' \<or> c = CHR ''-''"
    using show_nat_digits by (auto simp: fmt_f1_def Let_def)
  then show ?thesis by (auto simp: ascii_iff dest: is_digit_ascii)
qed

lemma py_len_fmt_f1 [simp]: "py_len (fmt_f1 x) = length (fmt_f1 x)"
  by (simp add: py_len_ascii)

section \<open>Printing a float that is close to a tenth\<close>

lemma fmt_f1_near_tenth:
  assumes "is_tenth t" and "\<bar>y - t\<bar> < 1 / 20" and "t \<noteq> 0 \<or> 0 \<le> y"
  shows "fmt_f1 y = fmt_f1 t"
proof -
  from assms(1) obtain k where t: "t = of_int k / 10" by (auto simp: is_tenth_iff)
  have "\<bar>\<bar>y\<bar> - \<bar>t\<bar>\<bar> \<le> \<bar>y - t\<bar>" by (rule abs_triangle_ineq3)
  with assms(2) have "\<bar>\<bar>y\<bar> * 10 - of_int \<bar>k\<bar>\<bar> < 1 / 2"
    unfolding t by (simp add: abs_less_iff field_simps)
  then have r: "round_half_even (\<bar>y\<bar> * 10) = \<bar>k\<bar>" by (rule round_half_even_unique)
  have "\<bar>t\<bar> * 10 = of_int \<bar>k\<bar>" by (simp add: t)
  then have r': "round_half_even (\<bar>t\<bar> * 10) = \<bar>k\<bar>" by (simp only: round_half_even_of_int)
  have "1 / 10 \<le> \<bar>t\<bar>" if "t \<noteq> 0"
  proof -
    from that have "k \<noteq> 0" by (auto simp: t)
    then have "1 \<le> \<bar>k\<bar>" by simp
    then have "(1 :: rat) \<le> of_int \<bar>k\<bar>" by (simp only: of_int_1_le_iff)
    then show ?thesis by (simp add: t)
  qed
  with assms(2,3) have "y < 0 \<longleftrightarrow> t < 0" by (cases "t = 0") (auto simp: abs_if split: if_splits)
  with r r' show ?thesis by (simp add: fmt_f1_def)
qed

lemma fmt_f1_round_double:
  assumes "is_tenth t" and "\<bar>t\<bar> \<le> 2 ^ 48"
  shows "fmt_f1 (round_double t) = fmt_f1 t"
proof (rule fmt_f1_near_tenth [OF assms(1)])
  have "\<bar>round_double t - t\<bar> \<le> \<bar>t\<bar> / 2 ^ 53" by (rule round_double_relative)
  also have "\<dots> \<le> 2 ^ 48 / 2 ^ 53" using assms(2) by (simp add: divide_right_mono)
  finally show "\<bar>round_double t - t\<bar> < 1 / 20" by simp
  show "t \<noteq> 0 \<or> 0 \<le> round_double t" by (cases "t = 0") simp_all
qed

lemma format_f1_double: "is_double x \<Longrightarrow> format_f1 x = fmt_f1 x"
  by (simp add: format_f1_def is_double_def)

lemma format_f1_of_int: "\<bar>n\<bar> \<le> 2 ^ 53 \<Longrightarrow> format_f1 (of_int n) = fmt_f1 (of_int n)"
  by (simp add: format_f1_def round_double_of_int)

lemma format_f1_round_double [simp]: "format_f1 (round_double x) = fmt_f1 (round_double x)"
  by (simp add: format_f1_def)

lemma fmt_f1_rounded1:
  assumes "is_rounded1 x" and "\<bar>x\<bar> \<le> 2 ^ 47"
  shows "fmt_f1 x = fmt_f1 (nearest_tenth x)"
proof -
  have "\<bar>nearest_tenth x\<bar> \<le> \<bar>x\<bar> + 1 / 20"
    using nearest_tenth_close [of x] by linarith
  with assms(2) have "\<bar>nearest_tenth x\<bar> \<le> 2 ^ 48" by simp
  then have "fmt_f1 (round_double (nearest_tenth x)) = fmt_f1 (nearest_tenth x)"
    by (intro fmt_f1_round_double is_tenth_nearest_tenth)
  with assms(1) show ?thesis by (simp add: is_rounded1_def)
qed

lemma fmt_f1_py_sum:
  assumes "\<forall>x \<in> set xs. is_rounded1 x \<and> 0 \<le> x" and "length xs \<le> 2 ^ 15"
    and "sum_list xs \<le> 2 ^ 31"
  shows "fmt_f1 (py_sum xs) = fmt_f1 (sum_list (map nearest_tenth xs))"
proof (rule fmt_f1_near_tenth)
  show "is_tenth (sum_list (map nearest_tenth xs))"
    by (rule is_tenth_sum_list) simp
  from assms(1) have nonneg: "\<forall>x \<in> set xs. 0 \<le> x" by simp
  then have s0: "0 \<le> sum_list xs" by (simp add: sum_list_nonneg)
  show "sum_list (map nearest_tenth xs) \<noteq> 0 \<or> 0 \<le> py_sum xs"
    using py_sum_nonneg [OF nonneg] by simp
  have "\<forall>x \<in> set xs. \<bar>x - nearest_tenth x\<bar> \<le> x * (1 / 2 ^ 52)"
    using assms(1) is_rounded1_close by simp
  then have "\<bar>sum_list xs - sum_list (map nearest_tenth xs)\<bar> \<le> sum_list xs * (1 / 2 ^ 52)"
    by (rule sum_list_close)
  also have "\<dots> \<le> 2 ^ 31 * (1 / 2 ^ 52)"
    using assms(3) by (intro mult_right_mono) simp_all
  finally have a: "\<bar>sum_list xs - sum_list (map nearest_tenth xs)\<bar> \<le> 1 / 2 ^ 21" by simp
  have "(of_nat (length xs) :: rat) \<le> of_nat (2 ^ 15)"
    using assms(2) by (simp only: of_nat_le_iff)
  then have n: "(of_nat (length xs) :: rat) \<le> 2 ^ 15" by simp
  then have nb: "of_nat (length xs) * 2 ^ 32 / 2 ^ 53 \<le> (2 ^ 15 * 2 ^ 32 / 2 ^ 53 :: rat)"
    by (intro divide_right_mono mult_right_mono) simp_all
  with assms(3) have "sum_list xs + of_nat (length xs) * 2 ^ 32 / 2 ^ 53 \<le> 2 ^ 32" by simp
  with nonneg have "\<bar>py_sum xs - sum_list xs\<bar> \<le> of_nat (length xs) * 2 ^ 32 / 2 ^ 53"
    by (intro py_sum_error) simp_all
  with nb have b: "\<bar>py_sum xs - sum_list xs\<bar> \<le> 1 / 2 ^ 6" by simp
  have "\<bar>py_sum xs - sum_list (map nearest_tenth xs)\<bar> \<le>
      \<bar>py_sum xs - sum_list xs\<bar> + \<bar>sum_list xs - sum_list (map nearest_tenth xs)\<bar>"
    by linarith
  also have "\<dots> \<le> 1 / 2 ^ 6 + 1 / 2 ^ 21" by (intro add_mono a b)
  also have "\<dots> < 1 / 20" by simp
  finally show "\<bar>py_sum xs - sum_list (map nearest_tenth xs)\<bar> < 1 / 20" .
qed

section \<open>Suffixes and lower case\<close>

lemma endswith_iff_suffix: "endswith s t \<longleftrightarrow> suffix t s"
proof
  assume "endswith s t"
  then have "s = take (length s - length t) s @ t"
    by (metis append_take_drop_id endswith_def)
  then show "suffix t s" by (metis suffixI)
next
  assume "suffix t s"
  then show "endswith s t" by (auto simp: endswith_def suffix_def)
qed

lemma endswith_append [simp]: "endswith (s @ t) t"
  by (simp add: endswith_def)

lemma length_lower [simp]: "length (lower s) = length s"
  by (simp add: lower_def)

lemma lower_append [simp]: "lower (s @ t) = lower s @ lower t"
  by (simp add: lower_def)

section \<open>Integers read back\<close>

lemma py_int_raises: "py_int s = Inl e \<Longrightarrow> e = ValueError"
  by (auto simp: py_int_def Let_def split: prod.splits if_splits)

lemma digit_not_space: "is_digit c \<Longrightarrow> \<not> is_space c"
  by (auto simp: is_digit_def is_space_def)

lemma strip_id:
  assumes "s \<noteq> []" and "\<not> is_space (hd s)" and "\<not> is_space (last s)"
  shows "strip s = s"
proof -
  from assms have "dropWhile is_space s = s"
    by (cases s) simp_all
  moreover from assms have "dropWhile is_space (rev s) = rev s"
    by (cases "rev s") (simp_all add: last_rev [symmetric] hd_rev)
  ultimately show ?thesis by (simp add: strip_def)
qed

lemma well_grouped_digits:
  "s \<noteq> [] \<Longrightarrow> \<forall>c \<in> set s. is_digit c \<Longrightarrow> well_grouped s"
proof (induction s rule: well_grouped.induct)
  case (3 c d s)
  then have "d \<noteq> CHR ''_''" by (auto simp: is_digit_def)
  with 3 show ?case by simp
qed simp_all

lemma well_grouped_show_nat [simp]: "well_grouped (show_nat n)"
  using show_nat_digits by (intro well_grouped_digits) simp_all

lemma filter_digits_show_nat [simp]: "filter is_digit (show_nat n) = show_nat n"
  using show_nat_digits [of n] by (simp add: filter_id_conv)

lemma hd_show_nat_digit: "is_digit (hd (show_nat n))"
  using show_nat_digits [of n] show_nat_nonempty [of n] by (cases "show_nat n") auto

lemma last_show_nat_digit: "is_digit (last (show_nat n))"
  using show_nat_digits [of n] show_nat_nonempty [of n] last_in_set by blast

lemma strip_show_nat [simp]: "strip (show_nat n) = show_nat n"
  by (intro strip_id digit_not_space hd_show_nat_digit last_show_nat_digit) simp

lemma split_sign_show_nat [simp]: "split_sign (show_nat n) = (False, show_nat n)"
proof -
  have "hd (show_nat n) \<noteq> CHR ''-''" "hd (show_nat n) \<noteq> CHR ''+''"
    using hd_show_nat_digit [of n] by (auto simp: is_digit_def)
  then show ?thesis
    using show_nat_nonempty [of n] by (cases "show_nat n") (auto simp: split_sign_def)
qed

lemma py_int_show_nat: "py_int (show_nat n) = Inr (int n)"
  by (simp add: py_int_def)

lemma py_int_minus_show_nat: "py_int (CHR ''-'' # show_nat n) = Inr (- int n)"
proof -
  have "strip (CHR ''-'' # show_nat n) = CHR ''-'' # show_nat n"
    using last_show_nat_digit [of n]
    by (intro strip_id) (auto simp: is_space_def dest: digit_not_space)
  then show ?thesis by (simp add: py_int_def split_sign_def)
qed

lemma py_int_show_int: "py_int (show_int i) = Inr i"
  by (simp add: show_int_def py_int_show_nat py_int_minus_show_nat)

lemma py_int_examples:
  "py_int ''5'' = Inr 5" "py_int '' 12 '' = Inr 12" "py_int ''-3'' = Inr (- 3)"
  "py_int ''+7'' = Inr 7" "py_int ''1_000'' = Inr 1000" "py_int ''007'' = Inr 7"
  "py_int ''2.5'' = Inl ValueError" "py_int ''abc'' = Inl ValueError"
  "py_int [] = Inl ValueError" "py_int ''1__0'' = Inl ValueError"
  "py_int ''- 1'' = Inl ValueError" "py_int ''0'' = Inr 0"
  by (simp_all add: read_eval)

lemma strip_padded:
  assumes "\<forall>c \<in> set (ws1 @ ws2). is_space c" and "s \<noteq> []"
    and "\<not> is_space (hd s)" and "\<not> is_space (last s)"
  shows "strip (ws1 @ s @ ws2) = s"
proof -
  from assms have "dropWhile is_space (ws1 @ s @ ws2) = s @ ws2"
    by (cases s) (simp_all add: dropWhile_append2)
  moreover from assms(1) have "dropWhile is_space (rev ws2 @ rev s) = dropWhile is_space (rev s)"
    by (intro dropWhile_append2) simp
  moreover from assms have "dropWhile is_space (rev s) = rev s"
    by (cases "rev s") (simp_all add: last_rev [symmetric] hd_rev)
  ultimately show ?thesis by (simp add: strip_def)
qed

lemma show_int_ends:
  "show_int i \<noteq> []" "\<not> is_space (hd (show_int i))" "\<not> is_space (last (show_int i))"
  using hd_show_nat_digit [of "nat i"] last_show_nat_digit [of "nat i"]
    last_show_nat_digit [of "nat (- i)"]
  by (auto simp: show_int_def is_space_def dest: digit_not_space)

lemma py_int_strip: "strip s = strip t \<Longrightarrow> py_int s = py_int t"
  by (simp add: py_int_def)

section \<open>Properties of \<open>py_int\<close>\<close>

text \<open>
  \<^verbatim>\<open>int\<close> reads back what \<^verbatim>\<open>str\<close> prints, with any white space around it.
\<close>

lemma int_round_trip:
  assumes "\<forall>c \<in> set (ws1 @ ws2). is_space c"
  shows "py_int (ws1 @ show_int i @ ws2) = Inr i"
proof -
  from assms have "strip (ws1 @ show_int i @ ws2) = show_int i"
    by (intro strip_padded show_int_ends)
  moreover have "strip (show_int i) = show_int i"
    by (intro strip_id show_int_ends)
  ultimately have "py_int (ws1 @ show_int i @ ws2) = py_int (show_int i)"
    by (intro py_int_strip) simp
  then show ?thesis by (simp add: py_int_show_int)
qed

end
