(* ===== verification/Py_Values.thy ===== *)
theory Py_Values
  imports Py_Format "HOL-Library.AList"
begin

text \<open>
  The values the monitor stores in its dictionaries and what it does with them:
  subscripts, \<^verbatim>\<open>in\<close>, \<^verbatim>\<open>or\<close>, \<^verbatim>\<open>str\<close>, the replacement fields of f-strings, and \<^verbatim>\<open>print\<close>.

  \<^item> A dictionary is an association list in insertion order (\<open>pydict\<close>); a subscript
    that finds no key raises \<^verbatim>\<open>KeyError\<close> (\<open>getitem\<close>); an assignment to a subscript
    replaces the value in place or appends the key (\<open>AList.update\<close>).
  \<^item> \<open>str_float\<close> is \<^verbatim>\<open>str\<close> of a float: Python prints the shortest decimal that reads
    back as the same float, with at least one digit after the point. \<open>repr_places\<close>
    searches the least number of decimal places to which the float can be rounded
    (\<open>decimal_round\<close>) so that the decimal rounds back to it, and \<open>fmt_fixed\<close> prints
    that many places. At each number of places the model tests the decimal nearest
    to the float; Python also takes the other neighbour when only that one reads back,
    which can happen only at a power of two. Python switches to exponent notation below \<open>10\<^sup>-\<^sup>4\<close> and from
    \<open>10\<^sup>1\<^sup>6\<close> on; the model is Python's for magnitudes in between and for zero, where
    at most 21 places are needed. The percentages psutil returns are in that range.
  \<^item> An f-string is the list of its pieces, each a text or the exception its
    replacement field raises; \<open>fstr\<close> evaluates the pieces from left to right.
  \<^item> What a method prints is the list of the arguments of its \<^verbatim>\<open>print\<close> calls, in
    order, with the exception that ended it, if any (\<open>printed\<close>).
\<close>

section \<open>Values and dictionaries\<close>

datatype pyval = Str string | Float pyfloat | IntVal int | NoneVal

type_synonym pydict = "(string \<times> pyval) list"

definition getitem :: "pydict \<Rightarrow> string \<Rightarrow> pyval raises" where
  "getitem d k = (case map_of d k of None \<Rightarrow> Inl (KeyError k) | Some v \<Rightarrow> Inr v)"

definition has_key :: "pydict \<Rightarrow> string \<Rightarrow> bool" where
  "has_key d k \<longleftrightarrow> k \<in> set (map fst d)"

definition opt_int :: "int option \<Rightarrow> pyval" where
  "opt_int v = (case v of None \<Rightarrow> NoneVal | Some i \<Rightarrow> IntVal i)"

fun truthy :: "pyval \<Rightarrow> bool" where
  "truthy (Str s) \<longleftrightarrow> s \<noteq> []"
| "truthy (Float x) \<longleftrightarrow> x \<noteq> 0"
| "truthy (IntVal i) \<longleftrightarrow> i \<noteq> 0"
| "truthy NoneVal \<longleftrightarrow> False"

definition py_or :: "pyval \<Rightarrow> pyval \<Rightarrow> pyval" where
  "py_or a b = (if truthy a then a else b)"

section \<open>Numbers as text\<close>

definition zfill :: "nat \<Rightarrow> string \<Rightarrow> string" where
  "zfill w s = replicate (w - length s) CHR ''0'' @ s"

definition fmt_fixed :: "nat \<Rightarrow> pyfloat \<Rightarrow> string" where
  "fmt_fixed p x =
     (let t = nat (round_half_even (\<bar>x\<bar> * 10 ^ p))
      in (if x < 0 then ''-'' else []) @ show_nat (t div 10 ^ p) @
         CHR ''.'' # zfill p (show_nat (t mod 10 ^ p)))"

definition decimal_round :: "nat \<Rightarrow> pyfloat \<Rightarrow> rat" where
  "decimal_round p x = of_int (round_half_even (x * 10 ^ p)) / 10 ^ p"

fun repr_places :: "nat \<Rightarrow> nat \<Rightarrow> pyfloat \<Rightarrow> nat" where
  "repr_places 0 p x = p"
| "repr_places (Suc fuel) p x =
     (if round_double (decimal_round p x) = x then p else repr_places fuel (Suc p) x)"

definition str_float :: "pyfloat \<Rightarrow> string" where
  "str_float x = fmt_fixed (max 1 (repr_places 21 0 x)) x"

definition fmt_f0 :: "pyfloat \<Rightarrow> string" where
  "fmt_f0 x = (if x < 0 then ''-'' else []) @ show_nat (nat (round_half_even \<bar>x\<bar>))"

fun str_val :: "pyval \<Rightarrow> string" where
  "str_val (Str s) = s"
| "str_val (Float x) = str_float x"
| "str_val (IntVal i) = show_int i"
| "str_val NoneVal = ''None''"

section \<open>f-strings and \<open>print\<close>\<close>

definition item :: "pydict \<Rightarrow> string \<Rightarrow> string raises" where
  "item d k = (case getitem d k of Inl e \<Rightarrow> Inl e | Inr v \<Rightarrow> Inr (str_val v))"

fun fstr :: "string raises list \<Rightarrow> string raises" where
  "fstr [] = Inr []"
| "fstr (Inl e # pieces) = Inl e"
| "fstr (Inr s # pieces) = (case fstr pieces of Inl e \<Rightarrow> Inl e | Inr t \<Rightarrow> Inr (s @ t))"

type_synonym printed = "string list \<times> exn option"

definition say :: "string raises \<Rightarrow> printed" where
  "say s = (case s of Inl e \<Rightarrow> ([], Some e) | Inr line \<Rightarrow> ([line], None))"

definition silent :: printed where
  "silent = ([], None)"

definition and_then :: "printed \<Rightarrow> printed \<Rightarrow> printed" where
  "and_then p q =
     (case snd p of
        Some e \<Rightarrow> p
      | None \<Rightarrow> (fst p @ fst q, snd q))"

definition in_order :: "printed list \<Rightarrow> printed" where
  "in_order ps = foldr and_then ps silent"

lemmas [py_eval] =
  getitem_def has_key_def opt_int_def py_or_def fmt_f0_def item_def say_def
  silent_def and_then_def in_order_def

lemma repr_places_numeral:
  "repr_places (numeral k) p x =
     (if round_double (decimal_round p x) = x then p else repr_places (pred_numeral k) (Suc p) x)"
  by (simp add: numeral_eq_Suc)

lemmas places_eval = repr_places_numeral decimal_round_def float_compute

section \<open>Dictionaries\<close>

lemma getitem_Inr_iff: "getitem d k = Inr v \<longleftrightarrow> map_of d k = Some v"
  by (simp add: getitem_def split: option.splits)

lemma has_key_map_of: "has_key d k \<longleftrightarrow> map_of d k \<noteq> None"
  by (simp add: has_key_def map_of_eq_None_iff)

lemma getitem_Inl_iff: "getitem d k = Inl e \<longleftrightarrow> \<not> has_key d k \<and> e = KeyError k"
  by (auto simp: getitem_def has_key_map_of split: option.splits)

lemma has_key_getitem: "has_key d k \<longleftrightarrow> (\<exists>v. getitem d k = Inr v)"
  by (auto simp: getitem_def has_key_map_of split: option.splits)

lemma getitem_update:
  "getitem (AList.update k v d) k' = (if k' = k then Inr v else getitem d k')"
  by (simp add: getitem_def update_conv')

lemma has_key_update [simp]: "has_key (AList.update k v d) k' \<longleftrightarrow> k' = k \<or> has_key d k'"
  by (auto simp: has_key_map_of update_conv')

lemma keys_update_new:
  "\<not> has_key d k \<Longrightarrow> map fst (AList.update k v d) = map fst d @ [k]"
  by (induction d) (auto simp: has_key_def)

lemma item_Inl_iff: "item d k = Inl e \<longleftrightarrow> \<not> has_key d k \<and> e = KeyError k"
  by (auto simp: item_def getitem_def has_key_map_of split: option.splits)

lemma item_Inr: "getitem d k = Inr v \<Longrightarrow> item d k = Inr (str_val v)"
  by (simp add: item_def)

lemma item_has_key: "has_key d k \<Longrightarrow> \<exists>s. item d k = Inr s"
  by (auto simp: item_def has_key_getitem)

lemma py_or_simps [simp]:
  "py_or NoneVal b = b" "py_or (IntVal 0) b = b" "i \<noteq> 0 \<Longrightarrow> py_or (IntVal i) b = IntVal i"
  by (simp_all add: py_or_def)

section \<open>Numbers as text\<close>

lemma fmt_fixed_1: "fmt_fixed (Suc 0) x = fmt_f1 x"
proof -
  have "zfill (Suc 0) (show_nat (n mod 10)) = [digit_char (n mod 10)]" for n
    by (simp add: zfill_def)
  then show ?thesis by (simp add: fmt_fixed_def fmt_f1_def Let_def)
qed

lemma decimal_round_0: "decimal_round 0 x = of_int (round_half_even x)"
  by (simp add: decimal_round_def)

lemma decimal_round_1: "decimal_round (Suc 0) x = nearest_tenth x"
  by (simp add: decimal_round_def nearest_tenth_def)

lemma repr_places_le_1:
  assumes "is_rounded1 x"
  shows "repr_places (Suc (Suc fuel)) 0 x \<le> 1"
  using assms by (simp add: decimal_round_1 is_rounded1_def)

text \<open>A float nearest to a tenth is printed as that tenth.\<close>

lemma str_float_rounded1: "is_rounded1 x \<Longrightarrow> str_float x = fmt_f1 x"
proof -
  assume "is_rounded1 x"
  then have "repr_places 21 0 x \<le> 1"
    using repr_places_le_1 [of x 19] by (simp add: eval_nat_numeral)
  then have "max 1 (repr_places 21 0 x) = 1" by simp
  then show ?thesis by (simp add: str_float_def fmt_fixed_1)
qed

lemma is_rounded1_of_int: "\<bar>n\<bar> \<le> 2 ^ 53 \<Longrightarrow> is_rounded1 (of_int n)"
proof -
  have "nearest_tenth (of_int n) = of_int n"
    using nearest_tenth_of_int_div [of "n * 10"] by simp
  moreover assume "\<bar>n\<bar> \<le> 2 ^ 53"
  ultimately show ?thesis by (simp add: is_rounded1_def round_double_of_int)
qed

lemma str_float_of_int:
  "0 \<le> n \<Longrightarrow> n \<le> 2 ^ 53 \<Longrightarrow> str_float (of_int n) = show_nat (nat n) @ ''.0''"
  by (simp add: str_float_rounded1 is_rounded1_of_int fmt_f1_of_int)

lemma repr_places_bounds: "p \<le> repr_places fuel p x \<and> repr_places fuel p x \<le> p + fuel"
proof (induction fuel arbitrary: p)
  case (Suc fuel)
  from Suc [of "Suc p"] show ?case by simp
qed simp

lemma repr_places_found:
  "repr_places fuel p x < p + fuel \<Longrightarrow> round_double (decimal_round (repr_places fuel p x) x) = x"
proof (induction fuel arbitrary: p)
  case (Suc fuel)
  then show ?case by (cases "round_double (decimal_round p x) = x") simp_all
qed simp

lemma repr_places_least:
  "p \<le> q \<Longrightarrow> q < repr_places fuel p x \<Longrightarrow> round_double (decimal_round q x) \<noteq> x"
proof (induction fuel arbitrary: p)
  case (Suc fuel)
  show ?case
  proof (cases "round_double (decimal_round p x) = x")
    case True
    with Suc.prems show ?thesis by simp
  next
    case False
    show ?thesis
    proof (cases "q = p")
      case True
      with False show ?thesis by simp
    next
      case neq: False
      with Suc.prems False have "Suc p \<le> q" "q < repr_places fuel (Suc p) x" by simp_all
      then show ?thesis by (rule Suc.IH)
    qed
  qed
qed simp

text \<open>Twenty-one places are enough from \<open>2\<^sup>-\<^sup>1\<^sup>6\<close> on, so the search of \<open>str_float\<close> ends with a
  decimal that reads back as the float, and no decimal of fewer places does.\<close>

lemma decimal_round_close: "\<bar>decimal_round p x - x\<bar> \<le> 1 / (2 * 10 ^ p)"
proof -
  define n where "n = round_half_even (x * 10 ^ p)"
  have "decimal_round p x - x = (of_int n - x * 10 ^ p) / 10 ^ p"
    by (simp add: decimal_round_def n_def diff_divide_distrib)
  then have "\<bar>decimal_round p x - x\<bar> = \<bar>of_int n - x * 10 ^ p\<bar> / 10 ^ p"
    by (simp only: abs_divide) simp
  also have "\<dots> \<le> (1 / 2) / 10 ^ p"
    unfolding n_def by (intro divide_right_mono round_half_even_close) simp
  finally show ?thesis by simp
qed

lemma decimal_round_21:
  assumes "is_double x" and "1 / 2 ^ 16 \<le> \<bar>x\<bar>"
  shows "round_double (decimal_round 21 x) = x"
proof -
  from assms(2) have "2 powi (- 16) \<le> \<bar>x\<bar>" by (simp add: power_int_minus)
  then have "- 16 \<le> binade x" by (rule binade_ge)
  then have "(2::rat) powi (- 68) \<le> ulp x"
    unfolding ulp_def two_powi_le_iff by simp
  then have u: "1 / 2 ^ 68 \<le> ulp x" by (simp add: power_int_minus)
  note decimal_round_close [of 21 x]
  also have "1 / (2 * 10 ^ 21) \<le> (1 / 2 ^ 68) / (4::rat)" by simp
  also have "\<dots> \<le> ulp x / 4" by (intro divide_right_mono u) simp
  finally have "\<bar>decimal_round 21 x - x\<bar> \<le> ulp x / 4" .
  moreover from assms(2) have "x \<noteq> 0" by auto
  ultimately show ?thesis using assms(1) by (intro round_double_near)
qed

lemma str_float_reads_back:
  assumes "is_double x" and "1 / 2 ^ 16 \<le> \<bar>x\<bar>"
  shows "round_double (decimal_round (repr_places 21 0 x) x) = x"
proof (cases "repr_places 21 0 x < 21")
  case True
  with repr_places_found [of 21 0 x] show ?thesis by simp
next
  case False
  with repr_places_bounds [of 0 21 x] have "repr_places 21 0 x = 21" by simp
  with assms show ?thesis by (simp add: decimal_round_21)
qed

lemma str_float_places: "repr_places 21 0 x = p \<Longrightarrow> str_float x = fmt_fixed (max 1 p) x"
  by (simp add: str_float_def)

text \<open>Three floats that are not tenths, as Python prints them.\<close>

lemma str_float_third: "str_float (truediv 1 3) = ''0.3333333333333333''"
proof -
  have x: "truediv 1 3 = 6004799503160661 / 18014398509481984"
    by (simp add: py_eval)
  have "repr_places 21 0 (6004799503160661 / 18014398509481984) = 16"
    by (simp add: places_eval)
  then show ?thesis
    unfolding x by (simp add: str_float_places fmt_fixed_def show_nat.simps)
      (simp add: zfill_def digit_char_def)
qed

lemma str_float_sum:
  "str_float (float_add (round_double (1 / 10)) (round_double (1 / 5))) = ''0.30000000000000004''"
proof -
  have x: "float_add (round_double (1 / 10)) (round_double (1 / 5)) =
      1351079888211149 / 4503599627370496"
    by (simp add: py_eval)
  have "repr_places 21 0 (1351079888211149 / 4503599627370496) = 17"
    by (simp add: places_eval)
  then show ?thesis
    unfolding x by (simp add: str_float_places fmt_fixed_def show_nat.simps)
      (simp add: zfill_def digit_char_def)
qed

lemma str_float_eighth: "str_float (1 / 8) = ''0.125''"
proof -
  have "repr_places 21 0 (1 / 8) = 3"
    by (simp add: places_eval)
  then show ?thesis
    by (simp add: str_float_places fmt_fixed_def show_nat.simps)
      (simp add: zfill_def digit_char_def)
qed

lemma fmt_f0_of_int: "fmt_f0 (of_int n) = show_int n"
  by (auto simp: fmt_f0_def show_int_def round_half_even_of_int simp flip: of_int_abs)

lemma fmt_f0_py_float: "\<bar>n\<bar> \<le> 2 ^ 53 \<Longrightarrow> fmt_f0 (py_float n) = show_int n"
  by (simp add: py_float_exact fmt_f0_of_int)

section \<open>Sequences of \<open>print\<close> calls\<close>

lemma and_then_simps [simp]:
  "and_then (ls, None) q = (ls @ fst q, snd q)"
  "and_then (ls, Some e) q = (ls, Some e)"
  "and_then silent q = q"
  by (simp_all add: and_then_def silent_def)

lemma and_then_silent [simp]: "and_then p silent = p"
  by (cases p) (auto simp: and_then_def silent_def split: option.splits)

lemma and_then_assoc: "and_then (and_then p q) r = and_then p (and_then q r)"
  by (cases p; cases q; cases r) (auto simp: and_then_def split: option.splits)

lemma in_order_simps [simp]:
  "in_order [] = silent" "in_order (p # ps) = and_then p (in_order ps)"
  by (simp_all add: in_order_def)

lemma in_order_append: "in_order (ps @ qs) = and_then (in_order ps) (in_order qs)"
  by (induction ps) (simp_all add: and_then_assoc)

lemma in_order_all_fine:
  "\<forall>p \<in> set ps. snd p = None \<Longrightarrow> in_order ps = (concat (map fst ps), None)"
proof (induction ps)
  case (Cons p ps)
  then show ?case by (cases p) simp
qed (simp add: silent_def)

lemma in_order_stops:
  assumes "\<forall>p \<in> set ps. snd p = None" and "snd q = Some e"
  shows "in_order (ps @ q # rest) = (concat (map fst ps) @ fst q, Some e)"
  using assms by (cases q) (simp add: in_order_append in_order_all_fine)

lemma fstr_all_fine: "fstr (map Inr ss) = Inr (concat ss)"
  by (induction ss) simp_all

lemma fstr_first_raise: "fstr (map Inr ss @ Inl e # pieces) = Inl e"
  by (induction ss) simp_all

lemma fstr_Inr_Cons: "fstr pieces = Inr t \<Longrightarrow> fstr (Inr s # pieces) = Inr (s @ t)"
  by simp

lemma say_Inr [simp]: "say (Inr s) = ([s], None)"
  by (simp add: say_def)

lemma say_Inl [simp]: "say (Inl e) = ([], Some e)"
  by (simp add: say_def)

end
