(* ===== verification/Cpu_Probe.thy ===== *)
theory Cpu_Probe
  imports Py_Values
begin

text \<open>
  \<^verbatim>\<open>SystemMonitor.get_cpu_info\<close> (\<^verbatim>\<open>src/tools/system_monitor.py\<close>, lines 27-80).

  \<open>cpu_host\<close> holds what the host answers: \<^verbatim>\<open>HAS_PSUTIL\<close>, the outcome of the two
  \<^verbatim>\<open>psutil.cpu_percent\<close> calls, of \<^verbatim>\<open>psutil.cpu_count()\<close> and
  \<^verbatim>\<open>psutil.cpu_count(logical=False)\<close> (a count or \<^verbatim>\<open>None\<close>), \<^verbatim>\<open>self.system\<close>, the clock speeds
  read through \<^verbatim>\<open>wmi\<close> (current and maximal; the import, the query and the subscript may
  raise), \<^verbatim>\<open>psutil.cpu_freq()\<close> (\<^verbatim>\<open>None\<close> or the current frequency),
  \<^verbatim>\<open>psutil.sensors_temperatures()\<close> (the values of the dictionary it returns, each a list
  of current temperatures) and \<^verbatim>\<open>os.cpu_count()\<close>.

  All three \<^verbatim>\<open>except:\<close> clauses of the method are bare: nothing leaves it, an interrupt
  included, and \<open>get_cpu_info\<close> is a total function. \<open>frequency_text\<close> is the inner
  \<^verbatim>\<open>try\<close> of lines 40-52, \<open>core_info\<close> the dictionary of lines 54-59, \<open>add_temperature\<close>
  the \<^verbatim>\<open>try\<close> of lines 62-69, \<open>psutil_cpu\<close> the body of the outer \<^verbatim>\<open>try\<close> with the exception
  that leaves it, \<open>fallback_cpu\<close> the dictionary of lines 76-80.
\<close>

section \<open>The host\<close>

record cpu_host =
  cpu_has_psutil :: bool
  percpu_sample :: "unit raises"
  cpu_sample :: "pyfloat raises"
  logical_count :: "int option raises"
  physical_count :: "int option raises"
  cpu_system :: string
  wmi_clock :: "(int \<times> int) raises"
  cpu_freq :: "pyfloat option raises"
  sensors_temperatures :: "pyfloat list list raises"
  os_cpu_count :: "int option"

section \<open>\<open>get_cpu_info\<close>\<close>

definition degree_sign :: string where
  "degree_sign = [CHR 0xC2, CHR 0xB0]"

definition frequency_text :: "cpu_host \<Rightarrow> string" where
  "frequency_text h =
     (if cpu_system h = ''Windows'' then
        (case wmi_clock h of
           Inl e \<Rightarrow> ''Unknown''
         | Inr (current_freq, max_freq) \<Rightarrow>
             fmt_f0 (py_float current_freq) @ '' MHz (Max: '' @ show_int max_freq @ '' MHz)'')
      else
        (case cpu_freq h of
           Inl e \<Rightarrow> ''Unknown''
         | Inr None \<Rightarrow> ''Unknown''
         | Inr (Some current) \<Rightarrow> fmt_f0 current @ '' MHz''))"

definition core_info :: "pyfloat \<Rightarrow> int option \<Rightarrow> int option \<Rightarrow> string \<Rightarrow> pydict" where
  "core_info cpu_percent logical physical freq_str =
     [(''usage'', Float cpu_percent),
      (''logical_cores'', opt_int logical),
      (''physical_cores'', py_or (opt_int physical) (opt_int logical)),
      (''frequency'', Str freq_str)]"

definition add_temperature :: "cpu_host \<Rightarrow> pydict \<Rightarrow> pydict" where
  "add_temperature h info =
     (if cpu_system h = ''Windows'' then
        (case sensors_temperatures h of
           Inl e \<Rightarrow> info
         | Inr [] \<Rightarrow> info
         | Inr ([] # others) \<Rightarrow> info
         | Inr ((temp # extra) # others) \<Rightarrow>
             AList.update ''temperature'' (Str (fmt_f0 temp @ degree_sign @ ''C'')) info)
      else info)"

definition psutil_cpu :: "cpu_host \<Rightarrow> pydict raises" where
  "psutil_cpu h =
     (case percpu_sample h of
        Inl e \<Rightarrow> Inl e
      | Inr u \<Rightarrow>
     (case cpu_sample h of
        Inl e \<Rightarrow> Inl e
      | Inr cpu_percent \<Rightarrow>
     (case logical_count h of
        Inl e \<Rightarrow> Inl e
      | Inr logical \<Rightarrow>
     (case physical_count h of
        Inl e \<Rightarrow> Inl e
      | Inr physical \<Rightarrow>
          Inr (add_temperature h
            (core_info cpu_percent logical physical (frequency_text h)))))))"

definition fallback_cpu :: "cpu_host \<Rightarrow> pydict" where
  "fallback_cpu h =
     [(''usage'', Str ''Unknown''), (''cores'', opt_int (os_cpu_count h)),
      (''frequency'', Str ''Unknown'')]"

definition get_cpu_info :: "cpu_host \<Rightarrow> pydict" where
  "get_cpu_info h =
     (if cpu_has_psutil h then
        (case psutil_cpu h of Inl e \<Rightarrow> fallback_cpu h | Inr info \<Rightarrow> info)
      else fallback_cpu h)"

definition samples_fine :: "cpu_host \<Rightarrow> bool" where
  "samples_fine h \<longleftrightarrow>
     cpu_has_psutil h \<and> \<not> isl (percpu_sample h) \<and> \<not> isl (cpu_sample h) \<and>
     \<not> isl (logical_count h) \<and> \<not> isl (physical_count h)"

section \<open>Example hosts\<close>

definition linux_cpu :: cpu_host where
  "linux_cpu =
     \<lparr>cpu_has_psutil = True, percpu_sample = Inr (), cpu_sample = Inr (25 / 2),
      logical_count = Inr (Some 8), physical_count = Inr (Some 4), cpu_system = ''Linux'',
      wmi_clock = Inl OSError, cpu_freq = Inr (Some (4799 / 2)),
      sensors_temperatures = Inr [[45]], os_cpu_count = Some 8\<rparr>"

definition windows_cpu :: cpu_host where
  "windows_cpu =
     \<lparr>cpu_has_psutil = True, percpu_sample = Inr (), cpu_sample = Inr 3,
      logical_count = Inr (Some 8), physical_count = Inr None, cpu_system = ''Windows'',
      wmi_clock = Inr (2400, 3600), cpu_freq = Inr None,
      sensors_temperatures = Inr [[123 / 2, 40], [30]], os_cpu_count = Some 8\<rparr>"

definition bare_cpu :: cpu_host where
  "bare_cpu = linux_cpu\<lparr>cpu_has_psutil := False\<rparr>"

definition interrupted_cpu :: cpu_host where
  "interrupted_cpu = linux_cpu\<lparr>cpu_sample := Inl KeyboardInterrupt\<rparr>"

lemmas [py_eval] =
  degree_sign_def frequency_text_def core_info_def add_temperature_def psutil_cpu_def
  fallback_cpu_def get_cpu_info_def samples_fine_def

lemmas cpu_examples = linux_cpu_def windows_cpu_def bare_cpu_def interrupted_cpu_def

section \<open>The two shapes of the result\<close>

lemma samples_fine_iff:
  "samples_fine h \<longleftrightarrow> cpu_has_psutil h \<and> (\<exists>info. psutil_cpu h = Inr info)"
  by (cases "percpu_sample h"; cases "cpu_sample h"; cases "logical_count h";
      cases "physical_count h") (simp_all add: samples_fine_def psutil_cpu_def)

lemma psutil_cpu_Inr:
  assumes "percpu_sample h = Inr u" and "cpu_sample h = Inr c"
    and "logical_count h = Inr l" and "physical_count h = Inr p"
  shows "psutil_cpu h = Inr (add_temperature h (core_info c l p (frequency_text h)))"
  using assms by (simp add: psutil_cpu_def)

lemma psutil_cpu_InrD:
  assumes "psutil_cpu h = Inr info"
  obtains c l p where "cpu_sample h = Inr c" and "logical_count h = Inr l"
    and "physical_count h = Inr p"
    and "info = add_temperature h (core_info c l p (frequency_text h))"
  using assms
  by (cases "percpu_sample h"; cases "cpu_sample h"; cases "logical_count h";
      cases "physical_count h") (simp_all add: psutil_cpu_def)

lemma get_cpu_info_cases:
  obtains (fallback) "\<not> samples_fine h" and "get_cpu_info h = fallback_cpu h"
  | (psutil) c l p where "samples_fine h" and "cpu_sample h = Inr c"
      and "logical_count h = Inr l" and "physical_count h = Inr p"
      and "get_cpu_info h = add_temperature h (core_info c l p (frequency_text h))"
proof (cases "samples_fine h")
  case True
  then obtain info where "cpu_has_psutil h" and info: "psutil_cpu h = Inr info"
    by (auto simp: samples_fine_iff)
  then have "get_cpu_info h = info" by (simp add: get_cpu_info_def)
  with True info show ?thesis by (auto elim!: psutil_cpu_InrD intro: psutil)
next
  case False
  then have "get_cpu_info h = fallback_cpu h"
    by (cases "psutil_cpu h") (auto simp: samples_fine_iff get_cpu_info_def)
  with False show ?thesis by (rule fallback)
qed

lemma add_temperature_cases:
  obtains (none) "add_temperature h info = info"
  | (some) temp extra others where "cpu_system h = ''Windows''"
      and "sensors_temperatures h = Inr ((temp # extra) # others)"
      and "add_temperature h info =
        AList.update ''temperature'' (Str (fmt_f0 temp @ degree_sign @ ''C'')) info"
proof (cases "cpu_system h = ''Windows''")
  case False
  then show ?thesis by (intro none) (simp add: add_temperature_def)
next
  case True
  show ?thesis
  proof (cases "sensors_temperatures h")
    case (Inl e)
    with True show ?thesis by (intro none) (simp add: add_temperature_def)
  next
    case (Inr temps)
    show ?thesis
    proof (cases temps)
      case Nil
      with True Inr show ?thesis by (intro none) (simp add: add_temperature_def)
    next
      case (Cons first others)
      with True Inr show ?thesis
        by (cases first) (auto simp: add_temperature_def intro: none some)
    qed
  qed
qed

lemma getitem_add_temperature:
  "k \<noteq> ''temperature'' \<Longrightarrow> getitem (add_temperature h info) k = getitem info k"
  by (cases h info rule: add_temperature_cases) (simp_all add: getitem_update)

lemma has_key_add_temperature:
  "k \<noteq> ''temperature'' \<Longrightarrow> has_key (add_temperature h info) k = has_key info k"
  by (simp add: has_key_getitem getitem_add_temperature)

lemma has_key_core_info [simp]:
  "has_key (core_info c l p f) k \<longleftrightarrow>
     k \<in> {''usage'', ''logical_cores'', ''physical_cores'', ''frequency''}"
  by (auto simp: has_key_def core_info_def)

lemma has_key_fallback_cpu [simp]:
  "has_key (fallback_cpu h) k \<longleftrightarrow> k \<in> {''usage'', ''cores'', ''frequency''}"
  by (auto simp: has_key_def fallback_cpu_def)

lemma keys_add_temperature:
  "\<not> has_key info ''temperature'' \<Longrightarrow>
     map fst (add_temperature h info) =
     map fst info @ (if has_key (add_temperature h info) ''temperature''
       then [''temperature''] else [])"
  by (cases h info rule: add_temperature_cases) (simp_all add: keys_update_new)

lemma keys_core_info:
  "map fst (core_info c l p f) = [''usage'', ''logical_cores'', ''physical_cores'', ''frequency'']"
  by (simp add: core_info_def)

lemma physical_cores_default:
  assumes "samples_fine h" and "physical_count h = Inr None \<or> physical_count h = Inr (Some 0)"
  shows "getitem (get_cpu_info h) ''physical_cores'' = getitem (get_cpu_info h) ''logical_cores''"
proof (cases h rule: get_cpu_info_cases)
  case fallback
  with assms show ?thesis by simp
next
  case (psutil c l p)
  then have "getitem (get_cpu_info h) k = getitem (core_info c l p (frequency_text h)) k"
    if "k \<noteq> ''temperature''" for k
    using that by (simp add: getitem_add_temperature)
  with assms(2) psutil(4) show ?thesis
    by (auto simp: getitem_def core_info_def opt_int_def)
qed

lemma get_cpu_info_linux:
  "get_cpu_info linux_cpu =
     [(''usage'', Float (25 / 2)), (''logical_cores'', IntVal 8), (''physical_cores'', IntVal 4),
      (''frequency'', Str ''2400 MHz'')]"
  by (simp add: cpu_examples py_eval)

lemma get_cpu_info_windows:
  "get_cpu_info windows_cpu =
     [(''usage'', Float 3), (''logical_cores'', IntVal 8), (''physical_cores'', IntVal 8),
      (''frequency'', Str ''2400 MHz (Max: 3600 MHz)''),
      (''temperature'', Str (''62'' @ degree_sign @ ''C''))]"
  by (simp add: cpu_examples py_eval round_half_even_of_int)

section \<open>Properties of \<open>get_cpu_info\<close>\<close>

text \<open>
  C23 (invariant). The dictionary \<^verbatim>\<open>get_cpu_info\<close> returns has one of two shapes. When
  psutil is present and the four sampling calls return, its keys are \<^verbatim>\<open>usage\<close>,
  \<^verbatim>\<open>logical_cores\<close>, \<^verbatim>\<open>physical_cores\<close>, \<^verbatim>\<open>frequency\<close>, followed by \<^verbatim>\<open>temperature\<close> if
  one was read. In every other case, an interrupt during sampling included, its keys
  are \<^verbatim>\<open>usage\<close>, \<^verbatim>\<open>cores\<close>, \<^verbatim>\<open>frequency\<close>.
\<close>

theorem cpu_info_keys:
  "map fst (get_cpu_info h) =
     (if samples_fine h
      then [''usage'', ''logical_cores'', ''physical_cores'', ''frequency''] @
        (if has_key (get_cpu_info h) ''temperature'' then [''temperature''] else [])
      else [''usage'', ''cores'', ''frequency''])"
proof (cases h rule: get_cpu_info_cases)
  case fallback
  then show ?thesis by (simp add: fallback_cpu_def)
next
  case (psutil c l p)
  then show ?thesis
    using keys_add_temperature [of "core_info c l p (frequency_text h)" h]
    by (simp add: keys_core_info)
qed

text \<open>
  C24 (functional). The temperature is queried on Windows only: if the dictionary of
  \<^verbatim>\<open>get_cpu_info\<close> has the key \<^verbatim>\<open>temperature\<close>, the system is Windows,
  \<^verbatim>\<open>psutil.sensors_temperatures()\<close> returned a non-empty dictionary whose first sensor has
  a reading, and the value is that reading without decimals followed by the degree
  sign and \<^verbatim>\<open>C\<close>. On Linux, where psutil provides the readings, none is shown.
\<close>

theorem temperature_windows_only:
  assumes "has_key (get_cpu_info h) ''temperature''"
  shows "cpu_system h = ''Windows'' \<and>
     (\<exists>temp extra others. sensors_temperatures h = Inr ((temp # extra) # others) \<and>
        getitem (get_cpu_info h) ''temperature'' = Inr (Str (fmt_f0 temp @ degree_sign @ ''C'')))"
proof (cases h rule: get_cpu_info_cases)
  case fallback
  with assms show ?thesis by simp
next
  case (psutil c l p)
  with assms show ?thesis
    by (cases h "core_info c l p (frequency_text h)" rule: add_temperature_cases)
      (auto simp: getitem_update)
qed

theorem temperature_windows_only_witness:
  "cpu_system windows_cpu = ''Windows'' \<and>
   getitem (get_cpu_info windows_cpu) ''temperature'' = Inr (Str (''62'' @ degree_sign @ ''C'')) \<and>
   \<not> has_key (get_cpu_info linux_cpu) ''temperature''"
proof -
  have "has_key (get_cpu_info windows_cpu) ''temperature''"
    by (simp add: get_cpu_info_windows has_key_def)
  from temperature_windows_only [OF this] show ?thesis
    by (simp add: get_cpu_info_windows get_cpu_info_linux getitem_def has_key_def)
qed

end
