(* ===== verification/Byte_Formatter.thy ===== *)
theory Byte_Formatter
  imports Py_Format
begin

text \<open>
  \<^verbatim>\<open>SystemMonitor.format_bytes\<close> (\<^verbatim>\<open>src/tools/system_monitor.py\<close>, lines 215-220): the loop
  over the unit labels that divides the value by 1024 until it is below 1024 or the
  labels run out, and prints it with one decimal.

  \<^item> \<open>format_loop\<close> is the \<^verbatim>\<open>for\<close> loop, one equation for the exhausted list (the final
    \<^verbatim>\<open>return\<close> with \<^verbatim>\<open>PB\<close>) and one for a loop iteration; \<open>format_bytes\<close> starts it on the
    five labels of the source. The variable holds the integer argument until the
    first division and a float afterwards: \<^verbatim>\<open>/=\<close> is \<open>truediv\<close>, which rounds the quotient
    to a float, and \<^verbatim>\<open>.1f\<close> is \<open>format_f1\<close>, which converts an integer to a float.
  \<^item> \<open>unit_label\<close>, \<open>unit_of\<close>, \<open>mantissa\<close> and \<open>format_spec\<close> are the specification: the
    unit is chosen by the thresholds \<open>1024 ^ k\<close> and the printed number is the float
    nearest to the input divided by the unit's size. \<open>unit_label\<close> is a linear order,
    smallest unit first.
  \<^item> The lemmas show that the loop computes the specification for every integer (the
    repeated rounded divisions amount to one rounding), that the unit grows with the
    input, the bounds of the printed number, that it is exact up to \<open>2\<^sup>5\<^sup>3\<close> bytes, that
    the unit can be read back from the text, and the values at the inputs the
    specification lists.
\<close>

section \<open>The loop\<close>

definition units :: "string list" where
  "units = [''B'', ''KB'', ''MB'', ''GB'', ''TB'']"

fun format_loop :: "string list \<Rightarrow> pyfloat \<Rightarrow> string" where
  "format_loop [] bytes_value = format_f1 bytes_value @ '' PB''"
| "format_loop (unit # rest) bytes_value =
     (if bytes_value < 1024 then format_f1 bytes_value @ '' '' @ unit
      else format_loop rest (truediv bytes_value 1024))"

definition format_bytes :: "int \<Rightarrow> string" where
  "format_bytes bytes_value = format_loop units (of_int bytes_value)"

section \<open>The specification\<close>

datatype unit_label = B | KB | MB | GB | TB | PB

fun rank :: "unit_label \<Rightarrow> nat" where
  "rank B = 0"
| "rank KB = 1"
| "rank MB = 2"
| "rank GB = 3"
| "rank TB = 4"
| "rank PB = 5"

fun unit_name :: "unit_label \<Rightarrow> string" where
  "unit_name B = ''B''"
| "unit_name KB = ''KB''"
| "unit_name MB = ''MB''"
| "unit_name GB = ''GB''"
| "unit_name TB = ''TB''"
| "unit_name PB = ''PB''"

instantiation unit_label :: linorder
begin

definition less_eq_unit_label :: "unit_label \<Rightarrow> unit_label \<Rightarrow> bool" where
  "less_eq_unit_label u v \<longleftrightarrow> rank u \<le> rank v"

definition less_unit_label :: "unit_label \<Rightarrow> unit_label \<Rightarrow> bool" where
  "less_unit_label u v \<longleftrightarrow> rank u < rank v"

instance
proof
  fix u v :: unit_label
  assume "u \<le> v" and "v \<le> u"
  then have "rank u = rank v" by (simp add: less_eq_unit_label_def)
  then show "u = v" by (cases u; cases v) simp_all
qed (auto simp: less_eq_unit_label_def less_unit_label_def)

end

definition unit_of :: "int \<Rightarrow> unit_label" where
  "unit_of n =
     (if n < 1024 then B
      else if n < 1024 ^ 2 then KB
      else if n < 1024 ^ 3 then MB
      else if n < 1024 ^ 4 then GB
      else if n < 1024 ^ 5 then TB
      else PB)"

definition mantissa :: "int \<Rightarrow> pyfloat" where
  "mantissa n = round_double (of_int n / 1024 ^ rank (unit_of n))"

definition format_spec :: "int \<Rightarrow> string" where
  "format_spec n = fmt_f1 (mantissa n) @ '' '' @ unit_name (unit_of n)"

definition unit_text :: "string \<Rightarrow> string" where
  "unit_text s = tl (dropWhile (\<lambda>c. c \<noteq> CHR '' '') s)"

lemmas [py_eval] = format_bytes_def units_def

section \<open>The thresholds\<close>

lemma round_double_div_1024_power: "round_double (x / 1024 ^ k) = round_double x / 1024 ^ k"
  by (induction k arbitrary: x) (simp_all flip: divide_divide_eq_left)

lemma scaled_less_iff:
  assumes "k \<le> 4"
  shows "round_double (of_int n) / 1024 ^ k < 1024 \<longleftrightarrow> n < 1024 ^ Suc k"
proof -
  have "(1024 :: int) ^ Suc k \<le> 1024 ^ 5"
    using assms by (intro power_increasing) simp_all
  also have "(1024 :: int) ^ 5 \<le> 2 ^ 53" by simp
  finally have le: "(1024 :: int) ^ Suc k \<le> 2 ^ 53" .
  have "(0 :: int) < 1024 ^ Suc k" by (rule zero_less_power) simp
  then have gt: "- (2 ^ 53) < (1024 :: int) ^ Suc k" by (rule less_trans [rotated]) simp
  have "round_double (of_int n) / 1024 ^ k < 1024 \<longleftrightarrow>
      round_double (of_int n) < of_int (1024 ^ Suc k)"
    by (simp add: pos_divide_less_eq)
  then show ?thesis by (simp only: round_double_less_int_iff [OF gt le])
qed

lemma unit_of_cases:
  obtains (B) "n < 1024" "unit_of n = B"
  | (KB) "1024 \<le> n" "n < 1024 ^ 2" "unit_of n = KB"
  | (MB) "1024 ^ 2 \<le> n" "n < 1024 ^ 3" "unit_of n = MB"
  | (GB) "1024 ^ 3 \<le> n" "n < 1024 ^ 4" "unit_of n = GB"
  | (TB) "1024 ^ 4 \<le> n" "n < 1024 ^ 5" "unit_of n = TB"
  | (PB) "1024 ^ 5 \<le> n" "unit_of n = PB"
  unfolding unit_of_def by (cases "n < 1024"; cases "n < 1024 ^ 2"; cases "n < 1024 ^ 3";
    cases "n < 1024 ^ 4"; cases "n < 1024 ^ 5") simp_all

lemma rank_unit_of_le: "rank (unit_of n) \<le> 5"
  by (cases n rule: unit_of_cases) simp_all

lemma mantissa_scaled: "mantissa n = round_double (of_int n) / 1024 ^ rank (unit_of n)"
  by (simp add: mantissa_def round_double_div_1024_power)

lemma mantissa_exact: "\<bar>n\<bar> \<le> 2 ^ 53 \<Longrightarrow> mantissa n = of_int n / 1024 ^ rank (unit_of n)"
  by (simp add: mantissa_scaled round_double_of_int)

lemma is_double_mantissa [simp]: "is_double (mantissa n)"
  by (simp add: mantissa_def)

lemma mantissa_nonneg: "0 \<le> n \<Longrightarrow> 0 \<le> mantissa n"
  by (simp add: mantissa_def round_double_nonneg)

lemma unit_of_less:
  "unit_of n \<noteq> PB \<Longrightarrow> rank (unit_of n) \<le> 4 \<and> n < 1024 ^ Suc (rank (unit_of n))"
  by (cases n rule: unit_of_cases) simp_all

lemma mantissa_less: "unit_of n \<noteq> PB \<Longrightarrow> mantissa n < 1024"
  using unit_of_less [of n] scaled_less_iff [of "rank (unit_of n)" n]
  by (simp add: mantissa_scaled)

lemma mantissa_less_PB:
  assumes "0 \<le> n" and "n \<le> 2 ^ 53"
  shows "mantissa n < 1024"
proof (cases "unit_of n = PB")
  case True
  from assms have "(of_int n :: rat) \<le> of_int (2 ^ 53)" by (simp only: of_int_le_iff)
  then have "(of_int n :: rat) / 1024 ^ 5 \<le> 2 ^ 53 / 1024 ^ 5"
    by (simp add: divide_right_mono)
  with assms True show ?thesis by (simp add: mantissa_exact)
qed (rule mantissa_less)

lemma mantissa_ge_1:
  assumes "unit_of n \<noteq> B"
  shows "1 \<le> mantissa n"
proof -
  define k where "k = rank (unit_of n)"
  from assms have k: "k \<le> 5" "1024 ^ k \<le> n"
    unfolding k_def by (cases n rule: unit_of_cases; simp)+
  have "(1024 :: int) ^ k \<le> 1024 ^ 5"
    using k(1) by (intro power_increasing) simp_all
  then have "\<bar>(1024 :: int) ^ k\<bar> \<le> 2 ^ 53" by simp
  moreover from k(2) have "(of_int (1024 ^ k) :: rat) \<le> of_int n"
    by (simp only: of_int_le_iff)
  ultimately have "(of_int (1024 ^ k) :: rat) \<le> round_double (of_int n)"
    by (rule round_double_ge_int)
  then show ?thesis
    by (simp add: mantissa_scaled pos_le_divide_eq flip: k_def)
qed

lemma mantissa_le_1024:
  assumes "n < 1024 ^ 6"
  shows "mantissa n \<le> 1024"
proof (cases "unit_of n = PB")
  case True
  from assms have "(of_int n :: rat) \<le> of_int (2 ^ 60)" by (simp only: of_int_le_iff) simp
  then have "round_double (of_int n) \<le> round_double (2 ^ 60)"
    by (intro round_double_mono) simp
  then have "round_double (of_int n) \<le> 2 ^ 60"
    by (simp only: round_double_power2)
  with True show ?thesis by (simp add: mantissa_scaled pos_divide_le_eq)
next
  case False
  then show ?thesis using mantissa_less [of n] by simp
qed

lemma mantissa_error:
  assumes "0 \<le> n"
  shows "\<bar>mantissa n * 1024 ^ rank (unit_of n) - of_int n\<bar> \<le> of_int n / 2 ^ 53"
  using round_double_relative [of "of_int n"] assms by (simp add: mantissa_scaled)

lemma mantissa_scale: "\<bar>n\<bar> \<le> 2 ^ 53 \<Longrightarrow> of_int n = mantissa n * 1024 ^ rank (unit_of n)"
  by (simp add: mantissa_exact)

lemma unit_of_mono: "m \<le> n \<Longrightarrow> unit_of m \<le> unit_of n"
  by (cases m rule: unit_of_cases; cases n rule: unit_of_cases)
    (simp_all add: less_eq_unit_label_def)

lemma format_loop_spec: "format_loop units (of_int n) = format_spec n"
  by (cases n rule: unit_of_cases)
    (simp_all add: units_def format_spec_def mantissa_scaled format_f1_def truediv_1024
      round_double_div_numeral is_pow2_def bit_length.simps)

lemma unit_text_fmt: "unit_text (fmt_f1 x @ CHR '' '' # u) = u"
proof -
  have "dropWhile (\<lambda>c. c \<noteq> CHR '' '') (fmt_f1 x @ CHR '' '' # u) = CHR '' '' # u"
    using fmt_f1_no_space [of x] by (subst dropWhile_append2) auto
  then show ?thesis by (simp add: unit_text_def)
qed

lemma unit_text_format_spec: "unit_text (format_spec n) = unit_name (unit_of n)"
  using unit_text_fmt [of "mantissa n" "unit_name (unit_of n)"]
  by (simp add: format_spec_def)

lemma length_format_spec: "5 \<le> length (format_spec n)"
  using length_fmt_f1_ge [of "mantissa n"]
  by (cases "unit_of n") (simp_all add: format_spec_def)

lemma format_bytes_neq_0B: "format_bytes n \<noteq> ''0 B''"
  using length_format_spec [of n] by (auto simp: format_bytes_def format_loop_spec)

section \<open>Properties of \<open>format_bytes\<close>\<close>

text \<open>
  C8 (refinement). For every integer, the loop of \<^verbatim>\<open>format_bytes\<close> prints what the
  specification says: the input divided by \<open>1024 ^ k\<close>, with one decimal, and the
  \<open>k\<close>-th unit label, where \<open>k\<close> is the number of thresholds \<open>1024, 1024\<^sup>2, \<dots>,
  1024\<^sup>5\<close> the input has reached.
\<close>

theorem format_bytes_refines_spec: "format_bytes n = format_spec n"
  by (simp add: format_bytes_def format_loop_spec)

text \<open>
  C15 (functional). \<^verbatim>\<open>format_bytes\<close> is monotonic in the unit: a larger input is never
  printed with a smaller unit label.
\<close>

theorem format_bytes_unit_monotone:
  assumes "m \<le> n"
  shows "\<exists>u v. unit_text (format_bytes m) = unit_name u \<and>
     unit_text (format_bytes n) = unit_name v \<and> u \<le> v"
  using unit_of_mono [OF assms]
  by (auto simp: format_bytes_def format_loop_spec unit_text_format_spec)

theorem format_bytes_unit_monotone_witness:
  "\<exists>u v. unit_text (format_bytes 1536) = unit_name u \<and>
     unit_text (format_bytes 1073741824) = unit_name v \<and> u \<le> v"
proof -
  have "(1536::int) \<le> 1073741824" by simp
  then show ?thesis by (rule format_bytes_unit_monotone)
qed

text \<open>
  C16 (bounds). For a byte count from 0 to below \<open>1024\<^sup>6\<close>, \<^verbatim>\<open>format_bytes\<close> prints a number
  \<open>x\<close> with \<open>0 \<le> x \<le> 1024\<close> and a unit such that \<open>x\<close> times the unit's size is the input up
  to the rounding of the input to a float, a relative error of at most \<open>2\<^sup>-\<^sup>5\<^sup>3\<close>. Up to
  \<open>2\<^sup>5\<^sup>3\<close> bytes (eight pebibytes) the divisions are exact: \<open>x\<close> times the unit's size is
  exactly the input, and \<open>x < 1024\<close>.
\<close>

theorem format_bytes_value:
  assumes "0 \<le> n" and "n < 1024 ^ 6"
  shows "\<exists>x u. format_bytes n = fmt_f1 x @ '' '' @ unit_name u \<and> 0 \<le> x \<and> x \<le> 1024 \<and>
     \<bar>x * 1024 ^ rank u - of_int n\<bar> \<le> of_int n / 2 ^ 53 \<and>
     (n \<le> 2 ^ 53 \<longrightarrow> of_int n = x * 1024 ^ rank u \<and> x < 1024)"
proof -
  have "n \<le> 2 ^ 53 \<longrightarrow>
      of_int n = mantissa n * 1024 ^ rank (unit_of n) \<and> mantissa n < 1024"
    using assms(1) mantissa_less_PB [of n] mantissa_scale [of n] by simp
  with mantissa_nonneg [OF assms(1)] mantissa_le_1024 [OF assms(2)] mantissa_error [OF assms(1)]
  show ?thesis
    unfolding format_bytes_def format_loop_spec format_spec_def by blast
qed

theorem format_bytes_value_witness:
  "\<exists>x u. format_bytes 1536 = fmt_f1 x @ '' '' @ unit_name u \<and> 0 \<le> x \<and> x \<le> 1024 \<and>
     \<bar>x * 1024 ^ rank u - of_int 1536\<bar> \<le> of_int 1536 / 2 ^ 53 \<and>
     ((1536 :: int) \<le> 2 ^ 53 \<longrightarrow> of_int 1536 = x * 1024 ^ rank u \<and> x < 1024)"
proof -
  have "(0::int) \<le> 1536" and "(1536::int) < 1024 ^ 6" by simp_all
  then show ?thesis by (rule format_bytes_value)
qed

text \<open>
  The values the specification lists: \<^verbatim>\<open>format_bytes(0)\<close> is
  \<^verbatim>\<open>0.0 B\<close>, \<^verbatim>\<open>format_bytes(1536)\<close> is \<^verbatim>\<open>1.5 KB\<close>, \<^verbatim>\<open>format_bytes(1073741824)\<close> is
  \<^verbatim>\<open>1.0 GB\<close>.
\<close>

lemma format_bytes_examples:
  "format_bytes 0 = ''0.0 B'' \<and> format_bytes 1536 = ''1.5 KB'' \<and>
   format_bytes 1073741824 = ''1.0 GB''"
  by (simp add: py_eval)

text \<open>
  The unit label can be read back from the text \<^verbatim>\<open>format_bytes\<close>
  prints: what follows the first space is the label of the unit the thresholds
  select.
\<close>

lemma unit_text_format_bytes: "unit_text (format_bytes n) = unit_name (unit_of n)"
  by (simp add: format_bytes_def format_loop_spec unit_text_format_spec)

text \<open>
  The comparison with 1024 is made before rounding, so the printed number can be
  \<^verbatim>\<open>1024.0\<close>: one byte below a mebibyte prints as \<^verbatim>\<open>1024.0 KB\<close>, and \<open>1024\<^sup>6\<close> bytes, beyond
  the last unit, as \<^verbatim>\<open>1024.0 PB\<close>. Ties round to the even tenth: 1280 bytes are \<^verbatim>\<open>1.2 KB\<close>.
\<close>

lemma format_bytes_rounding:
  "format_bytes 1048575 = ''1024.0 KB'' \<and> format_bytes (1024 ^ 6) = ''1024.0 PB'' \<and>
   format_bytes 1280 = ''1.2 KB''"
  by (simp add: py_eval)

text \<open>
  C39 (bounds). \<^verbatim>\<open>format_bytes\<close> chooses the largest unit that does not exceed the input:
  for every integer, the number \<open>x\<close> it prints times the unit's size is the input as a
  float, \<open>x\<close> is at least 1 unless the unit is \<^verbatim>\<open>B\<close>, and below 1024 unless the unit is
  \<^verbatim>\<open>PB\<close>. A loop that stops too early or too late prints a number outside these
  bounds.
\<close>

theorem format_bytes_smallest_unit:
  "\<exists>x u. format_bytes n = fmt_f1 x @ '' '' @ unit_name u \<and>
     x * 1024 ^ rank u = round_double (of_int n) \<and>
     (u = B \<or> 1 \<le> x) \<and> (u = PB \<or> x < 1024)"
proof -
  have "unit_of n = B \<or> 1 \<le> mantissa n" using mantissa_ge_1 [of n] by blast
  moreover have "unit_of n = PB \<or> mantissa n < 1024" using mantissa_less [of n] by blast
  moreover have "mantissa n * 1024 ^ rank (unit_of n) = round_double (of_int n)"
    by (simp add: mantissa_scaled)
  ultimately show ?thesis
    unfolding format_bytes_def format_loop_spec format_spec_def by blast
qed

theorem format_bytes_smallest_unit_witness:
  "\<exists>x u. format_bytes 5 = fmt_f1 x @ '' '' @ unit_name u \<and>
     x * 1024 ^ rank u = round_double (of_int 5) \<and>
     (u = B \<or> 1 \<le> x) \<and> (u = PB \<or> x < 1024)"
  by (rule format_bytes_smallest_unit)

end
