(* ===== verification/Resource_Probe.thy ===== *)
theory Resource_Probe
  imports Byte_Formatter Py_Values
begin

text \<open>
  \<^verbatim>\<open>SystemMonitor.get_disk_info\<close> (\<^verbatim>\<open>src/tools/system_monitor.py\<close>, lines 115-155) and
  \<^verbatim>\<open>SystemMonitor.get_memory_info\<close> (lines 84-111), with the guard of the swap line in
  \<^verbatim>\<open>display_memory_info\<close> (line 258).

  What the host answers is an input. \<open>disk_host\<close> holds \<^verbatim>\<open>HAS_PSUTIL\<close>, the result of
  \<^verbatim>\<open>psutil.disk_partitions()\<close> with, for each partition, the result of
  \<^verbatim>\<open>psutil.disk_usage\<close> on its mount point, the value of \<^verbatim>\<open>platform.system()\<close>, and the
  results of \<^verbatim>\<open>os.path.abspath('.')\<close> and \<^verbatim>\<open>shutil.disk_usage\<close>; \<open>memory_host\<close> holds
  \<^verbatim>\<open>HAS_PSUTIL\<close> and the results of \<^verbatim>\<open>psutil.virtual_memory()\<close> and
  \<^verbatim>\<open>psutil.swap_memory()\<close>. Each result is a value or the exception raised. Every
  \<^verbatim>\<open>except:\<close> of the two methods is bare, so neither lets any exception out and both
  are total functions here.

  \<^item> The memory dictionary is a \<open>pydict\<close> of theory \<open>Py_Values\<close>; the disk entries,
    whose values have fixed types, are records with the keys as field names.
  \<^item> \<open>percent_of\<close> is the expression \<^verbatim>\<open>(used / total) * 100\<close> in float arithmetic (the
    quotient of the two integers rounded, then the product), \<open>disk_entry\<close> the dictionary
    literal, \<open>scan_partitions\<close> the loop over the partitions with its \<^verbatim>\<open>except:
    continue\<close>, \<open>fallback_disk\<close> the block after \<^verbatim>\<open>if not disk_info\<close>, \<open>get_disk_info\<close> and
    \<open>get_memory_info\<close> the methods, \<open>shows_swap\<close> the guard of the swap line.
\<close>

section \<open>Disks\<close>

record partition =
  part_device :: string
  part_mountpoint :: string

record usage =
  usage_total :: int
  usage_used :: int
  usage_free :: int

record disk_entry =
  device :: string
  mountpoint :: string
  total :: string
  used :: string
  free :: string
  percent :: pyfloat

record disk_host =
  disk_has_psutil :: bool
  disk_partitions :: "(partition \<times> usage raises) list raises"
  system :: string
  abspath :: "string raises"
  shutil_usage :: "usage raises"

definition percent_of :: "int \<Rightarrow> int \<Rightarrow> pyfloat raises" where
  "percent_of u t =
     (if t = 0 then Inl ZeroDivisionError
      else Inr (float_mul (truediv (of_int u) (of_int t)) (py_float 100)))"

definition disk_entry :: "string \<Rightarrow> string \<Rightarrow> usage \<Rightarrow> disk_entry raises" where
  "disk_entry dev mnt u =
     (case percent_of (usage_used u) (usage_total u) of
        Inl e \<Rightarrow> Inl e
      | Inr pc \<Rightarrow>
          Inr \<lparr>device = dev, mountpoint = mnt,
            total = format_bytes (usage_total u),
            used = format_bytes (usage_used u),
            free = format_bytes (usage_free u),
            percent = pc\<rparr>)"

fun scan_partitions ::
  "(partition \<times> usage raises) list \<Rightarrow> disk_entry list \<Rightarrow> disk_entry list" where
  "scan_partitions [] disk_info = disk_info"
| "scan_partitions ((part, Inl e) # rest) disk_info = scan_partitions rest disk_info"
| "scan_partitions ((part, Inr u) # rest) disk_info =
     (case disk_entry (part_device part) (part_mountpoint part) u of
        Inl e \<Rightarrow> scan_partitions rest disk_info
      | Inr d \<Rightarrow> scan_partitions rest (disk_info @ [d]))"

definition psutil_disks :: "disk_host \<Rightarrow> disk_entry list" where
  "psutil_disks h =
     (if disk_has_psutil h then
        (case disk_partitions h of
           Inl e \<Rightarrow> []
         | Inr partitions \<Rightarrow> scan_partitions partitions [])
      else [])"

definition fallback_disk :: "disk_host \<Rightarrow> disk_entry list" where
  "fallback_disk h =
     (case abspath h of
        Inl e \<Rightarrow> []
      | Inr current \<Rightarrow>
          if system h = ''Windows'' then
            (case shutil_usage h of
               Inl e \<Rightarrow> []
             | Inr u \<Rightarrow>
                 (case disk_entry ''C:'' current u of
                    Inl e \<Rightarrow> []
                  | Inr d \<Rightarrow> [d]))
          else [])"

definition get_disk_info :: "disk_host \<Rightarrow> disk_entry list" where
  "get_disk_info h =
     (let disk_info = psutil_disks h
      in if disk_info = [] then fallback_disk h else disk_info)"

definition usable :: "partition \<times> usage raises \<Rightarrow> bool" where
  "usable pr = (case snd pr of Inl e \<Rightarrow> False | Inr u \<Rightarrow> usage_total u \<noteq> 0)"

definition mount_entry :: "partition \<times> usage raises \<Rightarrow> disk_entry option" where
  "mount_entry pr =
     (case snd pr of
        Inl e \<Rightarrow> None
      | Inr u \<Rightarrow>
          (case disk_entry (part_device (fst pr)) (part_mountpoint (fst pr)) u of
             Inl e \<Rightarrow> None
           | Inr d \<Rightarrow> Some d))"

definition sane :: "usage \<Rightarrow> bool" where
  "sane u \<longleftrightarrow> 0 \<le> usage_used u \<and> usage_used u \<le> usage_total u"

definition reported_usages :: "disk_host \<Rightarrow> usage list" where
  "reported_usages h =
     observations [shutil_usage h] @
     (case disk_partitions h of Inl e \<Rightarrow> [] | Inr parts \<Rightarrow> observations (map snd parts))"

section \<open>Memory\<close>

record svmem =
  vm_total :: int
  vm_available :: int
  vm_used :: int
  vm_percent :: pyfloat

record sswap =
  sw_total :: int
  sw_used :: int
  sw_percent :: pyfloat

record memory_host =
  mem_has_psutil :: bool
  virtual_memory :: "svmem raises"
  swap_memory :: "sswap raises"

definition memory_keys :: "string list" where
  "memory_keys =
     [''total'', ''available'', ''used'', ''percent'', ''swap_total'', ''swap_used'',
      ''swap_percent'']"

definition unknown_memory :: pydict where
  "unknown_memory = map (\<lambda>k. (k, Str ''Unknown'')) memory_keys"

definition memory_dict :: "svmem \<Rightarrow> sswap \<Rightarrow> pydict" where
  "memory_dict memory swap =
     [(''total'', Str (format_bytes (vm_total memory))),
      (''available'', Str (format_bytes (vm_available memory))),
      (''used'', Str (format_bytes (vm_used memory))),
      (''percent'', Float (vm_percent memory)),
      (''swap_total'', Str (format_bytes (sw_total swap))),
      (''swap_used'', Str (format_bytes (sw_used swap))),
      (''swap_percent'', Float (sw_percent swap))]"

definition get_memory_info :: "memory_host \<Rightarrow> pydict" where
  "get_memory_info h =
     (if mem_has_psutil h then
        (case virtual_memory h of
           Inl e \<Rightarrow> unknown_memory
         | Inr memory \<Rightarrow>
             (case swap_memory h of
                Inl e \<Rightarrow> unknown_memory
              | Inr swap \<Rightarrow> memory_dict memory swap))
      else unknown_memory)"

definition shows_swap :: "pydict \<Rightarrow> bool raises" where
  "shows_swap memory_info =
     (case getitem memory_info ''swap_total'' of
        Inl e \<Rightarrow> Inl e
      | Inr v \<Rightarrow> Inr (v \<noteq> Str ''0 B''))"

section \<open>Example hosts\<close>

definition root_part :: partition where
  "root_part = \<lparr>part_device = ''/dev/sda1'', part_mountpoint = ''/''\<rparr>"

definition home_part :: partition where
  "home_part = \<lparr>part_device = ''/dev/sda2'', part_mountpoint = ''/home''\<rparr>"

definition cdrom_part :: partition where
  "cdrom_part = \<lparr>part_device = ''/dev/sr0'', part_mountpoint = ''/media/cdrom''\<rparr>"

definition proc_part :: partition where
  "proc_part = \<lparr>part_device = ''proc'', part_mountpoint = ''/proc''\<rparr>"

definition half_full :: usage where
  "half_full = \<lparr>usage_total = 2048, usage_used = 1024, usage_free = 1024\<rparr>"

definition no_space :: usage where
  "no_space = \<lparr>usage_total = 0, usage_used = 0, usage_free = 0\<rparr>"

definition three_mounts :: disk_host where
  "three_mounts =
     \<lparr>disk_has_psutil = True,
      disk_partitions =
        Inr [(root_part, Inr half_full), (cdrom_part, Inl OSError), (home_part, Inr half_full)],
      system = ''Linux'', abspath = Inr ''/root'', shutil_usage = Inr half_full\<rparr>"

definition bare_linux :: disk_host where
  "bare_linux =
     \<lparr>disk_has_psutil = False, disk_partitions = Inr [],
      system = ''Linux'', abspath = Inr ''/root'', shutil_usage = Inr half_full\<rparr>"

definition root_entry :: disk_entry where
  "root_entry =
     \<lparr>device = ''/dev/sda1'', mountpoint = ''/'', total = ''2.0 KB'', used = ''1.0 KB'',
      free = ''1.0 KB'', percent = 50\<rparr>"

definition home_entry :: disk_entry where
  "home_entry =
     \<lparr>device = ''/dev/sda2'', mountpoint = ''/home'', total = ''2.0 KB'', used = ''1.0 KB'',
      free = ''1.0 KB'', percent = 50\<rparr>"

definition swap_fails :: memory_host where
  "swap_fails =
     \<lparr>mem_has_psutil = True,
      virtual_memory = Inr \<lparr>vm_total = 8589934592, vm_available = 4294967296,
        vm_used = 4294967296, vm_percent = 50\<rparr>,
      swap_memory = Inl OSError\<rparr>"

definition no_swap_host :: memory_host where
  "no_swap_host =
     \<lparr>mem_has_psutil = True,
      virtual_memory = Inr \<lparr>vm_total = 8589934592, vm_available = 4294967296,
        vm_used = 4294967296, vm_percent = 50\<rparr>,
      swap_memory = Inr \<lparr>sw_total = 0, sw_used = 0, sw_percent = 0\<rparr>\<rparr>"

lemmas [py_eval] =
  percent_of_def disk_entry_def psutil_disks_def fallback_disk_def
  get_disk_info_def usable_def memory_keys_def unknown_memory_def memory_dict_def
  get_memory_info_def shows_swap_def sane_def reported_usages_def

lemmas probe_examples =
  root_part_def home_part_def cdrom_part_def proc_part_def half_full_def no_space_def
  three_mounts_def bare_linux_def no_swap_host_def root_entry_def home_entry_def
  swap_fails_def

section \<open>One disk entry\<close>

lemma disk_entry_eq:
  "disk_entry dev mnt u =
     (if usage_total u = 0 then Inl ZeroDivisionError
      else Inr \<lparr>device = dev, mountpoint = mnt, total = format_bytes (usage_total u),
        used = format_bytes (usage_used u), free = format_bytes (usage_free u),
        percent = float_mul (truediv (of_int (usage_used u)) (of_int (usage_total u))) 100\<rparr>)"
  by (simp add: disk_entry_def percent_of_def)

lemma disk_entry_InrD:
  assumes "disk_entry dev mnt u = Inr d"
  shows "device d = dev" and "mountpoint d = mnt" and "usage_total u \<noteq> 0"
    and "percent d = float_mul (truediv (of_int (usage_used u)) (of_int (usage_total u))) 100"
  using assms by (auto simp: disk_entry_eq split: if_splits)

lemma percent_bounds:
  assumes "disk_entry dev mnt u = Inr d" and "sane u"
  shows "0 \<le> percent d \<and> percent d \<le> 100"
proof -
  define q where "q = truediv (of_int (usage_used u)) (of_int (usage_total u))"
  from assms(1) have t: "usage_total u \<noteq> 0" and p: "percent d = float_mul q 100"
    unfolding q_def by (rule disk_entry_InrD)+
  from assms(2) t have "0 < usage_total u" by (simp add: sane_def)
  with assms(2) have "of_int 0 \<le> (of_int (usage_used u) / of_int (usage_total u) :: rat)"
    and "(of_int (usage_used u) / of_int (usage_total u) :: rat) \<le> of_int 1"
    by (simp_all add: sane_def divide_le_eq)
  then have "of_int 0 \<le> q \<and> q \<le> of_int 1"
    unfolding q_def truediv_def by (rule round_double_between) simp_all
  then have "of_int 0 \<le> q * 100" and "q * 100 \<le> of_int 100" by simp_all
  then have "of_int 0 \<le> float_mul q 100 \<and> float_mul q 100 \<le> of_int 100"
    unfolding float_mul_def by (rule round_double_between) simp_all
  then show ?thesis by (simp add: p)
qed

lemma mount_entry_Some_iff: "(\<exists>d. mount_entry pr = Some d) \<longleftrightarrow> usable pr"
  by (auto simp: mount_entry_def usable_def disk_entry_eq split: sum.splits)

lemma mount_entry_mountpoint:
  "mount_entry pr = Some d \<Longrightarrow> mountpoint d = part_mountpoint (fst pr) \<and>
     device d = part_device (fst pr)"
  by (auto simp: mount_entry_def disk_entry_eq split: sum.splits if_splits)

section \<open>The scan of the partitions\<close>

lemma set_map_filter: "set (List.map_filter f xs) = {y. \<exists>x \<in> set xs. f x = Some y}"
  by (induction xs) (auto simp: List.map_filter_simps split: option.splits)

lemma scan_partitions_eq:
  "scan_partitions parts acc = acc @ List.map_filter mount_entry parts"
  by (induction parts acc rule: scan_partitions.induct)
    (simp_all add: mount_entry_def List.map_filter_simps split: sum.splits)

lemma map_mountpoint_scan:
  "map mountpoint (List.map_filter mount_entry parts) =
     map (\<lambda>pr. part_mountpoint (fst pr)) (filter usable parts)"
proof (induction parts)
  case Nil
  then show ?case by (simp add: List.map_filter_simps)
next
  case (Cons pr parts)
  show ?case
  proof (cases "mount_entry pr")
    case None
    with mount_entry_Some_iff [of pr] Cons show ?thesis
      by (simp add: List.map_filter_simps)
  next
    case (Some d)
    with mount_entry_Some_iff [of pr] mount_entry_mountpoint [OF Some] Cons show ?thesis
      by (auto simp: List.map_filter_simps)
  qed
qed

lemma psutil_disks_eq:
  "disk_has_psutil h \<Longrightarrow> disk_partitions h = Inr parts \<Longrightarrow>
     psutil_disks h = List.map_filter mount_entry parts"
  by (simp add: psutil_disks_def scan_partitions_eq)

lemma psutil_disks_cases:
  obtains (none) "psutil_disks h = []"
  | (scan) parts where "disk_has_psutil h" "disk_partitions h = Inr parts"
  by (cases "disk_has_psutil h"; cases "disk_partitions h") (auto simp: psutil_disks_def)

lemma fallback_disk_cases:
  obtains (none) "fallback_disk h = []"
  | (one) current u d where "shutil_usage h = Inr u" "disk_entry ''C:'' current u = Inr d"
      "fallback_disk h = [d]"
proof (cases "abspath h")
  case (Inl e)
  then show ?thesis by (intro none) (simp add: fallback_disk_def)
next
  case current: (Inr current)
  show ?thesis
  proof (cases "shutil_usage h")
    case (Inl e)
    with current show ?thesis by (intro none) (simp add: fallback_disk_def)
  next
    case u: (Inr u)
    show ?thesis
    proof (cases "disk_entry ''C:'' current u")
      case (Inl e)
      with current u show ?thesis by (intro none) (simp add: fallback_disk_def)
    next
      case (Inr d)
      show ?thesis
      proof (cases "system h = ''Windows''")
        case True
        with current u Inr show ?thesis
          by (intro one [of u current d]) (simp_all add: fallback_disk_def)
      next
        case False
        with current show ?thesis by (intro none) (simp add: fallback_disk_def)
      qed
    qed
  qed
qed

lemma fallback_disk_memD:
  assumes "d \<in> set (fallback_disk h)"
  shows "\<exists>dev mnt u. u \<in> set (reported_usages h) \<and> disk_entry dev mnt u = Inr d"
proof (cases h rule: fallback_disk_cases)
  case none
  with assms show ?thesis by simp
next
  case (one current u d')
  with assms have "u \<in> set (reported_usages h)" and "disk_entry ''C:'' current u = Inr d"
    by (simp_all add: reported_usages_def)
  then show ?thesis by blast
qed

lemma psutil_disks_memD:
  assumes "d \<in> set (psutil_disks h)"
  shows "\<exists>dev mnt u. u \<in> set (reported_usages h) \<and> disk_entry dev mnt u = Inr d"
proof (cases h rule: psutil_disks_cases)
  case none
  with assms show ?thesis by simp
next
  case (scan parts)
  with assms obtain pr where pr: "pr \<in> set parts" and m: "mount_entry pr = Some d"
    by (auto simp: psutil_disks_eq set_map_filter)
  obtain u where u: "snd pr = Inr u"
    and d: "disk_entry (part_device (fst pr)) (part_mountpoint (fst pr)) u = Inr d"
    using m by (cases "snd pr") (auto simp: mount_entry_def split: sum.splits)
  from pr u have "Inr u \<in> set (map snd parts)" by force
  then have "u \<in> set (reported_usages h)"
    by (simp add: reported_usages_def scan set_observations)
  with d show ?thesis by blast
qed

lemma get_disk_info_memD:
  assumes "d \<in> set (get_disk_info h)"
  shows "\<exists>dev mnt u. u \<in> set (reported_usages h) \<and> disk_entry dev mnt u = Inr d"
  using assms fallback_disk_memD [of d h] psutil_disks_memD [of d h]
  by (auto simp: get_disk_info_def Let_def split: if_splits)

lemma disks_three_mounts: "get_disk_info three_mounts = [root_entry, home_entry]"
  by (simp add: probe_examples py_eval)

section \<open>The memory dictionary\<close>

lemma memory_cases:
  obtains (unknown) "get_memory_info h = unknown_memory"
  | (known) memory swap where "get_memory_info h = memory_dict memory swap"
      "virtual_memory h = Inr memory" "swap_memory h = Inr swap" "mem_has_psutil h"
  by (cases "mem_has_psutil h"; cases "virtual_memory h"; cases "swap_memory h")
    (auto simp: get_memory_info_def)

section \<open>Properties of \<open>get_disk_info\<close>\<close>

text \<open>
  C17 (safety). A mount whose usage query raises, or whose size is zero (the division
  raises), is left out and nothing else changes: when psutil lists the partitions
  and at least one is usable, \<^verbatim>\<open>get_disk_info\<close> returns one entry per usable partition,
  in the order of the listing.
\<close>

theorem disk_fault_isolation:
  assumes "disk_has_psutil h" and "disk_partitions h = Inr parts"
    and "filter usable parts \<noteq> []"
  shows "map mountpoint (get_disk_info h) =
     map (\<lambda>pr. part_mountpoint (fst pr)) (filter usable parts)"
proof -
  have m: "map mountpoint (psutil_disks h) =
      map (\<lambda>pr. part_mountpoint (fst pr)) (filter usable parts)"
    using assms(1,2) by (simp add: psutil_disks_eq map_mountpoint_scan)
  with assms(3) have "psutil_disks h \<noteq> []" by auto
  with m show ?thesis by (simp add: get_disk_info_def Let_def)
qed

theorem disk_fault_isolation_witness:
  "map mountpoint (get_disk_info three_mounts) = [''/'', ''/home'']"
proof -
  have "disk_has_psutil three_mounts"
    and "disk_partitions three_mounts =
      Inr [(root_part, Inr half_full), (cdrom_part, Inl OSError), (home_part, Inr half_full)]"
    and "filter usable
      [(root_part, Inr half_full), (cdrom_part, Inl OSError), (home_part, Inr half_full)] \<noteq> []"
    by (simp_all add: probe_examples py_eval)
  from disk_fault_isolation [OF this] show ?thesis
    by (simp add: probe_examples py_eval)
qed

text \<open>
  C18 (bounds). If every usage the host reports has \<open>0 \<le> used \<le> total\<close>, every entry
  of \<^verbatim>\<open>get_disk_info\<close> has a \<^verbatim>\<open>percent\<close> between 0 and 100.
\<close>

theorem disk_percent_bounds:
  assumes "\<forall>u \<in> set (reported_usages h). sane u" and "d \<in> set (get_disk_info h)"
  shows "0 \<le> percent d \<and> percent d \<le> 100"
proof -
  from get_disk_info_memD [OF assms(2)] obtain dev mnt u
    where "u \<in> set (reported_usages h)" and d: "disk_entry dev mnt u = Inr d"
    by blast
  with assms(1) have "sane u" by blast
  with d show ?thesis by (rule percent_bounds)
qed

theorem disk_percent_bounds_witness:
  "0 \<le> percent root_entry \<and> percent root_entry \<le> 100"
proof -
  have "\<forall>u \<in> set (reported_usages three_mounts). sane u"
    by (simp add: probe_examples py_eval)
  moreover have "root_entry \<in> set (get_disk_info three_mounts)"
    by (simp add: disks_three_mounts)
  ultimately show ?thesis by (rule disk_percent_bounds)
qed

text \<open>
  C19 (error). The fallback of \<^verbatim>\<open>get_disk_info\<close> adds an entry on Windows only: on any
  other system, when psutil yields no entry (it is missing, the listing raises, or no
  partition is usable), the result is the empty list.
\<close>

theorem disk_fallback_windows_only:
  assumes "system h \<noteq> ''Windows''" and "psutil_disks h = []"
  shows "get_disk_info h = []"
  using assms by (simp add: get_disk_info_def fallback_disk_def split: sum.splits)

theorem disk_fallback_windows_only_witness: "get_disk_info bare_linux = []"
proof -
  have "system bare_linux \<noteq> ''Windows''" and "psutil_disks bare_linux = []"
    by (simp_all add: probe_examples py_eval)
  then show ?thesis by (rule disk_fallback_windows_only)
qed

section \<open>Properties of \<open>get_memory_info\<close>\<close>

text \<open>
  C20 (invariant). The dictionary \<^verbatim>\<open>get_memory_info\<close> returns always has the same seven
  keys in the same order, whatever the host answers.
\<close>

theorem memory_keys_complete: "map fst (get_memory_info h) = memory_keys"
  by (cases h rule: memory_cases)
    (simp_all add: unknown_memory_def memory_dict_def memory_keys_def comp_def)

text \<open>
  C21 (functional). The guard of the swap line in \<^verbatim>\<open>display_memory_info\<close> compares
  \<^verbatim>\<open>swap_total\<close> with the text \<^verbatim>\<open>0 B\<close>, which \<^verbatim>\<open>format_bytes\<close> never produces (zero bytes
  are \<^verbatim>\<open>0.0 B\<close>): on every dictionary \<^verbatim>\<open>get_memory_info\<close> returns the guard is true, so
  the swap line is printed also on a host without swap.
\<close>

theorem swap_line_always_shown: "shows_swap (get_memory_info h) = Inr True"
  by (cases h rule: memory_cases)
    (simp_all add: shows_swap_def getitem_def unknown_memory_def memory_dict_def
      memory_keys_def format_bytes_neq_0B)

text \<open>
  C22 (error). The memory figures are all or nothing: if the swap query raises, every
  one of the seven values is \<^verbatim>\<open>Unknown\<close>, the figures of \<^verbatim>\<open>virtual_memory\<close> that were
  read successfully included.
\<close>

theorem memory_all_or_nothing:
  assumes "swap_memory h = Inl e" and "k \<in> set memory_keys"
  shows "getitem (get_memory_info h) k = Inr (Str ''Unknown'')"
proof -
  from assms(1) have "get_memory_info h = unknown_memory"
    by (simp add: get_memory_info_def split: sum.splits)
  with assms(2) show ?thesis
    by (auto simp: getitem_def unknown_memory_def memory_keys_def)
qed

theorem memory_all_or_nothing_witness:
  "getitem (get_memory_info swap_fails) ''total'' = Inr (Str ''Unknown'')"
proof -
  have "swap_memory swap_fails = Inl OSError" and "''total'' \<in> set memory_keys"
    by (simp_all add: probe_examples py_eval)
  then show ?thesis by (rule memory_all_or_nothing)
qed

end
