(* ===== verification/Section_Display.thy ===== *)
theory Section_Display
  imports Cpu_Probe Resource_Probe
begin

text \<open>
  The sections \<^verbatim>\<open>monitor_once\<close> prints before the process table
  (\<^verbatim>\<open>src/tools/system_monitor.py\<close>): \<^verbatim>\<open>get_system_info\<close> and \<^verbatim>\<open>display_header\<close> (lines
  224-242), \<^verbatim>\<open>display_cpu_info\<close> (lines 246-251), \<^verbatim>\<open>display_memory_info\<close> (lines 255-259)
  and \<^verbatim>\<open>display_disk_info\<close> (lines 263-267).

  Each method is the list of its \<^verbatim>\<open>print\<close> calls in order (\<open>in_order\<close>), each call the
  f-string it prints (\<open>fstr\<close>); a subscript of a missing key ends the method with
  \<^verbatim>\<open>KeyError\<close> before the line is printed. The characters outside ASCII are written as
  their UTF-8 bytes. \<open>platform_host\<close> holds the three strings the \<^verbatim>\<open>platform\<close> module
  returns.

  The lemmas show on which dictionaries the methods raise: \<open>display_cpu_info\<close> on every
  fallback dictionary of \<open>get_cpu_info\<close>, \<open>display_memory_info\<close> on no dictionary of
  \<open>get_memory_info\<close>.
\<close>

section \<open>Signs\<close>

definition desktop_sign :: string where
  "desktop_sign = [CHR 0xF0, CHR 0x9F, CHR 0x96, CHR 0xA5, CHR 0xEF, CHR 0xB8, CHR 0x8F]"

definition laptop_sign :: string where
  "laptop_sign = [CHR 0xF0, CHR 0x9F, CHR 0x92, CHR 0xBB]"

definition snake_sign :: string where
  "snake_sign = [CHR 0xF0, CHR 0x9F, CHR 0x90, CHR 0x8D]"

definition crane_sign :: string where
  "crane_sign = [CHR 0xF0, CHR 0x9F, CHR 0x8F, CHR 0x97, CHR 0xEF, CHR 0xB8, CHR 0x8F]"

definition thermometer_sign :: string where
  "thermometer_sign = [CHR 0xF0, CHR 0x9F, CHR 0x8C, CHR 0xA1, CHR 0xEF, CHR 0xB8, CHR 0x8F]"

definition bolt_sign :: string where
  "bolt_sign = [CHR 0xE2, CHR 0x9A, CHR 0xA1]"

definition brain_sign :: string where
  "brain_sign = [CHR 0xF0, CHR 0x9F, CHR 0xA7, CHR 0xA0]"

definition floppy_sign :: string where
  "floppy_sign = [CHR 0xF0, CHR 0x9F, CHR 0x92, CHR 0xBE]"

definition cycle_sign :: string where
  "cycle_sign = [CHR 0xF0, CHR 0x9F, CHR 0x94, CHR 0x84]"

section \<open>Header\<close>

record platform_host =
  platform_text :: string
  python_version :: string
  architecture :: string

definition get_system_info :: "platform_host \<Rightarrow> string \<Rightarrow> pydict" where
  "get_system_info p sys =
     [(''platform'', Str (platform_text p)), (''system'', Str sys),
      (''python_version'', Str (python_version p)),
      (''architecture'', Str (architecture p))]"

definition double_rule :: string where
  "double_rule = replicate 60 CHR ''=''"

definition display_header :: "platform_host \<Rightarrow> string \<Rightarrow> printed" where
  "display_header p sys =
     (let info = get_system_info p sys
      in in_order
        [say (Inr (newline # double_rule)),
         say (Inr (desktop_sign @ ''  SYSTEM RESOURCE MONITOR'')),
         say (Inr double_rule),
         say (fstr [Inr (laptop_sign @ '' Platform: ''), item info ''platform'']),
         say (fstr [Inr (snake_sign @ '' Python: ''), item info ''python_version'']),
         say (fstr [Inr (crane_sign @ ''  Architecture: ''), item info ''architecture'']),
         say (Inr double_rule)])"

section \<open>CPU, memory, disks\<close>

definition display_cpu_info :: "pydict \<Rightarrow> printed" where
  "display_cpu_info cpu_info =
     in_order
       [say (fstr [Inr (newline # laptop_sign @ '' CPU Usage: ''), item cpu_info ''usage'',
          Inr ''% ('', item cpu_info ''physical_cores'', Inr '' physical, '',
          item cpu_info ''logical_cores'', Inr '' logical cores)'']),
        if has_key cpu_info ''temperature''
        then say (fstr [Inr (thermometer_sign @ ''  Temperature: ''),
          item cpu_info ''temperature''])
        else silent,
        say (fstr [Inr (bolt_sign @ '' Frequency: ''), item cpu_info ''frequency''])]"

definition swap_line :: "pydict \<Rightarrow> string raises" where
  "swap_line memory_info =
     fstr [Inr (cycle_sign @ '' Swap: ''), item memory_info ''swap_used'', Inr '' / '',
       item memory_info ''swap_total'', Inr '' ('', item memory_info ''swap_percent'',
       Inr ''%)'']"

definition display_memory_info :: "pydict \<Rightarrow> printed" where
  "display_memory_info memory_info =
     in_order
       [say (fstr [Inr (newline # brain_sign @ '' Memory: ''), item memory_info ''used'',
          Inr '' / '', item memory_info ''total'', Inr '' ('', item memory_info ''percent'',
          Inr ''%)'']),
        say (fstr [Inr (floppy_sign @ '' Available: ''), item memory_info ''available'']),
        case shows_swap memory_info of
          Inl e \<Rightarrow> ([], Some e)
        | Inr shown \<Rightarrow> if shown then say (swap_line memory_info) else silent]"

definition disk_lines :: "disk_entry \<Rightarrow> string list" where
  "disk_lines disk =
     [''   '' @ device disk @ '' ('' @ mountpoint disk @ '')'',
      ''   '' @ used disk @ '' / '' @ total disk @ '' ('' @ fmt_f1 (percent disk) @ ''%)'']"

definition display_disk_info :: "disk_entry list \<Rightarrow> string list" where
  "display_disk_info disk_info =
     (newline # floppy_sign @ '' Disk Usage:'') # concat (map disk_lines disk_info)"

section \<open>Example hosts\<close>

definition this_platform :: platform_host where
  "this_platform =
     \<lparr>platform_text = ''Linux-6.1-x86_64'', python_version = ''3.10.4'',
      architecture = ''64bit''\<rparr>"

lemmas signs =
  desktop_sign_def laptop_sign_def snake_sign_def crane_sign_def thermometer_sign_def
  bolt_sign_def brain_sign_def floppy_sign_def cycle_sign_def

lemmas [py_eval] =
  get_system_info_def double_rule_def display_header_def display_cpu_info_def swap_line_def
  display_memory_info_def disk_lines_def display_disk_info_def

section \<open>Header and disks\<close>

lemma display_header_fine:
  "display_header p sys =
     ([newline # double_rule, desktop_sign @ ''  SYSTEM RESOURCE MONITOR'', double_rule,
       laptop_sign @ '' Platform: '' @ platform_text p,
       snake_sign @ '' Python: '' @ python_version p,
       crane_sign @ ''  Architecture: '' @ architecture p, double_rule], None)"
  by (simp add: display_header_def get_system_info_def item_def getitem_def silent_def)

lemma length_display_disk_info: "length (display_disk_info ds) = 1 + 2 * length ds"
  by (induction ds) (simp_all add: display_disk_info_def disk_lines_def)

section \<open>The CPU section\<close>

lemma item_core_info:
  "item (core_info c l p f) ''usage'' = Inr (str_float c)"
  "item (core_info c l p f) ''logical_cores'' = Inr (str_val (opt_int l))"
  "item (core_info c l p f) ''physical_cores'' = Inr (str_val (py_or (opt_int p) (opt_int l)))"
  "item (core_info c l p f) ''frequency'' = Inr f"
  by (simp_all add: item_def getitem_def core_info_def)

lemma item_add_temperature:
  "k \<noteq> ''temperature'' \<Longrightarrow> item (add_temperature h info) k = item info k"
  by (simp add: item_def getitem_add_temperature)

lemma display_cpu_fallback:
  "display_cpu_info (fallback_cpu h) = ([], Some (KeyError ''physical_cores''))"
  by (simp add: display_cpu_info_def fallback_cpu_def item_def getitem_def)

lemma first_line_cpu:
  "fstr [Inr a, item (add_temperature h (core_info c l p f)) ''usage'', Inr b,
     item (add_temperature h (core_info c l p f)) ''physical_cores'', Inr d,
     item (add_temperature h (core_info c l p f)) ''logical_cores'', Inr e] =
   Inr (a @ str_float c @ b @ str_val (py_or (opt_int p) (opt_int l)) @ d @
     str_val (opt_int l) @ e)"
  by (simp add: item_add_temperature item_core_info)

lemma display_cpu_psutil:
  "display_cpu_info (add_temperature h (core_info c l p f)) =
     ([newline # laptop_sign @ '' CPU Usage: '' @ str_float c @ ''% ('' @
         str_val (py_or (opt_int p) (opt_int l)) @ '' physical, '' @ str_val (opt_int l) @
         '' logical cores)''] @
      (case getitem (add_temperature h (core_info c l p f)) ''temperature'' of
         Inl e \<Rightarrow> [] | Inr v \<Rightarrow> [thermometer_sign @ ''  Temperature: '' @ str_val v]) @
      [bolt_sign @ '' Frequency: '' @ f], None)"
  unfolding display_cpu_info_def first_line_cpu
  by (cases "getitem (add_temperature h (core_info c l p f)) ''temperature''")
    (simp_all add: item_add_temperature item_core_info has_key_getitem item_Inr silent_def)

section \<open>The memory section\<close>

lemma item_unknown_memory:
  "k \<in> set memory_keys \<Longrightarrow> item unknown_memory k = Inr ''Unknown''"
  by (auto simp: item_def getitem_def unknown_memory_def memory_keys_def)

lemma item_memory_dict:
  "item (memory_dict m s) ''used'' = Inr (format_bytes (vm_used m))"
  "item (memory_dict m s) ''total'' = Inr (format_bytes (vm_total m))"
  "item (memory_dict m s) ''percent'' = Inr (str_float (vm_percent m))"
  "item (memory_dict m s) ''available'' = Inr (format_bytes (vm_available m))"
  "item (memory_dict m s) ''swap_used'' = Inr (format_bytes (sw_used s))"
  "item (memory_dict m s) ''swap_total'' = Inr (format_bytes (sw_total s))"
  "item (memory_dict m s) ''swap_percent'' = Inr (str_float (sw_percent s))"
  by (simp_all add: item_def getitem_def memory_dict_def)

lemma shows_swap_unknown: "shows_swap unknown_memory = Inr True"
  by (simp add: shows_swap_def getitem_def unknown_memory_def memory_keys_def)

lemma shows_swap_memory_dict: "shows_swap (memory_dict m s) = Inr True"
  by (simp add: shows_swap_def getitem_def memory_dict_def format_bytes_neq_0B)

lemma display_memory_unknown:
  "display_memory_info unknown_memory =
     ([newline # brain_sign @ '' Memory: Unknown / Unknown (Unknown%)'',
       floppy_sign @ '' Available: Unknown'',
       cycle_sign @ '' Swap: Unknown / Unknown (Unknown%)''], None)"
  by (simp add: display_memory_info_def swap_line_def shows_swap_unknown item_unknown_memory
      memory_keys_def)

lemma display_memory_dict:
  "display_memory_info (memory_dict m s) =
     ([newline # brain_sign @ '' Memory: '' @ format_bytes (vm_used m) @ '' / '' @
         format_bytes (vm_total m) @ '' ('' @ str_float (vm_percent m) @ ''%)'',
       floppy_sign @ '' Available: '' @ format_bytes (vm_available m),
       cycle_sign @ '' Swap: '' @ format_bytes (sw_used s) @ '' / '' @
         format_bytes (sw_total s) @ '' ('' @ str_float (sw_percent s) @ ''%)''], None)"
  by (simp add: display_memory_info_def swap_line_def shows_swap_memory_dict item_memory_dict)

section \<open>The sections on the example hosts\<close>

lemma str_float_examples:
  "str_float (25 / 2) = ''12.5''" "str_float 50 = ''50.0''" "str_float 0 = ''0.0''"
  "str_float 3 = ''3.0''"
proof -
  have "is_rounded1 (25 / 2)" "is_rounded1 50" "is_rounded1 0" "is_rounded1 3"
    by (simp_all add: is_rounded1_def py_eval)
  then show "str_float (25 / 2) = ''12.5''" "str_float 50 = ''50.0''" "str_float 0 = ''0.0''"
    "str_float 3 = ''3.0''"
    by (simp_all add: str_float_rounded1 py_eval)
qed

lemma display_cpu_linux:
  "display_cpu_info (get_cpu_info linux_cpu) =
     ([newline # laptop_sign @ '' CPU Usage: 12.5% (4 physical, 8 logical cores)'',
       bolt_sign @ '' Frequency: 2400 MHz''], None)"
  by (simp add: get_cpu_info_linux display_cpu_info_def item_def getitem_def has_key_def
      silent_def str_float_examples show_int_def digit_char_def)

lemma display_memory_no_swap:
  "display_memory_info (get_memory_info no_swap_host) =
     ([newline # brain_sign @ '' Memory: 4.0 GB / 8.0 GB (50.0%)'',
       floppy_sign @ '' Available: 4.0 GB'',
       cycle_sign @ '' Swap: 0.0 B / 0.0 B (0.0%)''], None)"
proof -
  have "get_memory_info no_swap_host =
      memory_dict \<lparr>vm_total = 8589934592, vm_available = 4294967296,
        vm_used = 4294967296, vm_percent = 50\<rparr> \<lparr>sw_total = 0, sw_used = 0, sw_percent = 0\<rparr>"
    by (simp add: get_memory_info_def no_swap_host_def)
  then show ?thesis
    by (simp add: display_memory_dict str_float_examples)
      (simp add: format_bytes_def units_def py_eval)
qed

lemma display_disks_three_mounts:
  "display_disk_info (get_disk_info three_mounts) =
     [newline # floppy_sign @ '' Disk Usage:'',
      ''   /dev/sda1 (/)'', ''   1.0 KB / 2.0 KB (50.0%)'',
      ''   /dev/sda2 (/home)'', ''   1.0 KB / 2.0 KB (50.0%)'']"
  by (simp add: disks_three_mounts display_disk_info_def disk_lines_def root_entry_def
      home_entry_def)
    (simp add: py_eval)

section \<open>Properties of the displays\<close>

text \<open>
  C9 (error). When psutil is missing, or any of the four sampling calls of
  \<^verbatim>\<open>get_cpu_info\<close> raises (an interrupt included, which its bare \<^verbatim>\<open>except\<close> swallows), the
  dictionary returned is the fallback, which has the key \<^verbatim>\<open>cores\<close> but neither
  \<^verbatim>\<open>physical_cores\<close> nor \<^verbatim>\<open>logical_cores\<close>: \<^verbatim>\<open>display_cpu_info\<close> raises \<^verbatim>\<open>KeyError\<close> on it
  before printing anything.
\<close>

theorem cpu_fallback_breaks_display:
  assumes "\<not> samples_fine h"
  shows "display_cpu_info (get_cpu_info h) = ([], Some (KeyError ''physical_cores''))"
  using assms by (cases h rule: get_cpu_info_cases) (simp_all add: display_cpu_fallback)

theorem cpu_fallback_breaks_display_witness:
  "display_cpu_info (get_cpu_info interrupted_cpu) = ([], Some (KeyError ''physical_cores'')) \<and>
   display_cpu_info (get_cpu_info bare_cpu) = ([], Some (KeyError ''physical_cores''))"
  using cpu_fallback_breaks_display [of interrupted_cpu] cpu_fallback_breaks_display [of bare_cpu]
  by (simp add: samples_fine_def cpu_examples)

text \<open>
  C25 (safety). \<^verbatim>\<open>display_memory_info\<close> never raises on a dictionary of
  \<^verbatim>\<open>get_memory_info\<close>, whatever the host answers: all the keys it reads are present,
  and it prints exactly three lines, the swap line included.
\<close>

theorem display_memory_never_raises:
  "\<exists>usage available swap.
     display_memory_info (get_memory_info h) = ([usage, available, swap], None)"
  by (cases h rule: memory_cases) (simp_all add: display_memory_unknown display_memory_dict)

end
