(* ===== verification/Process_Ranker.thy ===== *)
theory Process_Ranker
  imports Py_Format
begin

text \<open>
  \<^verbatim>\<open>SystemMonitor.get_top_processes\<close> (\<^verbatim>\<open>src/tools/system_monitor.py\<close>, lines 158-211) and
  the \<^verbatim>\<open>ProcessInfo\<close> tuple (line 20).

  The process table is an input: \<open>proc_table\<close> holds the flag \<^verbatim>\<open>HAS_PSUTIL\<close>, the value of
  \<^verbatim>\<open>psutil.cpu_count()\<close> and, for each of the two passes over \<^verbatim>\<open>psutil.process_iter\<close>,
  what happened at each process in enumeration order: an exception raised inside the
  \<^verbatim>\<open>try\<close> of that iteration, or (second pass) the \<^verbatim>\<open>proc.info\<close> dictionary. psutil stores
  \<^verbatim>\<open>None\<close> in \<^verbatim>\<open>proc.info\<close> for an attribute it was denied, so every field but the pid is
  optional. A \<^verbatim>\<open>KeyboardInterrupt\<close> during the half-second sleep is the same as one at
  the first iteration of the second pass.

  \<^item> \<open>prime_pass\<close> is the first loop, \<open>observe\<close> the body of the second loop's \<^verbatim>\<open>with\<close>
    block, \<open>collect\<close> the second loop with its \<^verbatim>\<open>except\<close> clause, \<open>on_error\<close> the outer
    \<^verbatim>\<open>except Exception\<close>, \<open>get_top_processes\<close> the method.
  \<^item> The two quotients of lines 186 and 189 are float divisions (\<open>truediv\<close>; the core
    count is converted by \<open>py_float\<close>), and \<^verbatim>\<open>round(x, 1)\<close> is \<open>py_round1\<close>.
  \<^item> \<open>raw_process\<close>, \<open>normalise\<close>, \<open>rank_spec\<close> are the specification of ranking:
    normalise, drop the denied names, sort by decreasing CPU share, truncate.
  \<^item> \<open>well_typed\<close> and \<open>typed_table\<close> say that psutil could read every attribute
    (no \<^verbatim>\<open>None\<close>) and that the core count is a non-zero integer; \<open>plausible\<close> bounds the
    figures so that their sums are printed exactly.
  \<^item> The lemmas give the result on every path (no psutil, skipped processes, an
    escaping exception, an interrupt), the order, length and content of the returned
    list, that the method computes \<open>rank_spec\<close> on a fully readable table, and that on a
    well-typed table every error was raised by psutil.
\<close>

section \<open>Data\<close>

record ProcessInfo =
  name :: string
  cpu_percent :: pyfloat
  memory_mb :: pyfloat
  pid :: int

record proc_info =
  info_pid :: int
  info_name :: "string option"
  info_cpu_percent :: "pyfloat option"
  info_rss :: "int option"

record proc_table =
  has_psutil :: bool
  cpu_count :: "int option"
  first_pass :: "unit raises list"
  second_pass :: "proc_info raises list"

type_synonym top_result = "ProcessInfo list \<times> exn option"

section \<open>Operations\<close>

definition denylist :: "string list" where
  "denylist = [''system'', ''system idle process'', ''system interrupts'']"

definition strip_exe :: "string \<Rightarrow> string" where
  "strip_exe nm = (if endswith nm ''.exe'' then slice_to nm (- 4) else nm)"

definition observe :: "int option \<Rightarrow> proc_info \<Rightarrow> ProcessInfo option raises" where
  "observe ncpu info =
     (case info_name info of
        None \<Rightarrow> Inl AttributeError
      | Some nm \<Rightarrow>
          (case info_rss info of
             None \<Rightarrow> Inl AttributeError
           | Some rss \<Rightarrow>
               (case (info_cpu_percent info, ncpu) of
                  (Some c, Some n) \<Rightarrow>
                    if n = 0 then Inl ZeroDivisionError
                    else if lower (strip_exe nm) \<in> set denylist then Inr None
                    else Inr (Some \<lparr>name = strip_exe nm,
                      cpu_percent = py_round1 (truediv c (py_float n)),
                      memory_mb = py_round1 (truediv (truediv (of_int rss) 1024) 1024),
                      pid = info_pid info\<rparr>)
                | _ \<Rightarrow> Inl TypeError)))"

fun prime_pass :: "unit raises list \<Rightarrow> unit raises" where
  "prime_pass [] = Inr ()"
| "prime_pass (Inr u # evs) = prime_pass evs"
| "prime_pass (Inl e # evs) = (if psutil_skippable e then prime_pass evs else Inl e)"

fun collect ::
  "int option \<Rightarrow> proc_info raises list \<Rightarrow> ProcessInfo list \<Rightarrow> ProcessInfo list raises" where
  "collect ncpu [] processes = Inr processes"
| "collect ncpu (Inl e # evs) processes =
     (if psutil_skippable e then collect ncpu evs processes else Inl e)"
| "collect ncpu (Inr info # evs) processes =
     (case observe ncpu info of
        Inl e \<Rightarrow> if psutil_skippable e then collect ncpu evs processes else Inl e
      | Inr None \<Rightarrow> collect ncpu evs processes
      | Inr (Some p) \<Rightarrow> collect ncpu evs (processes @ [p]))"

definition on_error :: "exn \<Rightarrow> top_result raises" where
  "on_error e = (if is_Exception e then Inr ([], Some e) else Inl e)"

definition get_top_processes :: "proc_table \<Rightarrow> int \<Rightarrow> top_result raises" where
  "get_top_processes tbl limit =
     (if \<not> has_psutil tbl then Inr ([], None)
      else case prime_pass (first_pass tbl) of
        Inl e \<Rightarrow> on_error e
      | Inr u \<Rightarrow>
          (case collect (cpu_count tbl) (second_pass tbl) [] of
             Inl e \<Rightarrow> on_error e
           | Inr processes \<Rightarrow> Inr (slice_to (sort_desc cpu_percent processes) limit, None)))"

section \<open>Specification of ranking\<close>

record raw_process =
  raw_pid :: int
  raw_name :: string
  raw_busy :: pyfloat
  raw_rss :: int

definition normalise :: "int \<Rightarrow> raw_process \<Rightarrow> ProcessInfo" where
  "normalise n r =
     \<lparr>name = strip_exe (raw_name r),
      cpu_percent = py_round1 (truediv (raw_busy r) (py_float n)),
      memory_mb = py_round1 (truediv (of_int (raw_rss r)) 1048576),
      pid = raw_pid r\<rparr>"

definition denied :: "ProcessInfo \<Rightarrow> bool" where
  "denied p \<longleftrightarrow> lower (name p) \<in> set denylist"

definition filtered :: "int \<Rightarrow> raw_process list \<Rightarrow> ProcessInfo list" where
  "filtered n raws = filter (\<lambda>p. \<not> denied p) (map (normalise n) raws)"

definition rank_spec :: "int \<Rightarrow> raw_process list \<Rightarrow> nat \<Rightarrow> ProcessInfo list" where
  "rank_spec n raws limit = take limit (sort_desc cpu_percent (filtered n raws))"

definition readable :: "raw_process \<Rightarrow> proc_info" where
  "readable r =
     \<lparr>info_pid = raw_pid r, info_name = Some (raw_name r),
      info_cpu_percent = Some (raw_busy r), info_rss = Some (raw_rss r)\<rparr>"

section \<open>The loops as folds over step outcomes\<close>

definition outcome :: "int option \<Rightarrow> proc_info raises \<Rightarrow> ProcessInfo option raises" where
  "outcome ncpu ev = (case ev of Inl e \<Rightarrow> Inl e | Inr info \<Rightarrow> observe ncpu info)"

definition kept :: "int option \<Rightarrow> proc_info raises list \<Rightarrow> ProcessInfo list" where
  "kept ncpu evs = List.map_filter id (observations (map (outcome ncpu) evs))"

definition is_kept :: "int option \<Rightarrow> proc_info \<Rightarrow> bool" where
  "is_kept ncpu info = (case observe ncpu info of Inr (Some p) \<Rightarrow> True | _ \<Rightarrow> False)"

definition ranked :: "proc_table \<Rightarrow> ProcessInfo list" where
  "ranked tbl = sort_desc cpu_percent (kept (cpu_count tbl) (second_pass tbl))"

definition escaping :: "proc_table \<Rightarrow> exn option" where
  "escaping tbl =
     (case first_raise (first_pass tbl) of
        Some e \<Rightarrow> Some e
      | None \<Rightarrow> first_raise (map (outcome (cpu_count tbl)) (second_pass tbl)))"

section \<open>Tables psutil could read\<close>

definition well_typed :: "proc_info \<Rightarrow> bool" where
  "well_typed info \<longleftrightarrow>
     info_name info \<noteq> None \<and> info_rss info \<noteq> None \<and> info_cpu_percent info \<noteq> None"

definition typed_table :: "proc_table \<Rightarrow> bool" where
  "typed_table tbl \<longleftrightarrow>
     (case cpu_count tbl of None \<Rightarrow> False | Some n \<Rightarrow> n \<noteq> 0) \<and>
     list_all well_typed (observations (second_pass tbl))"

definition plausible :: "proc_table \<Rightarrow> bool" where
  "plausible tbl \<longleftrightarrow>
     (case cpu_count tbl of
        None \<Rightarrow> False
      | Some n \<Rightarrow> 0 < n \<and> n \<le> 2 ^ 53 \<and>
          list_all
            (\<lambda>info.
               (case info_cpu_percent info of
                  None \<Rightarrow> True | Some c \<Rightarrow> 0 \<le> c \<and> c \<le> 2 ^ 20 * of_int n) \<and>
               (case info_rss info of None \<Rightarrow> True | Some rss \<Rightarrow> 0 \<le> rss \<and> rss \<le> 2 ^ 47))
            (observations (second_pass tbl)))"

section \<open>Example tables\<close>

definition idle_info :: proc_info where
  "idle_info = \<lparr>info_pid = 0, info_name = Some ''System Idle Process'',
     info_cpu_percent = Some 180, info_rss = Some 8192\<rparr>"

definition chrome_info :: proc_info where
  "chrome_info = \<lparr>info_pid = 100, info_name = Some ''chrome.exe'',
     info_cpu_percent = Some 100, info_rss = Some 123456789\<rparr>"

definition bash_info :: proc_info where
  "bash_info = \<lparr>info_pid = 7, info_name = Some ''bash'',
     info_cpu_percent = Some (5 / 2), info_rss = Some 1048576\<rparr>"

definition hidden_info :: proc_info where
  "hidden_info = \<lparr>info_pid = 4, info_name = None,
     info_cpu_percent = Some 1, info_rss = None\<rparr>"

definition two_core :: proc_table where
  "two_core = \<lparr>has_psutil = True, cpu_count = Some 2,
     first_pass = [Inr (), Inl AccessDenied, Inr ()],
     second_pass = [Inr idle_info, Inl NoSuchProcess, Inr bash_info, Inr chrome_info]\<rparr>"

definition interrupted :: proc_table where
  "interrupted =
     two_core\<lparr>second_pass := [Inr bash_info, Inl KeyboardInterrupt, Inr chrome_info]\<rparr>"

definition one_hidden :: proc_table where
  "one_hidden = two_core\<lparr>second_pass := [Inr chrome_info, Inr hidden_info, Inr bash_info]\<rparr>"

definition example_raws :: "raw_process list" where
  "example_raws =
     [\<lparr>raw_pid = 0, raw_name = ''System Idle Process'', raw_busy = 180, raw_rss = 8192\<rparr>,
      \<lparr>raw_pid = 7, raw_name = ''bash'', raw_busy = 5 / 2, raw_rss = 1048576\<rparr>,
      \<lparr>raw_pid = 100, raw_name = ''chrome.exe'', raw_busy = 100, raw_rss = 123456789\<rparr>]"

definition chrome_process :: ProcessInfo where
  "chrome_process =
     \<lparr>name = ''chrome'', cpu_percent = 50, memory_mb = round_double (1177 / 10), pid = 100\<rparr>"

definition bash_process :: ProcessInfo where
  "bash_process = \<lparr>name = ''bash'', cpu_percent = round_double (6 / 5), memory_mb = 1, pid = 7\<rparr>"

lemmas [py_eval] =
  denylist_def strip_exe_def observe_def on_error_def get_top_processes_def normalise_def
  denied_def filtered_def rank_spec_def readable_def

lemmas example_defs =
  two_core_def idle_info_def chrome_info_def bash_info_def hidden_info_def
  chrome_process_def bash_process_def

section \<open>One observation\<close>

lemma outcome_simps [simp]:
  "outcome ncpu (Inl e) = Inl e" "outcome ncpu (Inr info) = observe ncpu info"
  by (simp_all add: outcome_def)

lemma observe_not_skippable: "observe ncpu info = Inl e \<Longrightarrow> \<not> psutil_skippable e"
  by (auto simp: observe_def split: option.splits if_splits)

lemma observe_is_Exception: "observe ncpu info = Inl e \<Longrightarrow> is_Exception e"
  by (auto simp: observe_def split: option.splits if_splits)

lemma observe_no_name: "info_name info = None \<Longrightarrow> observe ncpu info = Inl AttributeError"
  by (simp add: observe_def)

lemma observe_no_memory:
  "info_rss info = None \<Longrightarrow> observe ncpu info = Inl AttributeError"
  by (simp add: observe_def split: option.splits)

lemma observe_SomeD:
  assumes "observe ncpu info = Inr (Some p)"
  shows "pid p = info_pid info" and "\<not> denied p"
    and "\<exists>nm. info_name info = Some nm \<and> name p = strip_exe nm"
    and "\<exists>c n. info_cpu_percent info = Some c \<and> ncpu = Some n \<and> n \<noteq> 0 \<and>
           cpu_percent p = py_round1 (truediv c (py_float n))"
    and "\<exists>rss. info_rss info = Some rss \<and>
           memory_mb p = py_round1 (truediv (of_int rss) 1048576)"
  using assms
  by (auto simp: observe_def denied_def truediv_twice_1024 split: option.splits if_splits)

lemma observe_trichotomy:
  obtains (raises) e where "observe ncpu info = Inl e"
  | (denied) "observe ncpu info = Inr None"
  | (kept) p where "observe ncpu info = Inr (Some p)"
  by (cases "observe ncpu info") auto

lemma observe_readable:
  "n \<noteq> 0 \<Longrightarrow> observe (Some n) (readable r) =
     (if denied (normalise n r) then Inr None else Inr (Some (normalise n r)))"
  by (simp add: observe_def readable_def normalise_def denied_def truediv_twice_1024)

section \<open>The two loops\<close>

lemma kept_simps [simp]:
  "kept ncpu [] = []"
  "kept ncpu (Inl e # evs) = kept ncpu evs"
  "observe ncpu info = Inl e \<Longrightarrow> kept ncpu (Inr info # evs) = kept ncpu evs"
  "observe ncpu info = Inr None \<Longrightarrow> kept ncpu (Inr info # evs) = kept ncpu evs"
  "observe ncpu info = Inr (Some p) \<Longrightarrow> kept ncpu (Inr info # evs) = p # kept ncpu evs"
  by (simp_all add: kept_def List.map_filter_simps)

lemma prime_pass_eq:
  "prime_pass evs = (case first_raise evs of None \<Rightarrow> Inr () | Some e \<Rightarrow> Inl e)"
  by (induction evs rule: prime_pass.induct) simp_all

lemma collect_eq:
  "collect ncpu evs acc =
     (case first_raise (map (outcome ncpu) evs) of
        None \<Rightarrow> Inr (acc @ kept ncpu evs)
      | Some e \<Rightarrow> Inl e)"
  by (induction ncpu evs acc rule: collect.induct)
    (auto split: sum.splits option.splits)

lemma kept_memD:
  "p \<in> set (kept ncpu evs) \<Longrightarrow> \<exists>info. Inr info \<in> set evs \<and> observe ncpu info = Inr (Some p)"
proof (induction evs)
  case Nil
  then show ?case by simp
next
  case (Cons ev evs)
  show ?case
  proof (cases ev)
    case (Inl e)
    with Cons show ?thesis by auto
  next
    case (Inr info)
    with Cons show ?thesis
      by (cases rule: observe_trichotomy [of ncpu info]) auto
  qed
qed

lemma kept_not_denied: "p \<in> set (kept ncpu evs) \<Longrightarrow> \<not> denied p"
  by (auto dest!: kept_memD observe_SomeD(2))

lemma map_pid_kept:
  "map pid (kept ncpu evs) = map info_pid (filter (is_kept ncpu) (observations evs))"
proof (induction evs)
  case Nil
  then show ?case by simp
next
  case (Cons ev evs)
  show ?case
  proof (cases ev)
    case (Inl e)
    with Cons show ?thesis by simp
  next
    case (Inr info)
    with Cons show ?thesis
      by (cases rule: observe_trichotomy [of ncpu info])
        (simp_all add: is_kept_def observe_SomeD(1))
  qed
qed

lemma kept_filter_skipped [simp]:
  "kept ncpu (filter (\<lambda>ev. \<not> skipped ev) evs) = kept ncpu evs"
  by (induction evs rule: observations.induct)
    (simp_all add: kept_def observations_Cons split: sum.splits option.splits)

lemma outcome_filter_skipped [simp]:
  "first_raise (map (outcome ncpu) (filter (\<lambda>ev. \<not> skipped ev) evs)) =
   first_raise (map (outcome ncpu) evs)"
  by (induction evs rule: observations.induct)
    (simp_all add: first_raise_Cons split: sum.splits)

lemma kept_readable:
  "n \<noteq> 0 \<Longrightarrow> kept (Some n) (map (\<lambda>r. Inr (readable r)) raws) = filtered n raws"
  by (induction raws) (simp_all add: filtered_def observe_readable)

lemma first_raise_readable:
  "n \<noteq> 0 \<Longrightarrow>
   first_raise (map (outcome (Some n)) (map (\<lambda>r. Inr (readable r)) raws)) = None"
  by (induction raws) (simp_all add: observe_readable)

section \<open>The method on every path\<close>

lemma get_top_processes_eq:
  "get_top_processes tbl limit =
     (if \<not> has_psutil tbl then Inr ([], None)
      else case escaping tbl of
        Some e \<Rightarrow> on_error e
      | None \<Rightarrow> Inr (slice_to (ranked tbl) limit, None))"
  by (simp add: get_top_processes_def prime_pass_eq collect_eq escaping_def ranked_def
      split: option.splits)

lemma get_top_processes_InrD:
  assumes "get_top_processes tbl limit = Inr (ps, rep)"
  shows "ps = [] \<or> ps = slice_to (ranked tbl) limit"
  using assms by (auto simp: get_top_processes_eq on_error_def split: if_splits option.splits)

lemma sorted_ranked: "sorted_wrt (\<lambda>p q. cpu_percent q \<le> cpu_percent p) (ranked tbl)"
  by (simp add: ranked_def sorted_sort_desc)

lemma ranked_not_denied: "p \<in> set (ranked tbl) \<Longrightarrow> \<not> denied p"
  by (auto simp: ranked_def dest: kept_not_denied)

lemma escaping_filter_skipped [simp]:
  "escaping (tbl\<lparr>first_pass := filter (\<lambda>ev. \<not> skipped ev) (first_pass tbl),
      second_pass := filter (\<lambda>ev. \<not> skipped ev) (second_pass tbl)\<rparr>) = escaping tbl"
  by (simp add: escaping_def split: option.splits)

lemma ranked_filter_skipped [simp]:
  "ranked (tbl\<lparr>first_pass := fp,
      second_pass := filter (\<lambda>ev. \<not> skipped ev) (second_pass tbl)\<rparr>) = ranked tbl"
  by (simp add: ranked_def)

lemma escaping_readable:
  "n \<noteq> 0 \<Longrightarrow> escaping \<lparr>has_psutil = h, cpu_count = Some n, first_pass = fp,
      second_pass = map (\<lambda>r. Inr (readable r)) raws\<rparr> = first_raise fp"
  by (simp add: escaping_def first_raise_readable del: map_map split: option.splits)

lemma ranked_readable:
  "n \<noteq> 0 \<Longrightarrow> ranked \<lparr>has_psutil = h, cpu_count = Some n, first_pass = fp,
      second_pass = map (\<lambda>r. Inr (readable r)) raws\<rparr> =
     sort_desc cpu_percent (filtered n raws)"
  by (simp add: ranked_def kept_readable)

lemma escaping_two_core: "escaping two_core = None"
  by (simp add: escaping_def example_defs py_eval)

lemma ranked_two_core: "ranked two_core = [chrome_process, bash_process]"
  by (simp add: ranked_def example_defs kept_def List.map_filter_simps py_eval)

lemma kept_two_core:
  "kept (cpu_count two_core) (second_pass two_core) = [bash_process, chrome_process]"
  by (simp add: example_defs kept_def List.map_filter_simps py_eval)

lemma top_two_core:
  "get_top_processes two_core 10 = Inr ([chrome_process, bash_process], None)"
  by (simp add: get_top_processes_eq escaping_two_core ranked_two_core slice_to_def)
    (simp add: two_core_def)

lemma top1_two_core: "get_top_processes two_core 1 = Inr ([chrome_process], None)"
  by (simp add: get_top_processes_eq escaping_two_core ranked_two_core slice_to_def)
    (simp add: two_core_def)

lemma rank_spec_example: "rank_spec 2 example_raws 1 = [chrome_process]"
  by (simp add: example_raws_def chrome_process_def py_eval)

section \<open>Well-typed tables\<close>

lemma observe_well_typed:
  "well_typed info \<Longrightarrow> n \<noteq> 0 \<Longrightarrow> \<exists>r. observe (Some n) info = Inr r"
  by (auto simp: well_typed_def observe_def)

lemma first_raise_outcome_typed:
  assumes "list_all well_typed (observations evs)" and "n \<noteq> 0"
  shows "first_raise (map (outcome (Some n)) evs) = first_raise evs"
  using assms
proof (induction evs rule: observations.induct)
  case (2 info rs)
  then obtain r where "observe (Some n) info = Inr r"
    using observe_well_typed [of info n] by auto
  with 2 show ?case by simp
qed simp_all

section \<open>Plausible tables\<close>

lemma observe_plausible:
  assumes "observe (Some n) info = Inr (Some p)" and "0 < n" and "n \<le> 2 ^ 53"
    and "\<And>c. info_cpu_percent info = Some c \<Longrightarrow> 0 \<le> c \<and> c \<le> 2 ^ 20 * of_int n"
    and "\<And>rss. info_rss info = Some rss \<Longrightarrow> 0 \<le> rss \<and> rss \<le> 2 ^ 47"
  shows "is_rounded1 (cpu_percent p) \<and> 0 \<le> cpu_percent p \<and> cpu_percent p \<le> 2 ^ 20"
    and "is_rounded1 (memory_mb p) \<and> 0 \<le> memory_mb p \<and> memory_mb p \<le> 2 ^ 27"
proof -
  from observe_SomeD(4) [OF assms(1)] obtain c
    where c: "info_cpu_percent info = Some c"
      "cpu_percent p = py_round1 (truediv c (py_float n))" by auto
  from assms(2,3) have n: "py_float n = of_int n" by (intro py_float_exact) simp
  from assms(4) [OF c(1)] assms(2)
  have "0 \<le> truediv c (of_int n) \<and> truediv c (of_int n) \<le> of_int (2 ^ 20)"
    by (intro truediv_between) simp_all
  then have "0 \<le> py_round1 (truediv c (of_int n)) \<and>
      py_round1 (truediv c (of_int n)) \<le> of_int (2 ^ 20) \<and>
      is_rounded1 (py_round1 (truediv c (of_int n)))"
    by (intro py_round1_between) simp_all
  then show "is_rounded1 (cpu_percent p) \<and> 0 \<le> cpu_percent p \<and> cpu_percent p \<le> 2 ^ 20"
    by (simp add: c(2) n)
  from observe_SomeD(5) [OF assms(1)] obtain rss
    where r: "info_rss info = Some rss"
      "memory_mb p = py_round1 (truediv (of_int rss) 1048576)" by auto
  from assms(5) [OF r(1)] have "(of_int rss :: rat) \<le> of_int (2 ^ 47)" "(0 :: rat) \<le> of_int rss"
    by (simp_all only: of_int_le_iff of_int_0_le_iff)
  then have "0 \<le> truediv (of_int rss) 1048576 \<and> truediv (of_int rss) 1048576 \<le> of_int (2 ^ 27)"
    by (intro truediv_between) simp_all
  then have "0 \<le> py_round1 (truediv (of_int rss) 1048576) \<and>
      py_round1 (truediv (of_int rss) 1048576) \<le> of_int (2 ^ 27) \<and>
      is_rounded1 (py_round1 (truediv (of_int rss) 1048576))"
    by (intro py_round1_between) simp_all
  then show "is_rounded1 (memory_mb p) \<and> 0 \<le> memory_mb p \<and> memory_mb p \<le> 2 ^ 27"
    by (simp add: r(2))
qed

lemma set_ranked: "set (ranked tbl) = set (kept (cpu_count tbl) (second_pass tbl))"
  by (metis ranked_def mset_sort_desc set_mset_mset)

lemma kept_plausible:
  assumes "plausible tbl" and "p \<in> set (kept (cpu_count tbl) (second_pass tbl))"
  shows "is_rounded1 (cpu_percent p) \<and> 0 \<le> cpu_percent p \<and> cpu_percent p \<le> 2 ^ 20"
    and "is_rounded1 (memory_mb p) \<and> 0 \<le> memory_mb p \<and> memory_mb p \<le> 2 ^ 27"
proof -
  from assms(1) obtain n where n: "cpu_count tbl = Some n" "0 < n" "n \<le> 2 ^ 53"
    and all: "list_all
            (\<lambda>info.
               (case info_cpu_percent info of
                  None \<Rightarrow> True | Some c \<Rightarrow> 0 \<le> c \<and> c \<le> 2 ^ 20 * of_int n) \<and>
               (case info_rss info of None \<Rightarrow> True | Some rss \<Rightarrow> 0 \<le> rss \<and> rss \<le> 2 ^ 47))
            (observations (second_pass tbl))"
    by (auto simp: plausible_def split: option.splits)
  from kept_memD [OF assms(2)] n(1) obtain info
    where i: "Inr info \<in> set (second_pass tbl)" "observe (Some n) info = Inr (Some p)" by auto
  from i(1) have "info \<in> set (observations (second_pass tbl))"
    by (simp add: set_observations)
  with all have
    "\<And>c. info_cpu_percent info = Some c \<Longrightarrow> 0 \<le> c \<and> c \<le> 2 ^ 20 * of_int n"
    "\<And>rss. info_rss info = Some rss \<Longrightarrow> 0 \<le> rss \<and> rss \<le> 2 ^ 47"
    by (auto simp: list_all_iff)
  from observe_plausible [OF i(2) n(2,3) this]
  show "is_rounded1 (cpu_percent p) \<and> 0 \<le> cpu_percent p \<and> cpu_percent p \<le> 2 ^ 20"
    and "is_rounded1 (memory_mb p) \<and> 0 \<le> memory_mb p \<and> memory_mb p \<le> 2 ^ 27"
    by simp_all
qed

section \<open>Properties of \<open>get_top_processes\<close>\<close>

text \<open>
  C1 (refinement). On a table psutil can read completely (every \<^verbatim>\<open>proc.info\<close> field
  present, a non-zero core count, nothing but skippable errors in the first pass),
  \<^verbatim>\<open>get_top_processes(limit)\<close> returns exactly what the ranking specification asks for:
  the normalised entries without the denied names, sorted by decreasing CPU share and
  cut to \<open>limit\<close> entries, and it reports no error.
\<close>

theorem top_refines_rank_spec:
  assumes "n \<noteq> 0" and "first_raise fp = None"
  shows "get_top_processes
     \<lparr>has_psutil = True, cpu_count = Some n, first_pass = fp,
      second_pass = map (\<lambda>r. Inr (readable r)) raws\<rparr> (int limit) =
     Inr (rank_spec n raws limit, None)"
  using assms
  by (simp add: get_top_processes_eq escaping_readable ranked_readable rank_spec_def
      slice_to_nonneg)

theorem top_refines_rank_spec_witness:
  "get_top_processes
     \<lparr>has_psutil = True, cpu_count = Some 2, first_pass = [Inr (), Inl AccessDenied],
      second_pass = map (\<lambda>r. Inr (readable r)) example_raws\<rparr> (int 1) =
     Inr ([chrome_process], None)"
proof -
  have "(2::int) \<noteq> 0" and "first_raise [Inr (), Inl AccessDenied] = None"
    by simp_all
  from top_refines_rank_spec [OF this, of example_raws 1] show ?thesis
    by (simp only: rank_spec_example)
qed

text \<open>
  C2 (functional). Whatever the process table holds, a list returned by
  \<^verbatim>\<open>get_top_processes\<close> is in order of decreasing \<^verbatim>\<open>cpu_percent\<close>.
\<close>

theorem top_sorted:
  assumes "get_top_processes tbl limit = Inr (ps, rep)"
  shows "sorted_wrt (\<lambda>p q. cpu_percent q \<le> cpu_percent p) ps"
  using get_top_processes_InrD [OF assms] sorted_ranked [of tbl]
  by (auto intro: sorted_wrt_slice_to)

theorem top_sorted_witness:
  "sorted_wrt (\<lambda>p q. cpu_percent q \<le> cpu_percent p) [chrome_process, bash_process]"
  by (rule top_sorted [OF top_two_core])

text \<open>
  C3 (functional). The entries \<^verbatim>\<open>get_top_processes\<close> returns for a non-negative limit
  really are the top ones: every collected process that was cut off has a CPU share
  no larger than that of every process returned.
\<close>

theorem top_dominates_rest:
  assumes "get_top_processes tbl limit = Inr (ps, None)" and "has_psutil tbl" and "0 \<le> limit"
    and "p \<in> set ps" and "q \<in># mset (kept (cpu_count tbl) (second_pass tbl)) - mset ps"
  shows "cpu_percent q \<le> cpu_percent p"
proof -
  from assms(1-3) have ps: "ps = take (nat limit) (ranked tbl)"
    by (auto simp: get_top_processes_eq on_error_def slice_to_nonneg
        split: option.splits if_splits)
  have "mset (kept (cpu_count tbl) (second_pass tbl)) = mset (ranked tbl)"
    by (simp add: ranked_def)
  with assms(5) ps have "q \<in> set (drop (nat limit) (ranked tbl))"
    by (metis mset_drop_eq_diff set_mset_mset)
  with sorted_ranked [of tbl] assms(4) ps show ?thesis
    by (auto dest: sorted_wrt_take_drop)
qed

theorem top_dominates_rest_witness:
  "cpu_percent bash_process \<le> cpu_percent chrome_process"
proof -
  have "has_psutil two_core" and "(0::int) \<le> 1" and "chrome_process \<in> set [chrome_process]"
    by (simp_all add: two_core_def)
  moreover have "bash_process \<in>#
      mset (kept (cpu_count two_core) (second_pass two_core)) - mset [chrome_process]"
    by (simp add: kept_two_core)
  ultimately show ?thesis
    by (rule top_dominates_rest [OF top1_two_core])
qed

text \<open>
  C4 (safety). No entry returned by \<^verbatim>\<open>get_top_processes\<close> has a name that, after removing
  a trailing \<^verbatim>\<open>.exe\<close> and lower-casing, is one of \<^verbatim>\<open>system\<close>, \<^verbatim>\<open>system idle process\<close>,
  \<^verbatim>\<open>system interrupts\<close>.
\<close>

theorem top_excludes_denylist:
  assumes "get_top_processes tbl limit = Inr (ps, rep)" and "p \<in> set ps"
  shows "lower (name p) \<notin> set denylist"
  using get_top_processes_InrD [OF assms(1)] assms(2) set_slice_to [of "ranked tbl" limit]
    ranked_not_denied [of p tbl]
  by (auto simp: denied_def)

theorem top_excludes_denylist_witness:
  "lower (name chrome_process) \<notin> set denylist \<and> lower (name bash_process) \<notin> set denylist"
  using top_excludes_denylist [OF top_two_core, of chrome_process]
    top_excludes_denylist [OF top_two_core, of bash_process]
  by simp

text \<open>
  C5 (safety). A process that raises \<^verbatim>\<open>NoSuchProcess\<close>, \<^verbatim>\<open>AccessDenied\<close> or
  \<^verbatim>\<open>ZombieProcess\<close> in either pass has no effect on the result: \<^verbatim>\<open>get_top_processes\<close>
  returns the same as on the table without those processes.
\<close>

theorem skipped_processes_isolated:
  "get_top_processes
     (tbl\<lparr>first_pass := filter (\<lambda>ev. \<not> skipped ev) (first_pass tbl),
          second_pass := filter (\<lambda>ev. \<not> skipped ev) (second_pass tbl)\<rparr>) limit =
   get_top_processes tbl limit"
  by (simp add: get_top_processes_eq split: option.splits)

text \<open>
  C6 (error). \<^verbatim>\<open>get_top_processes\<close> lets no exception out but \<^verbatim>\<open>KeyboardInterrupt\<close>: the
  outer \<^verbatim>\<open>except Exception\<close> turns every other one into an empty list and a printed
  message.
\<close>

theorem only_interrupt_escapes:
  assumes "get_top_processes tbl limit = Inl e"
  shows "e = KeyboardInterrupt"
  using assms
  by (auto simp: get_top_processes_eq on_error_def is_Exception_def
      split: if_splits option.splits)

theorem only_interrupt_escapes_witness:
  "\<exists>e. get_top_processes interrupted 10 = Inl e \<and> e = KeyboardInterrupt"
proof -
  have "escaping interrupted = Some KeyboardInterrupt"
    by (simp add: escaping_def interrupted_def example_defs py_eval)
  then have h: "get_top_processes interrupted 10 = Inl KeyboardInterrupt"
    by (simp add: get_top_processes_eq on_error_def interrupted_def two_core_def)
  with only_interrupt_escapes [OF h] show ?thesis by simp
qed

text \<open>
  C7 (error). One process whose name or memory information psutil was denied (the
  \<^verbatim>\<open>None\<close> it stores in \<^verbatim>\<open>proc.info\<close>) makes the attribute access raise
  \<^verbatim>\<open>AttributeError\<close>, which the inner \<^verbatim>\<open>except\<close> does not name: if nothing escaped
  before it, \<^verbatim>\<open>get_top_processes\<close> returns the empty list and reports the error, however
  many processes were already collected.
\<close>

theorem denied_attribute_empties_result:
  assumes "has_psutil tbl" and "first_raise (first_pass tbl) = None"
    and "second_pass tbl = pre @ Inr info # post"
    and "first_raise (map (outcome (cpu_count tbl)) pre) = None"
    and "info_name info = None \<or> info_rss info = None"
  shows "get_top_processes tbl limit = Inr ([], Some AttributeError)"
proof -
  from assms(5) have "observe (cpu_count tbl) info = Inl AttributeError"
    by (auto simp: observe_no_name observe_no_memory)
  with assms(2-4) have "escaping tbl = Some AttributeError"
    by (simp add: escaping_def first_raise_append)
  with assms(1) show ?thesis
    by (simp add: get_top_processes_eq on_error_def)
qed

theorem denied_attribute_empties_result_witness:
  "get_top_processes one_hidden 10 = Inr ([], Some AttributeError)"
proof -
  have "has_psutil one_hidden" and "first_raise (first_pass one_hidden) = None"
    and "second_pass one_hidden = [Inr chrome_info] @ Inr hidden_info # [Inr bash_info]"
    and "first_raise (map (outcome (cpu_count one_hidden)) [Inr chrome_info]) = None"
    and "info_name hidden_info = None \<or> info_rss hidden_info = None"
    by (simp_all add: one_hidden_def example_defs py_eval)
  then show ?thesis by (rule denied_attribute_empties_result)
qed

text \<open>
  C13 (functional). The sort of \<^verbatim>\<open>get_top_processes\<close> is stable, so ties in
  \<^verbatim>\<open>cpu_percent\<close> keep the enumeration order: when the process table is enumerated by
  ascending pid, the result is ordered by decreasing CPU share and, among equal
  shares, by ascending pid.
\<close>

theorem top_ties_by_pid:
  assumes "get_top_processes tbl limit = Inr (ps, rep)"
    and "sorted (map info_pid (observations (second_pass tbl)))"
  shows "sorted_wrt (\<lambda>p q. cpu_percent q < cpu_percent p \<or>
     cpu_percent p = cpu_percent q \<and> pid p \<le> pid q) ps"
proof -
  have "sorted (map pid (kept (cpu_count tbl) (second_pass tbl)))"
    using assms(2) by (simp add: map_pid_kept sorted_filter)
  then have "sorted_wrt (\<lambda>p q. pid p \<le> pid q) (kept (cpu_count tbl) (second_pass tbl))"
    by (simp add: sorted_map)
  then have "sorted_wrt (\<lambda>p q. cpu_percent q < cpu_percent p \<or>
     cpu_percent p = cpu_percent q \<and> pid p \<le> pid q) (ranked tbl)"
    unfolding ranked_def by (rule sort_desc_lex)
  with get_top_processes_InrD [OF assms(1)] show ?thesis
    by (auto intro: sorted_wrt_slice_to)
qed

theorem top_ties_by_pid_witness:
  "sorted_wrt (\<lambda>p q. cpu_percent q < cpu_percent p \<or>
     cpu_percent p = cpu_percent q \<and> pid p \<le> pid q) [chrome_process, bash_process]"
proof -
  have "sorted (map info_pid (observations (second_pass two_core)))"
    by (simp add: example_defs)
  with top_two_core show ?thesis by (rule top_ties_by_pid)
qed

text \<open>
  C14 (bounds). When psutil is present and no exception leaves the two passes, a
  non-negative \<open>limit\<close> yields exactly \<open>min limit k\<close> entries, \<open>k\<close> the number of
  processes collected, and no error report.
\<close>

theorem top_length:
  assumes "has_psutil tbl" and "escaping tbl = None" and "0 \<le> limit"
  shows "\<exists>ps. get_top_processes tbl limit = Inr (ps, None) \<and>
     length ps = min (nat limit) (length (kept (cpu_count tbl) (second_pass tbl)))"
  using assms by (simp add: get_top_processes_eq length_slice_to ranked_def)

theorem top_length_witness:
  "\<exists>ps. get_top_processes two_core 1 = Inr (ps, None) \<and> length ps = 1"
proof -
  have "has_psutil two_core" and "(0::int) \<le> 1" by (simp_all add: two_core_def)
  from top_length [OF this(1) escaping_two_core this(2)] show ?thesis
    by (simp add: kept_two_core)
qed

text \<open>
  C11 (type). A table is well typed when every \<^verbatim>\<open>proc.info\<close> holds a name, a memory
  record and a CPU percentage rather than \<^verbatim>\<open>None\<close>, and \<^verbatim>\<open>psutil.cpu_count()\<close> is a
  non-zero integer. On a well-typed table \<^verbatim>\<open>get_top_processes\<close> does not go wrong by
  itself: whatever error it reports or lets out was raised by psutil at some process
  of one of the two passes, never by an attribute access or a division of the method.
\<close>

theorem typed_table_sound:
  assumes "typed_table tbl"
    and "get_top_processes tbl limit = Inr (ps, Some e) \<or> get_top_processes tbl limit = Inl e"
  shows "e \<in> set (raised (first_pass tbl)) \<or> e \<in> set (raised (second_pass tbl))"
proof -
  from assms(2) have "escaping tbl = Some e"
    by (auto simp: get_top_processes_eq on_error_def split: if_splits option.splits)
  moreover from assms(1) obtain n where n: "cpu_count tbl = Some n" "n \<noteq> 0"
    and t: "list_all well_typed (observations (second_pass tbl))"
    by (auto simp: typed_table_def split: option.splits)
  ultimately have "first_raise (first_pass tbl) = Some e \<or> first_raise (second_pass tbl) = Some e"
    using first_raise_outcome_typed [OF t n(2)]
    by (auto simp: escaping_def split: option.splits)
  then show ?thesis by (auto dest: first_raise_raised)
qed

theorem typed_table_sound_witness:
  "typed_table interrupted \<and> get_top_processes interrupted 10 = Inl KeyboardInterrupt \<and>
   KeyboardInterrupt \<in> set (raised (second_pass interrupted))"
proof -
  have t: "typed_table interrupted"
    by (simp add: typed_table_def well_typed_def interrupted_def example_defs)
  have "escaping interrupted = Some KeyboardInterrupt"
    by (simp add: escaping_def interrupted_def example_defs py_eval)
  then have g: "get_top_processes interrupted 10 = Inl KeyboardInterrupt"
    by (simp add: get_top_processes_eq on_error_def interrupted_def two_core_def)
  have "raised (first_pass interrupted) = [AccessDenied]"
    by (simp add: interrupted_def example_defs)
  with typed_table_sound [OF t, of 10 "[]" KeyboardInterrupt] t g show ?thesis by simp
qed

end
