(* ===== verification/Process_Display.thy ===== *)
theory Process_Display
  imports Process_Ranker
begin

text \<open>
  \<^verbatim>\<open>SystemMonitor.display_processes\<close> (\<^verbatim>\<open>src/tools/system_monitor.py\<close>, lines 271-295): the
  table of processes and its line of totals. What the method prints is modelled as
  the list of the strings passed to \<^verbatim>\<open>print\<close>, one per call; the in-place sort of the
  argument is the local \<open>sort_desc\<close>.

  \<^item> \<open>display_name\<close> is the truncation of long names, \<open>process_row\<close> the f-string of one
    table row, \<open>total_row\<close> the f-string of the totals, \<open>display_processes\<close> the method.
    \<^verbatim>\<open>len\<close>, the slice of a name and the padding of the columns count characters, that
    is code points of the UTF-8 text (\<open>py_len\<close>, \<open>take_chars\<close>).
  \<^item> The two \<^verbatim>\<open>sum\<close> calls are float additions from the left (\<open>py_sum\<close>); \<open>shown_tenths\<close>
    is the exact sum of the tenths the rows show, and \<open>summable\<close> the size of argument for
    which the rounding of the float sum cannot reach the printed digit.
  \<^item> The lemmas give the shape of the output (number of lines, width of the name
    column), and show that the totals are those of the whole argument while the rows
    are those of its first ten entries.
\<close>

section \<open>Operations\<close>

definition display_name :: "string \<Rightarrow> string" where
  "display_name nm = (if py_len nm \<le> 22 then nm else take_chars 19 nm @ ''...'')"

definition process_row :: "nat \<Rightarrow> ProcessInfo \<Rightarrow> string" where
  "process_row i proc =
     rjust 2 (show_nat i) @ ''. '' @ ljust 25 (display_name (name proc)) @
     rjust 7 (fmt_f1 (cpu_percent proc)) @ ''%'' @
     rjust 10 (fmt_f1 (memory_mb proc)) @ rjust 10 (show_int (pid proc))"

definition table_header :: string where
  "table_header =
     newline # ljust 4 [] @ ljust 25 ''Process'' @ rjust 8 ''CPU %'' @
     rjust 12 ''Memory (MB)'' @ rjust 10 ''PID''"

definition rule_line :: string where
  "rule_line = replicate 60 CHR ''-''"

definition total_cpu :: "ProcessInfo list \<Rightarrow> pyfloat" where
  "total_cpu processes = py_sum (map cpu_percent processes)"

definition total_mem :: "ProcessInfo list \<Rightarrow> pyfloat" where
  "total_mem processes = py_sum (map memory_mb processes)"

definition total_row :: "ProcessInfo list \<Rightarrow> string" where
  "total_row processes =
     rjust 29 ''Total:'' @ rjust 7 (fmt_f1 (total_cpu processes)) @ ''%'' @
     rjust 10 (fmt_f1 (total_mem processes)) @ '' MB''"

definition display_processes :: "ProcessInfo list \<Rightarrow> string list" where
  "display_processes processes =
     (let sorted_processes = sort_desc cpu_percent processes;
          top_processes = slice_to sorted_processes 10
      in if top_processes = [] then [newline # ''No active processes found!'']
         else [table_header, rule_line] @
              map (\<lambda>(i, proc). process_row i proc) (enumerate 1 top_processes) @
              [rule_line, total_row sorted_processes])"

section \<open>Specification of the totals\<close>

definition shown_tenths :: "(ProcessInfo \<Rightarrow> pyfloat) \<Rightarrow> ProcessInfo list \<Rightarrow> rat" where
  "shown_tenths field ps = sum_list (map (nearest_tenth \<circ> field) ps)"

definition summable :: "(ProcessInfo \<Rightarrow> pyfloat) \<Rightarrow> ProcessInfo list \<Rightarrow> bool" where
  "summable field ps \<longleftrightarrow>
     list_all (\<lambda>p. is_rounded1 (field p) \<and> 0 \<le> field p) ps \<and> length ps \<le> 2 ^ 15 \<and>
     sum_list (map field ps) \<le> 2 ^ 31"

section \<open>Examples\<close>

definition long_process :: ProcessInfo where
  "long_process = \<lparr>name = ''com.apple.WebKit.WebContent'', cpu_percent = 25 / 2,
     memory_mb = 2048, pid = 4242\<rparr>"

definition accented_name :: string where
  "accented_name =
     ''Pr'' @ [CHR 0xC3, CHR 0xA9] @ ''f'' @ [CHR 0xC3, CHR 0xA9] @ ''rences Syst'' @
     [CHR 0xC3, CHR 0xA8] @ ''me helper''"

lemmas [py_eval] =
  display_name_def process_row_def table_header_def rule_line_def total_cpu_def
  total_mem_def total_row_def display_processes_def

section \<open>Names\<close>

lemma py_len_display_name: "py_len (display_name nm) \<le> 22"
  by (simp add: display_name_def py_len_take_chars)

lemma display_name_short: "py_len nm \<le> 22 \<Longrightarrow> display_name nm = nm"
  by (simp add: display_name_def)

lemma display_name_long:
  "22 < py_len nm \<Longrightarrow>
   display_name nm = take_chars 19 nm @ ''...'' \<and> py_len (display_name nm) = 22"
  by (simp add: display_name_def py_len_take_chars)

lemma display_name_ascii:
  "ascii nm \<Longrightarrow> display_name nm = (if length nm \<le> 22 then nm else take 19 nm @ ''...'')"
  by (simp add: display_name_def py_len_ascii take_chars_ascii)

text \<open>
  A name of 26 characters, three of them of two bytes in UTF-8, is cut after its 19th
  character, not after its 19th byte.
\<close>

lemma display_name_accented:
  "display_name accented_name =
     ''Pr'' @ [CHR 0xC3, CHR 0xA9] @ ''f'' @ [CHR 0xC3, CHR 0xA9] @ ''rences Syst'' @
     [CHR 0xC3, CHR 0xA8] @ ''me...''"
  "py_len accented_name = 26" "py_len (display_name accented_name) = 22"
  "length (display_name accented_name) = 25"
  by (simp_all add: display_name_def accented_name_def)

section \<open>Totals\<close>

lemma sum_list_sort_desc [simp]:
  fixes f :: "'a \<Rightarrow> rat"
  shows "sum_list (map f (sort_desc k ps)) = sum_list (map f ps)"
proof -
  have "sum_mset (image_mset f (mset (sort_desc k ps))) = sum_mset (image_mset f (mset ps))"
    by simp
  then show ?thesis by (metis mset_map sum_mset_sum_list)
qed

lemma shown_tenths_sort_desc [simp]: "shown_tenths field (sort_desc k ps) = shown_tenths field ps"
  by (simp add: shown_tenths_def)

lemma list_all_sort_desc [simp]: "list_all P (sort_desc k ps) = list_all P ps"
proof -
  have "set (sort_desc k ps) = set ps" by (metis mset_sort_desc set_mset_mset)
  then show ?thesis by (simp add: list_all_iff)
qed

lemma summable_sort_desc [simp]: "summable field (sort_desc k ps) = summable field ps"
  by (simp add: summable_def)

lemma fmt_f1_total:
  "summable field ps \<Longrightarrow> fmt_f1 (py_sum (map field ps)) = fmt_f1 (shown_tenths field ps)"
  using fmt_f1_py_sum [of "map field ps"]
  by (simp add: summable_def shown_tenths_def list_all_iff)

lemma sum_list_le_length:
  fixes f :: "'a \<Rightarrow> rat"
  assumes "\<And>x. x \<in> set xs \<Longrightarrow> f x \<le> b"
  shows "sum_list (map f xs) \<le> of_nat (length xs) * b"
  using assms by (induction xs) (auto simp: algebra_simps intro: add_mono)

lemma summable_bounded:
  assumes "\<And>p. p \<in> set ps \<Longrightarrow> is_rounded1 (field p) \<and> 0 \<le> field p \<and> field p \<le> 2 ^ 27"
    and "length ps \<le> 10"
  shows "summable field ps"
proof -
  from assms(1) have "sum_list (map field ps) \<le> of_nat (length ps) * 2 ^ 27"
    by (intro sum_list_le_length) simp
  also from assms(2) have "(of_nat (length ps) :: rat) * 2 ^ 27 \<le> of_nat 10 * 2 ^ 27"
    by (intro mult_right_mono) (simp_all only: of_nat_le_iff, simp)
  finally have "sum_list (map field ps) \<le> 2 ^ 31" by simp
  with assms show ?thesis by (auto simp: summable_def list_all_iff)
qed

section \<open>Shape of the output\<close>

lemma display_processes_Nil: "display_processes [] = [newline # ''No active processes found!'']"
  by (simp add: display_processes_def)

lemma display_processes_nonempty:
  "ps \<noteq> [] \<Longrightarrow> display_processes ps =
     [table_header, rule_line] @
     map (\<lambda>(i, proc). process_row i proc) (enumerate 1 (take 10 (sort_desc cpu_percent ps))) @
     [rule_line, total_row (sort_desc cpu_percent ps)]"
proof -
  assume "ps \<noteq> []"
  then have "sort_desc cpu_percent ps \<noteq> []"
    by (metis length_0_conv length_sort_desc)
  then show ?thesis
    by (simp add: display_processes_def Let_def slice_to_def)
qed

lemma length_display_processes:
  "length (display_processes ps) = (if ps = [] then 1 else min 10 (length ps) + 4)"
  by (simp add: display_processes_Nil display_processes_nonempty min_def)

lemma sort_desc_two:
  "sort_desc cpu_percent [bash_process, chrome_process] = [chrome_process, bash_process]"
  by (simp add: sort_desc_def chrome_process_def bash_process_def float_compute)

lemma display_two:
  "display_processes [bash_process, chrome_process] =
     [table_header, rule_line, process_row 1 chrome_process, process_row 2 bash_process,
      rule_line, total_row [chrome_process, bash_process]]"
  by (simp add: display_processes_nonempty sort_desc_two numeral_2_eq_2)

section \<open>Properties of \<open>display_processes\<close>\<close>

text \<open>
  C36 (functional). The last line \<^verbatim>\<open>display_processes\<close> prints for a non-empty
  argument carries the totals of the whole argument, whether or not an entry is
  among the ten rows shown, and the rounding errors of the float sums do not show:
  for at most \<open>2\<^sup>1\<^sup>5\<close> entries whose figures are non-negative floats nearest to a tenth
  (as \<^verbatim>\<open>round(x, 1)\<close> leaves them) and sum up to at most \<open>2\<^sup>3\<^sup>1\<close>, the line shows exactly
  the sum of the tenths, that is of the figures as the rows print them.
\<close>

theorem display_totals_cover_argument:
  assumes "ps \<noteq> []" and "summable cpu_percent ps" and "summable memory_mb ps"
  shows "last (display_processes ps) =
     rjust 29 ''Total:'' @ rjust 7 (fmt_f1 (shown_tenths cpu_percent ps)) @ ''%'' @
     rjust 10 (fmt_f1 (shown_tenths memory_mb ps)) @ '' MB''"
  using assms
  by (simp add: display_processes_nonempty total_row_def total_cpu_def total_mem_def
      fmt_f1_total)

theorem display_totals_cover_argument_witness:
  "last (display_processes [bash_process, chrome_process]) =
     ''                       Total:   51.2%     118.7 MB''"
proof -
  have "[bash_process, chrome_process] \<noteq> []" by simp
  moreover have "summable cpu_percent [bash_process, chrome_process]"
    and "summable memory_mb [bash_process, chrome_process]"
    by (simp_all add: summable_def is_rounded1_def chrome_process_def bash_process_def py_eval)
  ultimately show ?thesis
    by (simp add: display_totals_cover_argument)
      (simp add: shown_tenths_def chrome_process_def bash_process_def py_eval)
qed

text \<open>
  C38 (bounds). The columns of the table line up: for a row number below 100, a CPU
  share and a memory figure that fit their columns and a pid of at most ten digits,
  \<^verbatim>\<open>display_processes\<close> prints a row of exactly 57 characters, whatever the process
  name and its length (a name of more than 22 characters is cut to 19 and three dots).
  Characters are code points, as Python counts them.
\<close>

theorem row_width:
  assumes "i < 100" and "0 \<le> cpu_percent proc" and "cpu_percent proc \<le> 99999"
    and "0 \<le> memory_mb proc" and "memory_mb proc \<le> 99999999"
    and "0 \<le> pid proc" and "pid proc < 10 ^ 10"
  shows "py_len (process_row i proc) = 57"
proof -
  have i: "length (show_nat i) \<le> 2"
    using assms(1) by (intro length_show_nat_le) simp_all
  have c: "length (fmt_f1 (cpu_percent proc)) \<le> 7"
    using length_fmt_f1_le [of "cpu_percent proc" 5] assms(2,3) by simp
  have m: "length (fmt_f1 (memory_mb proc)) \<le> 10"
    using length_fmt_f1_le [of "memory_mb proc" 8] assms(4,5) by simp
  have "nat (pid proc) < 10 ^ 10"
    using assms(6,7) by (simp add: nat_less_iff)
  then have p: "length (show_int (pid proc)) \<le> 10"
    using assms(6) by (simp add: show_int_def length_show_nat_le)
  from i c m p py_len_display_name [of "name proc"] show ?thesis
    by (simp add: process_row_def max_def)
qed

theorem row_width_witness: "py_len (process_row 3 long_process) = 57"
proof -
  have "(3::nat) < 100" and "0 \<le> cpu_percent long_process"
    and "cpu_percent long_process \<le> 99999"
    and "0 \<le> memory_mb long_process" and "memory_mb long_process \<le> 99999999"
    and "0 \<le> pid long_process" and "pid long_process < 10 ^ 10"
    by (simp_all add: long_process_def)
  then show ?thesis by (rule row_width)
qed

lemma long_row:
  "process_row 3 long_process =
     '' 3. com.apple.WebKit.We...      12.5%    2048.0      4242''"
  by (simp add: long_process_def py_eval)

end
