(* ===== verification/Monitor_Loop.thy ===== *)
theory Monitor_Loop
  imports Section_Display Process_Display
begin

text \<open>
  \<^verbatim>\<open>SystemMonitor.monitor_once\<close> (\<^verbatim>\<open>src/tools/system_monitor.py\<close>, lines 299-316),
  \<^verbatim>\<open>SystemMonitor.monitor_continuous\<close> (lines 320-328), \<^verbatim>\<open>main\<close> (lines 331-347) and the
  statements of the module itself (lines 13-18 and 350-351).

  \<^item> A \<open>machine\<close> is the host at the time of one capture: \<^verbatim>\<open>HAS_PSUTIL\<close>, \<^verbatim>\<open>self.system\<close>
    (set by \<^verbatim>\<open>__init__\<close>), the answers each probe receives, and the text \<^verbatim>\<open>str(e)\<close> of
    an exception. \<^verbatim>\<open>HAS_PSUTIL\<close> and \<^verbatim>\<open>self.system\<close> are one value for the whole program:
    \<open>cpu_of\<close>, \<open>memory_of\<close>, \<open>disks_of\<close> and \<open>processes_of\<close> put them into the host of each
    probe.
  \<^item> \<open>monitor_once\<close> is the sequence of the sections; it stops at the first exception.
  \<^item> \<open>monitor_continuous\<close> runs over the list of the rounds observed: for each round
    the machine at that time and what happens during \<^verbatim>\<open>time.sleep\<close> (it returns, or an
    exception such as the interrupt arrives). The output is one frame per round,
    \<^verbatim>\<open>os.system('clear')\<close> separating the frames. The loop has no exit of its own: when
    the rounds observed are used up the status is \<open>Looping\<close>; \<open>Returned\<close> and \<open>Raised\<close>
    are the two ways it ends. The same loop is given as a step relation on
    configurations (\<open>step\<close>, computed by \<open>next_config\<close>), with the function as its
    unique run.
  \<^item> \<open>main\<close> gets \<^verbatim>\<open>sys.argv\<close> and the rounds, and returns what it printed before the
    monitor started, the frames and the status. \<open>interval_text\<close> reads the number a
    refresh line announces, for the statement that it is the interval parsed.
  \<^item> \<open>script\<close> is the module run from its first line (lines 13-18 and 350-351):
    \<open>import_psutil\<close> is the \<^verbatim>\<open>try\<close> around the import, which sets \<^verbatim>\<open>HAS_PSUTIL\<close> and prints
    the warning; the outcome of the import (done, \<^verbatim>\<open>ImportError\<close>, or another exception,
    which nothing catches) and whether \<^verbatim>\<open>__name__\<close> is \<^verbatim>\<open>"__main__"\<close> are inputs. The flag the
    import sets replaces \<open>psutil_present\<close> in every round (\<open>with_psutil\<close>).
\<close>

section \<open>One capture\<close>

record machine =
  psutil_present :: bool
  system_name :: string
  platform_info :: platform_host
  cpu :: cpu_host
  memory :: memory_host
  disks :: disk_host
  process_table :: proc_table
  message_of :: "exn \<Rightarrow> string"

definition cpu_of :: "machine \<Rightarrow> cpu_host" where
  "cpu_of m = (cpu m)\<lparr>cpu_has_psutil := psutil_present m, cpu_system := system_name m\<rparr>"

definition memory_of :: "machine \<Rightarrow> memory_host" where
  "memory_of m = (memory m)\<lparr>mem_has_psutil := psutil_present m\<rparr>"

definition disks_of :: "machine \<Rightarrow> disk_host" where
  "disks_of m = (disks m)\<lparr>disk_has_psutil := psutil_present m, system := system_name m\<rparr>"

definition processes_of :: "machine \<Rightarrow> proc_table" where
  "processes_of m = (process_table m)\<lparr>has_psutil := psutil_present m\<rparr>"

definition warning_sign :: string where
  "warning_sign = [CHR 0xE2, CHR 0x9A, CHR 0xA0, CHR 0xEF, CHR 0xB8, CHR 0x8F]"

definition error_line :: "string \<Rightarrow> string" where
  "error_line msg = newline # warning_sign @ ''  Error getting process info: '' @ msg"

definition process_section :: "(exn \<Rightarrow> string) \<Rightarrow> proc_table \<Rightarrow> printed" where
  "process_section msg tbl =
     (case get_top_processes tbl 10 of
        Inl e \<Rightarrow> ([], Some e)
      | Inr (processes, reported) \<Rightarrow>
          ((case reported of None \<Rightarrow> [] | Some e \<Rightarrow> [error_line (msg e)]) @
           display_processes processes, None))"

definition monitor_once :: "machine \<Rightarrow> printed" where
  "monitor_once m =
     in_order
       [display_header (platform_info m) (system_name m),
        display_cpu_info (get_cpu_info (cpu_of m)),
        display_memory_info (get_memory_info (memory_of m)),
        (display_disk_info (get_disk_info (disks_of m)), None),
        process_section (message_of m) (processes_of m),
        say (Inr double_rule)]"

definition sections_before_processes :: "machine \<Rightarrow> string list" where
  "sections_before_processes m =
     fst (display_header (platform_info m) (system_name m)) @
     fst (display_cpu_info (get_cpu_info (cpu_of m))) @
     fst (display_memory_info (get_memory_info (memory_of m))) @
     display_disk_info (get_disk_info (disks_of m))"

section \<open>The loop\<close>

datatype status = Looping | Returned | Raised exn

type_synonym frame = "string list"

type_synonym round = "machine \<times> unit raises"

definition stopwatch_sign :: string where
  "stopwatch_sign = [CHR 0xE2, CHR 0x8F, CHR 0xB1, CHR 0xEF, CHR 0xB8, CHR 0x8F]"

definition wave_sign :: string where
  "wave_sign = [CHR 0xF0, CHR 0x9F, CHR 0x91, CHR 0x8B]"

definition bulb_sign :: string where
  "bulb_sign = [CHR 0xF0, CHR 0x9F, CHR 0x92, CHR 0xA1]"

definition refresh_line :: "int \<Rightarrow> string" where
  "refresh_line interval =
     newline # stopwatch_sign @ ''  Refreshing every '' @ show_int interval @
     '' seconds... Press Ctrl+C to stop''"

definition goodbye_line :: string where
  "goodbye_line = [newline, newline] @ wave_sign @ '' Monitoring stopped. Goodbye!''"

definition sleep :: "int \<Rightarrow> unit raises \<Rightarrow> unit raises" where
  "sleep interval nap = (if interval < 0 then Inl ValueError else nap)"

definition once_round :: "int \<Rightarrow> round \<Rightarrow> frame \<times> exn option" where
  "once_round interval r =
     (case monitor_once (fst r) of
        (lines, Some e) \<Rightarrow> (lines, Some e)
      | (lines, None) \<Rightarrow>
          (case sleep interval (snd r) of
             Inl e \<Rightarrow> (lines @ [refresh_line interval], Some e)
           | Inr u \<Rightarrow> (lines @ [refresh_line interval], None)))"

definition leave :: "frame \<Rightarrow> exn \<Rightarrow> frame list \<times> status" where
  "leave shown e =
     (if e = KeyboardInterrupt then ([shown @ [goodbye_line]], Returned)
      else ([shown], Raised e))"

fun monitor_continuous :: "int \<Rightarrow> round list \<Rightarrow> frame list \<times> status" where
  "monitor_continuous interval [] = ([], Looping)"
| "monitor_continuous interval (r # rounds) =
     (case once_round interval r of
        (shown, Some e) \<Rightarrow> leave shown e
      | (shown, None) \<Rightarrow>
          (case monitor_continuous interval rounds of
             (frames, st) \<Rightarrow> (shown # frames, st)))"

section \<open>The command line\<close>

record session =
  preface :: "string list"
  frames :: "frame list"
  ending :: status

definition invalid_line :: string where
  "invalid_line = warning_sign @ ''  Invalid interval. Using default of 2 seconds.''"

definition hint_lines :: "string list" where
  "hint_lines =
     [newline # bulb_sign @ '' For continuous monitoring, run:'',
      ''   python system_monitor.py --continuous [interval_seconds]'']"

definition interval_of :: "string list \<Rightarrow> (string list \<times> int) raises" where
  "interval_of argv =
     (if length argv > 2 then
        (case py_int (argv ! 2) of
           Inr i \<Rightarrow> Inr ([], i)
         | Inl e \<Rightarrow> if e = ValueError then Inr ([invalid_line], 2) else Inl e)
      else Inr ([], 2))"

definition main :: "string list \<Rightarrow> round \<Rightarrow> round list \<Rightarrow> session" where
  "main argv r rounds =
     (if length argv > 1 \<and> argv ! 1 = ''--continuous'' then
        (case interval_of argv of
           Inl e \<Rightarrow> \<lparr>preface = [], frames = [], ending = Raised e\<rparr>
         | Inr (said, interval) \<Rightarrow>
             (case monitor_continuous interval (r # rounds) of
                (shown, st) \<Rightarrow> \<lparr>preface = said, frames = shown, ending = st\<rparr>))
      else
        (case monitor_once (fst r) of
           (lines, Some e) \<Rightarrow> \<lparr>preface = [], frames = [lines], ending = Raised e\<rparr>
         | (lines, None) \<Rightarrow>
             \<lparr>preface = [], frames = [lines @ hint_lines], ending = Returned\<rparr>))"


section \<open>The module\<close>

definition psutil_warning :: string where
  "psutil_warning =
     warning_sign @ ''  Warning: psutil not found. Using limited monitoring capabilities.''"

definition import_psutil :: "unit raises \<Rightarrow> (bool \<times> string list) raises" where
  "import_psutil found =
     (case found of
        Inr u \<Rightarrow> Inr (True, [])
      | Inl e \<Rightarrow> if e = ImportError then Inr (False, [psutil_warning]) else Inl e)"

definition with_psutil :: "bool \<Rightarrow> round \<Rightarrow> round" where
  "with_psutil flag r = ((fst r)\<lparr>psutil_present := flag\<rparr>, snd r)"

definition script ::
  "unit raises \<Rightarrow> bool \<Rightarrow> string list \<Rightarrow> round \<Rightarrow> round list \<Rightarrow> session" where
  "script found as_main argv r rounds =
     (case import_psutil found of
        Inl e \<Rightarrow> \<lparr>preface = [], frames = [], ending = Raised e\<rparr>
      | Inr (flag, said) \<Rightarrow>
          if as_main then
            (let s = main argv (with_psutil flag r) (map (with_psutil flag) rounds)
             in s\<lparr>preface := said @ preface s\<rparr>)
          else \<lparr>preface = said, frames = [], ending = Returned\<rparr>)"

section \<open>The loop as a state machine\<close>

datatype control = At_capture | At_sleep | Stopped | Crashed exn

type_synonym config = "frame list \<times> round list \<times> control"

fun status_of :: "control \<Rightarrow> status" where
  "status_of At_capture = Looping"
| "status_of At_sleep = Looping"
| "status_of Stopped = Returned"
| "status_of (Crashed e) = Raised e"

definition say_goodbye :: "frame list \<Rightarrow> frame list" where
  "say_goodbye fs = butlast fs @ [last fs @ [goodbye_line]]"

inductive step :: "int \<Rightarrow> config \<Rightarrow> config \<Rightarrow> bool" for interval :: int where
  capture:
    "monitor_once (fst r) = (lines, None) \<Longrightarrow>
     step interval (fs, r # rs, At_capture) (fs @ [lines @ [refresh_line interval]], r # rs, At_sleep)"
| capture_interrupt:
    "monitor_once (fst r) = (lines, Some KeyboardInterrupt) \<Longrightarrow>
     step interval (fs, r # rs, At_capture) (fs @ [lines @ [goodbye_line]], rs, Stopped)"
| capture_crash:
    "monitor_once (fst r) = (lines, Some e) \<Longrightarrow> e \<noteq> KeyboardInterrupt \<Longrightarrow>
     step interval (fs, r # rs, At_capture) (fs @ [lines], rs, Crashed e)"
| wake:
    "sleep interval (snd r) = Inr u \<Longrightarrow>
     step interval (fs, r # rs, At_sleep) (fs, rs, At_capture)"
| sleep_interrupt:
    "sleep interval (snd r) = Inl KeyboardInterrupt \<Longrightarrow>
     step interval (fs, r # rs, At_sleep) (say_goodbye fs, rs, Stopped)"
| sleep_crash:
    "sleep interval (snd r) = Inl e \<Longrightarrow> e \<noteq> KeyboardInterrupt \<Longrightarrow>
     step interval (fs, r # rs, At_sleep) (fs, rs, Crashed e)"

fun next_config :: "int \<Rightarrow> config \<Rightarrow> config option" where
  "next_config interval (fs, [], ctl) = None"
| "next_config interval (fs, r # rs, At_capture) =
     (case monitor_once (fst r) of
        (lines, None) \<Rightarrow> Some (fs @ [lines @ [refresh_line interval]], r # rs, At_sleep)
      | (lines, Some e) \<Rightarrow>
          if e = KeyboardInterrupt then Some (fs @ [lines @ [goodbye_line]], rs, Stopped)
          else Some (fs @ [lines], rs, Crashed e))"
| "next_config interval (fs, r # rs, At_sleep) =
     (case sleep interval (snd r) of
        Inr u \<Rightarrow> Some (fs, rs, At_capture)
      | Inl e \<Rightarrow>
          if e = KeyboardInterrupt then Some (say_goodbye fs, rs, Stopped)
          else Some (fs, rs, Crashed e))"
| "next_config interval (fs, r # rs, Stopped) = None"
| "next_config interval (fs, r # rs, Crashed e) = None"

inductive reachable :: "int \<Rightarrow> round list \<Rightarrow> config \<Rightarrow> bool"
  for interval :: int and rounds :: "round list" where
  start: "reachable interval rounds ([], rounds, At_capture)"
| next_step: "reachable interval rounds c \<Longrightarrow> step interval c c' \<Longrightarrow> reachable interval rounds c'"

definition refreshed :: "int \<Rightarrow> frame \<Rightarrow> bool" where
  "refreshed interval f \<longleftrightarrow> f \<noteq> [] \<and> last f = refresh_line interval"

fun loop_invariant :: "int \<Rightarrow> round list \<Rightarrow> config \<Rightarrow> bool" where
  "loop_invariant interval rounds (fs, rs, At_capture) \<longleftrightarrow>
     suffix rs rounds \<and> length fs + length rs = length rounds \<and>
     list_all (refreshed interval) fs"
| "loop_invariant interval rounds (fs, rs, At_sleep) \<longleftrightarrow>
     suffix rs rounds \<and> rs \<noteq> [] \<and> length fs + length rs = length rounds + 1 \<and>
     fs \<noteq> [] \<and> list_all (refreshed interval) fs"
| "loop_invariant interval rounds (fs, rs, Stopped) \<longleftrightarrow>
     suffix rs rounds \<and> fs \<noteq> [] \<and> list_all (refreshed interval) (butlast fs) \<and>
     last (last fs) = goodbye_line"
| "loop_invariant interval rounds (fs, rs, Crashed e) \<longleftrightarrow>
     suffix rs rounds \<and> fs \<noteq> [] \<and> list_all (refreshed interval) (butlast fs) \<and>
     e \<noteq> KeyboardInterrupt"

fun final :: "config \<Rightarrow> bool" where
  "final (fs, rs, At_capture) \<longleftrightarrow> rs = []"
| "final (fs, rs, At_sleep) \<longleftrightarrow> False"
| "final (fs, rs, Stopped) \<longleftrightarrow> True"
| "final (fs, rs, Crashed e) \<longleftrightarrow> True"

section \<open>Example machines\<close>

definition laptop :: machine where
  "laptop =
     \<lparr>psutil_present = True, system_name = ''Linux'', platform_info = this_platform,
      cpu = linux_cpu, memory = no_swap_host, disks = three_mounts,
      process_table = two_core, message_of = (\<lambda>e. ''unreadable'')\<rparr>"

definition bare_laptop :: machine where
  "bare_laptop = laptop\<lparr>psutil_present := False\<rparr>"

definition quiet :: "machine \<Rightarrow> round" where
  "quiet m = (m, Inr ())"

definition ctrl_c :: "machine \<Rightarrow> round" where
  "ctrl_c m = (m, Inl KeyboardInterrupt)"

lemmas [py_eval] =
  cpu_of_def memory_of_def disks_of_def processes_of_def warning_sign_def error_line_def
  process_section_def monitor_once_def refresh_line_def goodbye_line_def sleep_def
  once_round_def leave_def invalid_line_def hint_lines_def interval_of_def main_def

section \<open>What leaves a capture\<close>

lemma display_cpu_of_get:
  "display_cpu_info (get_cpu_info h) =
     (if samples_fine h then display_cpu_info (get_cpu_info h)
      else ([], Some (KeyError ''physical_cores'')))"
  by (cases h rule: get_cpu_info_cases) (simp_all add: display_cpu_fallback)

lemma display_cpu_fine:
  "samples_fine h \<Longrightarrow> snd (display_cpu_info (get_cpu_info h)) = None"
  by (cases h rule: get_cpu_info_cases) (simp_all add: display_cpu_psutil)

lemma display_memory_fine: "snd (display_memory_info (get_memory_info h)) = None"
  by (cases h rule: memory_cases) (simp_all add: display_memory_unknown display_memory_dict)

lemma length_display_memory: "length (fst (display_memory_info (get_memory_info h))) = 3"
  by (cases h rule: memory_cases) (simp_all add: display_memory_unknown display_memory_dict)

lemma process_section_cases:
  obtains (interrupt) "process_section msg tbl = ([], Some KeyboardInterrupt)"
  | (shown) lines where "process_section msg tbl = (lines, None)"
proof (cases "get_top_processes tbl 10")
  case (Inl e)
  then have "e = KeyboardInterrupt"
    by (auto simp: get_top_processes_eq on_error_def is_Exception_def
        split: if_splits option.splits)
  with Inl show ?thesis by (intro interrupt) (simp add: process_section_def)
next
  case (Inr res)
  then show ?thesis by (cases res) (auto simp: process_section_def intro: shown)
qed

lemma samples_fine_cpu_of:
  "samples_fine (cpu_of m) \<longleftrightarrow> psutil_present m \<and> samples_fine ((cpu m)\<lparr>cpu_has_psutil := True\<rparr>)"
  by (auto simp: samples_fine_def cpu_of_def)

lemma monitor_once_cpu_fails:
  assumes "\<not> samples_fine (cpu_of m)"
  shows "monitor_once m =
     (fst (display_header (platform_info m) (system_name m)),
      Some (KeyError ''physical_cores''))"
proof -
  from assms have "display_cpu_info (get_cpu_info (cpu_of m)) =
      ([], Some (KeyError ''physical_cores''))"
    by (subst display_cpu_of_get) simp
  then show ?thesis
    by (simp add: monitor_once_def display_header_fine)
qed

lemma monitor_once_cpu_fine:
  assumes "samples_fine (cpu_of m)"
  shows "monitor_once m =
     and_then (sections_before_processes m, None)
       (and_then (process_section (message_of m) (processes_of m)) ([double_rule], None))"
proof -
  obtain ls where cpu: "display_cpu_info (get_cpu_info (cpu_of m)) = (ls, None)"
    using display_cpu_fine [OF assms] by (cases "display_cpu_info (get_cpu_info (cpu_of m))") auto
  obtain ms where mem: "display_memory_info (get_memory_info (memory_of m)) = (ms, None)"
    using display_memory_fine [of "memory_of m"]
    by (cases "display_memory_info (get_memory_info (memory_of m))") auto
  show ?thesis
    by (simp add: monitor_once_def sections_before_processes_def display_header_fine cpu mem
        and_then_def silent_def split: option.splits)
qed

lemma monitor_once_cases:
  obtains (key_error) "\<not> samples_fine (cpu_of m)"
      "monitor_once m = (fst (display_header (platform_info m) (system_name m)),
         Some (KeyError ''physical_cores''))"
  | (interrupt) "samples_fine (cpu_of m)"
      "monitor_once m = (sections_before_processes m, Some KeyboardInterrupt)"
  | (complete) lines where "samples_fine (cpu_of m)"
      "process_section (message_of m) (processes_of m) = (lines, None)"
      "monitor_once m = (sections_before_processes m @ lines @ [double_rule], None)"
proof (cases "samples_fine (cpu_of m)")
  case False
  then show ?thesis by (intro key_error monitor_once_cpu_fails)
next
  case True
  show ?thesis
  proof (cases "message_of m" "processes_of m" rule: process_section_cases)
    case interrupt
    with True show ?thesis
      by (intro that(2)) (simp_all add: monitor_once_cpu_fine)
  next
    case (shown lines)
    with True show ?thesis
      by (intro complete [of lines]) (simp_all add: monitor_once_cpu_fine)
  qed
qed

section \<open>Rounds of the loop\<close>

lemma once_round_cases:
  obtains (snapshot_raises) lines e where "monitor_once (fst r) = (lines, Some e)"
      "once_round interval r = (lines, Some e)"
  | (sleep_raises) lines e where "monitor_once (fst r) = (lines, None)"
      "sleep interval (snd r) = Inl e"
      "once_round interval r = (lines @ [refresh_line interval], Some e)"
  | (fine) lines where "monitor_once (fst r) = (lines, None)"
      "sleep interval (snd r) = Inr ()"
      "once_round interval r = (lines @ [refresh_line interval], None)"
proof (cases "monitor_once (fst r)")
  case (Pair lines res)
  show ?thesis
  proof (cases res)
    case (Some e)
    with Pair show ?thesis by (intro snapshot_raises) (simp_all add: once_round_def)
  next
    case None
    with Pair show ?thesis
      by (cases "sleep interval (snd r)")
        (auto simp: once_round_def intro: sleep_raises fine)
  qed
qed

lemma leave_cases:
  obtains (goodbye) "e = KeyboardInterrupt" "leave shown e = ([shown @ [goodbye_line]], Returned)"
  | (crash) "e \<noteq> KeyboardInterrupt" "leave shown e = ([shown], Raised e)"
  by (cases "e = KeyboardInterrupt") (simp_all add: leave_def)

lemma monitor_continuous_fine:
  assumes "\<forall>r \<in> set rounds. snd (once_round interval r) = None"
  shows "monitor_continuous interval rounds = (map (\<lambda>r. fst (once_round interval r)) rounds, Looping)"
  using assms by (induction rounds) (auto split: prod.splits option.splits)

lemma monitor_continuous_ends:
  assumes "\<forall>r \<in> set before. snd (once_round interval r) = None"
    and "once_round interval r = (shown, Some e)"
  shows "monitor_continuous interval (before @ r # after) =
     (map (\<lambda>r. fst (once_round interval r)) before @ fst (leave shown e), snd (leave shown e))"
  using assms by (induction before) (auto split: prod.splits option.splits)

lemma first_failing_round:
  assumes "\<not> (\<forall>r \<in> set rounds. snd (once_round interval r) = None)"
  obtains before r after shown e where "rounds = before @ r # after"
    and "\<forall>r \<in> set before. snd (once_round interval r) = None"
    and "once_round interval r = (shown, Some e)"
proof -
  from assms obtain before r after where split: "rounds = before @ r # after"
    and b: "\<forall>r \<in> set before. snd (once_round interval r) = None"
    and r: "snd (once_round interval r) \<noteq> None"
    using split_list_first_prop [of rounds "\<lambda>r. snd (once_round interval r) \<noteq> None"]
    by auto
  from r obtain shown e where "once_round interval r = (shown, Some e)"
    by (cases "once_round interval r") auto
  with split b show ?thesis by (rule that)
qed

lemma length_frames_le: "length (fst (monitor_continuous interval rounds)) \<le> length rounds"
  by (induction rounds) (auto simp: leave_def split: prod.splits option.splits)

section \<open>Steps of the state machine\<close>

inductive_cases step_At_captureE: "step interval (fs, rs, At_capture) c'"

inductive_cases step_At_sleepE: "step interval (fs, rs, At_sleep) c'"

inductive_simps step_Stopped [simp]: "step interval (fs, rs, Stopped) c'"

inductive_simps step_Crashed [simp]: "step interval (fs, rs, Crashed e) c'"

inductive_simps step_Nil [simp]: "step interval (fs, [], ctl) c'"

lemma step_next: "step interval c c' \<Longrightarrow> next_config interval c = Some c'"
  by (induction rule: step.induct) simp_all

lemma next_config_step: "next_config interval c = Some c' \<Longrightarrow> step interval c c'"
proof (induction interval c rule: next_config.induct)
  case (2 interval fs r rs)
  then show ?case
    by (auto split: prod.splits option.splits if_splits intro: step.intros)
next
  case (3 interval fs r rs)
  then show ?case
    by (auto split: sum.splits if_splits intro: step.intros)
qed simp_all

lemma step_iff_next: "step interval c c' \<longleftrightarrow> next_config interval c = Some c'"
  by (blast intro: step_next next_config_step)

lemma step_deterministic:
  assumes "step interval c c1" and "step interval c c2"
  shows "c1 = c2"
  using assms by (simp add: step_iff_next)

lemma step_progress:
  assumes "ctl = At_capture \<or> ctl = At_sleep"
  shows "\<exists>c'. step interval (fs, r # rs, ctl) c'"
proof -
  have "\<exists>c'. step interval (fs, r # rs, At_capture) c'"
  proof (cases "monitor_once (fst r)")
    case (Pair lines res)
    show ?thesis
    proof (cases res)
      case None
      with Pair show ?thesis by (blast intro: capture)
    next
      case (Some e)
      with Pair show ?thesis
        by (cases "e = KeyboardInterrupt") (blast intro: capture_interrupt capture_crash)+
    qed
  qed
  moreover have "\<exists>c'. step interval (fs, r # rs, At_sleep) c'"
  proof (cases "sleep interval (snd r)")
    case (Inl e)
    then show ?thesis
      by (cases "e = KeyboardInterrupt") (blast intro: sleep_interrupt sleep_crash)+
  next
    case (Inr u)
    then show ?thesis by (blast intro: wake)
  qed
  ultimately show ?thesis using assms by auto
qed

lemma list_all_butlast: "list_all P xs \<Longrightarrow> list_all P (butlast xs)"
  by (auto simp: list_all_iff dest: in_set_butlastD)

lemma step_invariant:
  assumes "step interval c c'" and "loop_invariant interval rounds c"
  shows "loop_invariant interval rounds c'"
  using assms
  by (induction rule: step.induct)
    (auto simp: refreshed_def say_goodbye_def list_all_butlast dest: suffix_ConsD)

section \<open>The function is the run of the machine\<close>

lemma final_no_step: "final c \<Longrightarrow> \<not> step interval c c'"
  by (cases c rule: final.cases) auto

lemma reachable_iff_star:
  "reachable interval rounds c \<longleftrightarrow> rtranclp (step interval) ([], rounds, At_capture) c"
proof
  show "reachable interval rounds c \<Longrightarrow> rtranclp (step interval) ([], rounds, At_capture) c"
    by (induction rule: reachable.induct) auto
  show "rtranclp (step interval) ([], rounds, At_capture) c \<Longrightarrow> reachable interval rounds c"
    by (induction rule: rtranclp_induct) (auto intro: reachable.intros)
qed

lemma round_steps_fine:
  assumes "once_round interval r = (f, None)"
  shows "rtranclp (step interval) (fs, r # rs, At_capture) (fs @ [f], rs, At_capture)"
proof (cases rule: once_round_cases [where r = r and interval = interval])
  case (fine lines)
  with assms have "step interval (fs, r # rs, At_capture) (fs @ [f], r # rs, At_sleep)"
    "step interval (fs @ [f], r # rs, At_sleep) (fs @ [f], rs, At_capture)"
    by (auto intro: capture wake)
  then show ?thesis by (rule converse_rtranclp_into_rtranclp [OF _ r_into_rtranclp])
qed (use assms in simp_all)

lemma round_steps_leave:
  assumes "once_round interval r = (f, Some e)"
  shows "\<exists>ctl. rtranclp (step interval) (fs, r # rs, At_capture) (fs @ fst (leave f e), rs, ctl) \<and>
     status_of ctl = snd (leave f e) \<and> final (fs @ fst (leave f e), rs, ctl)"
proof (cases rule: once_round_cases [where r = r and interval = interval])
  case (snapshot_raises lines e')
  with assms have "step interval (fs, r # rs, At_capture)
      (fs @ fst (leave f e), rs, if e = KeyboardInterrupt then Stopped else Crashed e)"
    by (auto simp: leave_def intro: capture_interrupt capture_crash)
  then show ?thesis
    by (intro exI [of _ "if e = KeyboardInterrupt then Stopped else Crashed e"])
      (auto simp: leave_def)
next
  case (sleep_raises lines e')
  with assms have f: "f = lines @ [refresh_line interval]" and e: "e' = e" by simp_all
  from sleep_raises have 1: "step interval (fs, r # rs, At_capture) (fs @ [f], r # rs, At_sleep)"
    unfolding f by (intro capture)
  from sleep_raises e have 2: "step interval (fs @ [f], r # rs, At_sleep)
      (fs @ fst (leave f e), rs, if e = KeyboardInterrupt then Stopped else Crashed e)"
    using sleep_interrupt [of interval r "fs @ [f]" rs] sleep_crash [of interval r e "fs @ [f]" rs]
    by (auto simp: leave_def say_goodbye_def)
  from 1 2 show ?thesis
    by (intro exI [of _ "if e = KeyboardInterrupt then Stopped else Crashed e"])
      (auto simp: leave_def)
qed (use assms in simp_all)

lemma run_from:
  "\<exists>rs ctl. rtranclp (step interval) (fs, rounds, At_capture)
      (fs @ fst (monitor_continuous interval rounds), rs, ctl) \<and>
     status_of ctl = snd (monitor_continuous interval rounds) \<and>
     final (fs @ fst (monitor_continuous interval rounds), rs, ctl)"
proof (induction rounds arbitrary: fs)
  case Nil
  show ?case
    by (intro exI [of _ "[]"] exI [of _ At_capture]) simp
next
  case (Cons r rounds)
  obtain f res where r: "once_round interval r = (f, res)"
    by (cases "once_round interval r")
  show ?case
  proof (cases res)
    case (Some e)
    with r round_steps_leave [of interval r f e fs rounds] show ?thesis
      by auto
  next
    case None
    with r have "rtranclp (step interval) (fs, r # rounds, At_capture) (fs @ [f], rounds, At_capture)"
      by (intro round_steps_fine) simp
    with Cons.IH [of "fs @ [f]"] r None show ?thesis
      by (auto simp: split_beta intro: rtranclp_trans)
  qed
qed

lemma star_final_unique:
  assumes "rtranclp (step interval) a b" and "rtranclp (step interval) a c"
    and "final b" and "final c"
  shows "b = c"
  using assms
proof (induction rule: converse_rtranclp_induct)
  case base
  then show ?case by (auto elim: converse_rtranclpE dest: final_no_step)
next
  case (step x y)
  from step.prems(1) step.hyps(1) step.prems(3) have "rtranclp (step interval) y c"
    by (auto elim!: converse_rtranclpE [of _ x c] dest: final_no_step step_deterministic)
  with step show ?case by simp
qed

section \<open>The example machines\<close>

lemma laptop_views:
  "samples_fine (cpu_of laptop)" "processes_of laptop = two_core" "cpu_of laptop = linux_cpu"
  "memory_of laptop = no_swap_host" "disks_of laptop = three_mounts"
  "\<not> samples_fine (cpu_of bare_laptop)" "samples_fine linux_cpu"
  by (simp_all add: samples_fine_def cpu_of_def processes_of_def memory_of_def disks_of_def
      laptop_def bare_laptop_def linux_cpu_def two_core_def no_swap_host_def three_mounts_def)

lemma monitor_once_shown:
  assumes "samples_fine (cpu_of m)" and "get_top_processes (processes_of m) 10 = Inr (ps, rep)"
  shows "monitor_once m =
     (sections_before_processes m @
      (case rep of None \<Rightarrow> [] | Some e \<Rightarrow> [error_line (message_of m e)]) @
      display_processes ps @ [double_rule], None)"
  using assms by (simp add: monitor_once_cpu_fine process_section_def)

lemma monitor_once_laptop:
  "monitor_once laptop =
     (sections_before_processes laptop @ display_processes [chrome_process, bash_process] @
      [double_rule], None)"
  using monitor_once_shown [of laptop "[chrome_process, bash_process]" None]
  by (simp add: laptop_views top_two_core)

lemma once_round_quiet:
  assumes "0 \<le> interval" and "monitor_once m = (lines, None)"
  shows "once_round interval (quiet m) = (lines @ [refresh_line interval], None)"
  using assms by (simp add: once_round_def sleep_def quiet_def)

lemma once_round_bare:
  assumes "\<not> samples_fine (cpu_of (fst r))"
  shows "once_round interval r =
     (fst (display_header (platform_info (fst r)) (system_name (fst r))),
      Some (KeyError ''physical_cores''))"
  using assms by (simp add: once_round_def monitor_once_cpu_fails)

section \<open>Properties of \<open>monitor_once\<close>\<close>

text \<open>
  C26 (safety). Only two exceptions can leave \<^verbatim>\<open>monitor_once\<close>, whatever the host
  answers: the \<^verbatim>\<open>KeyError\<close> of the CPU section and an interrupt during the process scan.
  Every other failure of a probe is turned into a fallback value or a message.
\<close>

theorem monitor_once_exceptions:
  "snd (monitor_once m) = None \<or> snd (monitor_once m) = Some (KeyError ''physical_cores'') \<or>
   snd (monitor_once m) = Some KeyboardInterrupt"
  by (cases m rule: monitor_once_cases) simp_all

text \<open>
  C27 (functional). When the CPU sampling succeeds and the process scan returns,
  \<^verbatim>\<open>monitor_once\<close> prints, in this order, the header, the CPU lines, the memory lines, the
  disk lines, the error message of the process scan if it reported one, the process
  table, and a closing rule, and it raises nothing.
\<close>

theorem monitor_once_complete:
  assumes "samples_fine (cpu_of m)" and "get_top_processes (processes_of m) 10 = Inr (ps, rep)"
  shows "monitor_once m =
     (fst (display_header (platform_info m) (system_name m)) @
      fst (display_cpu_info (get_cpu_info (cpu_of m))) @
      fst (display_memory_info (get_memory_info (memory_of m))) @
      display_disk_info (get_disk_info (disks_of m)) @
      (case rep of None \<Rightarrow> [] | Some e \<Rightarrow> [error_line (message_of m e)]) @
      display_processes ps @ [replicate 60 CHR ''=''], None)"
  using assms
  by (simp add: monitor_once_cpu_fine process_section_def sections_before_processes_def
      double_rule_def)

theorem monitor_once_complete_witness:
  "monitor_once laptop =
     (fst (display_header this_platform ''Linux'') @
      fst (display_cpu_info (get_cpu_info linux_cpu)) @
      fst (display_memory_info (get_memory_info no_swap_host)) @
      display_disk_info (get_disk_info three_mounts) @
      display_processes [chrome_process, bash_process] @ [replicate 60 CHR ''=''], None)"
  using monitor_once_complete [of laptop "[chrome_process, bash_process]" None]
  by (simp add: laptop_views top_two_core) (simp add: laptop_def)

section \<open>Properties of \<open>monitor_continuous\<close>\<close>

text \<open>
  The function \<open>monitor_continuous\<close> computes the run of the state machine: from the
  initial configuration the machine reaches a final configuration whose frames and
  status are the result of the function, and this is the only final configuration it
  can reach. The invariant of the machine thus holds of what the function returns.
\<close>

lemma loop_refines_machine:
  "\<exists>c. reachable interval rounds c \<and> final c \<and>
     fst c = fst (monitor_continuous interval rounds) \<and>
     status_of (snd (snd c)) = snd (monitor_continuous interval rounds) \<and>
     (\<forall>c'. reachable interval rounds c' \<and> final c' \<longrightarrow> c' = c)"
proof -
  let ?fs = "fst (monitor_continuous interval rounds)"
  from run_from [of interval "[]" rounds] obtain rs ctl
    where star: "rtranclp (step interval) ([], rounds, At_capture) (?fs, rs, ctl)"
      and st: "status_of ctl = snd (monitor_continuous interval rounds)"
      and fin: "final (?fs, rs, ctl)"
    by (metis append_Nil)
  have uniq: "c' = (?fs, rs, ctl)" if "reachable interval rounds c' \<and> final c'" for c'
  proof -
    from that have "rtranclp (step interval) ([], rounds, At_capture) c'" and "final c'"
      by (simp_all add: reachable_iff_star)
    from this(1) star this(2) fin show ?thesis by (rule star_final_unique)
  qed
  from star have reach: "reachable interval rounds (?fs, rs, ctl)"
    by (simp add: reachable_iff_star)
  show ?thesis
  proof (intro exI [of _ "(?fs, rs, ctl)"] conjI allI impI)
    fix c' assume "reachable interval rounds c' \<and> final c'"
    then show "c' = (?fs, rs, ctl)" by (rule uniq)
  qed (use reach st fin in simp_all)
qed

lemma loop_refines_machine_witness:
  "\<exists>c. reachable 2 [quiet bare_laptop] c \<and> final c \<and>
     fst c = [fst (display_header this_platform ''Linux'')] \<and>
     status_of (snd (snd c)) = Raised (KeyError ''physical_cores'')"
proof -
  have run: "monitor_continuous 2 [quiet bare_laptop] =
      ([fst (display_header this_platform ''Linux'')], Raised (KeyError ''physical_cores''))"
    by (simp add: once_round_bare laptop_views quiet_def leave_def)
      (simp add: bare_laptop_def laptop_def)
  from loop_refines_machine [of 2 "[quiet bare_laptop]"] obtain c
    where "reachable 2 [quiet bare_laptop] c" "final c"
      "fst c = fst (monitor_continuous 2 [quiet bare_laptop])"
      "status_of (snd (snd c)) = snd (monitor_continuous 2 [quiet bare_laptop])"
    by blast
  then show ?thesis
    unfolding run by (intro exI [of _ c]) simp
qed

text \<open>
  C28 (invariant). Every configuration the loop reaches satisfies \<open>loop_invariant\<close>: the
  rounds left are a suffix of the rounds given; while the loop runs every frame shown
  ends with the refresh line and one round is used per frame; after an interrupt the
  last line shown is the goodbye line; an exception that ended the loop is not the
  interrupt; and in both final cases all frames but the last end with the refresh
  line.
\<close>

theorem loop_invariant_reachable:
  assumes "reachable interval rounds c"
  shows "loop_invariant interval rounds c"
  using assms by (induction rule: reachable.induct) (auto intro: step_invariant)

theorem loop_invariant_reachable_witness:
  "loop_invariant 2 [ctrl_c laptop]
     ([fst (monitor_once laptop) @ [refresh_line 2, goodbye_line]], [], Stopped)"
proof -
  let ?lines = "fst (monitor_once laptop)"
  have "step 2 ([], [ctrl_c laptop], At_capture)
      ([] @ [?lines @ [refresh_line 2]], [ctrl_c laptop], At_sleep)"
    by (rule capture) (simp add: ctrl_c_def monitor_once_laptop)
  with start have "reachable 2 [ctrl_c laptop]
      ([] @ [?lines @ [refresh_line 2]], [ctrl_c laptop], At_sleep)"
    by (rule next_step)
  moreover have "step 2 ([] @ [?lines @ [refresh_line 2]], [ctrl_c laptop], At_sleep)
      (say_goodbye ([] @ [?lines @ [refresh_line 2]]), [], Stopped)"
    by (rule sleep_interrupt) (simp add: ctrl_c_def sleep_def)
  ultimately have "reachable 2 [ctrl_c laptop]
      (say_goodbye ([] @ [?lines @ [refresh_line 2]]), [], Stopped)"
    by (rule next_step)
  then have "loop_invariant 2 [ctrl_c laptop]
      (say_goodbye ([] @ [?lines @ [refresh_line 2]]), [], Stopped)"
    by (rule loop_invariant_reachable)
  then show ?thesis by (simp add: say_goodbye_def)
qed

text \<open>
  C29 (liveness). An interrupt during the sleep of a round stops the loop cleanly: if
  the interval is not negative and the rounds before ran without exception,
  \<^verbatim>\<open>monitor_continuous\<close> shows one frame per round up to and including the interrupted
  one, ends the last frame with the goodbye line, and returns.
\<close>

theorem interrupt_stops_loop:
  assumes "0 \<le> interval"
    and "\<forall>r \<in> set before. snd (monitor_once (fst r)) = None \<and> snd r = Inr ()"
    and "monitor_once (fst r) = (lines, None)" and "snd r = Inl KeyboardInterrupt"
  shows "monitor_continuous interval (before @ r # after) =
     (map (\<lambda>r. fst (monitor_once (fst r)) @ [refresh_line interval]) before @
      [lines @ [refresh_line interval, goodbye_line]], Returned)"
proof -
  from assms(1,2) have "\<forall>r \<in> set before. once_round interval r =
      (fst (monitor_once (fst r)) @ [refresh_line interval], None)"
    by (auto simp: once_round_def sleep_def split: prod.splits)
  moreover from assms(1,3,4) have "once_round interval r =
      (lines @ [refresh_line interval], Some KeyboardInterrupt)"
    by (simp add: once_round_def sleep_def)
  ultimately show ?thesis
    by (subst monitor_continuous_ends [of before interval r _ KeyboardInterrupt])
      (auto simp: leave_def)
qed

theorem interrupt_stops_loop_witness:
  "monitor_continuous 2 [quiet laptop, ctrl_c laptop, quiet laptop] =
     ([fst (monitor_once laptop) @ [refresh_line 2],
       fst (monitor_once laptop) @ [refresh_line 2, goodbye_line]], Returned)"
  using interrupt_stops_loop [of 2 "[quiet laptop]" "ctrl_c laptop" "fst (monitor_once laptop)"
      "[quiet laptop]"]
  by (simp add: quiet_def ctrl_c_def monitor_once_laptop)

text \<open>
  C30 (termination). The loop has no exit of its own: \<^verbatim>\<open>monitor_continuous\<close> is still
  running after the rounds observed exactly when none of them raised, in the capture
  or in the sleep. It ends only by an exception.
\<close>

theorem loop_ends_only_by_exception:
  "snd (monitor_continuous interval rounds) = Looping \<longleftrightarrow>
     (\<forall>r \<in> set rounds. snd (once_round interval r) = None)"
proof (cases "\<forall>r \<in> set rounds. snd (once_round interval r) = None")
  case True
  then show ?thesis by (simp add: monitor_continuous_fine)
next
  case False
  then obtain before r after shown e where "rounds = before @ r # after"
    "\<forall>r \<in> set before. snd (once_round interval r) = None"
    "once_round interval r = (shown, Some e)"
    by (rule first_failing_round)
  with False show ?thesis
    by (cases e shown rule: leave_cases) (simp_all add: monitor_continuous_ends)
qed

theorem loop_ends_only_by_exception_witness:
  "snd (monitor_continuous 2 [quiet laptop, quiet laptop]) = Looping \<and>
   snd (monitor_continuous 2 [quiet laptop, quiet bare_laptop]) \<noteq> Looping"
  using loop_ends_only_by_exception [of 2 "[quiet laptop, quiet laptop]"]
    loop_ends_only_by_exception [of 2 "[quiet laptop, quiet bare_laptop]"]
  by (simp add: once_round_quiet [OF _ monitor_once_laptop] once_round_bare laptop_views
      quiet_def [of bare_laptop])

section \<open>Properties of \<open>main\<close>\<close>



text \<open>
  C31 (error). An interval argument that \<^verbatim>\<open>int\<close> rejects does not stop \<^verbatim>\<open>main\<close>: it prints
  one warning and then behaves as with no interval argument, that is with an interval
  of 2 seconds.
\<close>

theorem invalid_interval_defaults:
  assumes "py_int a = Inl e"
  shows "main (prog # ''--continuous'' # a # extra) r rounds =
     (main [prog, ''--continuous''] r rounds)\<lparr>preface := [invalid_line]\<rparr>"
  using assms py_int_raises [OF assms]
  by (simp add: main_def interval_of_def split: prod.splits)

theorem invalid_interval_defaults_witness:
  "main [''system_monitor.py'', ''--continuous'', ''2.5''] (quiet bare_laptop) [] =
     \<lparr>preface = [invalid_line], frames = [fst (display_header this_platform ''Linux'')],
      ending = Raised (KeyError ''physical_cores'')\<rparr>"
proof -
  have "py_int ''2.5'' = Inl ValueError" by (simp add: read_eval)
  from invalid_interval_defaults [where r = "quiet bare_laptop" and rounds = "[]"
      and extra = "[]" and prog = "''system_monitor.py''", OF this]
  show ?thesis
    by (simp add: main_def interval_of_def once_round_bare laptop_views leave_def quiet_def)
      (simp add: bare_laptop_def laptop_def)
qed

text \<open>
  C32 (error). \<^verbatim>\<open>main\<close> accepts a negative interval: \<^verbatim>\<open>int\<close> reads it, nothing checks
  its sign, and \<^verbatim>\<open>time.sleep\<close> raises \<^verbatim>\<open>ValueError\<close> after the first capture, which
  \<^verbatim>\<open>monitor_continuous\<close> does not catch. The program shows one frame and ends with the
  exception.
\<close>

theorem negative_interval_crashes:
  assumes "i < 0" and "monitor_once (fst r) = (lines, None)"
  shows "main [prog, ''--continuous'', show_int i] r rounds =
     \<lparr>preface = [], frames = [lines @ [refresh_line i]], ending = Raised ValueError\<rparr>"
  using assms
  by (simp add: main_def interval_of_def py_int_show_int once_round_def sleep_def leave_def)

theorem negative_interval_crashes_witness:
  "main [''system_monitor.py'', ''--continuous'', ''-5''] (quiet laptop) [] =
     \<lparr>preface = [], frames = [fst (monitor_once laptop) @ [refresh_line (- 5)]],
      ending = Raised ValueError\<rparr>"
proof -
  have "show_int (- 5) = ''-5''" by (simp add: py_eval)
  with negative_interval_crashes [of "- 5" "quiet laptop" "fst (monitor_once laptop)"
      "''system_monitor.py''" "[]"]
  show ?thesis by (simp add: quiet_def monitor_once_laptop)
qed



end
