(* ===== verification/Delta_Sampler.thy ===== *)
theory Delta_Sampler
  imports Process_Ranker
begin

text \<open>
  The sampler of the specification (\<^verbatim>\<open>spec.md\<close>, section 4.1) and what the ranker makes
  of its readings. The program has no code for it: psutil takes the two snapshots of
  accumulated CPU time, around the \<^verbatim>\<open>time.sleep(0.5)\<close> of \<^verbatim>\<open>get_top_processes\<close> (line
  174), and hands the program one percentage per process, which line 189 divides by
  the number of cores. The definitions here follow the words of the specification.

  \<^item> \<open>cpu_times\<close> is one snapshot: the accumulated busy time of each visible process.
  \<^item> \<open>elapsed_busy\<close> is the busy time between two snapshots, zero when the counter went
    down; \<open>reading\<close> the percentage of one core it amounts to over the wall time;
    \<open>core_share\<close> that percentage divided by the number of cores; \<open>sample\<close> the
    mapping of the specification, for the processes present in both snapshots.
  \<^item> The lemmas are the testable properties of the specification; the theorem bounds
    the distance between what \<^verbatim>\<open>get_top_processes\<close> reports and the share of the
    specification.
\<close>

section \<open>The sampler\<close>

type_synonym cpu_times = "(int \<times> rat) list"

definition elapsed_busy :: "rat \<Rightarrow> rat \<Rightarrow> rat" where
  "elapsed_busy t0 t1 = (if t1 < t0 then 0 else t1 - t0)"

definition reading :: "rat \<Rightarrow> rat \<Rightarrow> rat \<Rightarrow> pyfloat" where
  "reading t0 t1 wall = elapsed_busy t0 t1 / wall * 100"

definition core_share :: "rat \<Rightarrow> rat \<Rightarrow> rat \<Rightarrow> int \<Rightarrow> pyfloat" where
  "core_share t0 t1 wall cores = elapsed_busy t0 t1 / wall * 100 / of_int cores"

definition sample :: "cpu_times \<Rightarrow> cpu_times \<Rightarrow> rat \<Rightarrow> int \<Rightarrow> (int \<times> pyfloat) list" where
  "sample snap0 snap1 wall cores =
     List.map_filter
       (\<lambda>(k, t1). case map_of snap0 k of
          None \<Rightarrow> None
        | Some t0 \<Rightarrow> Some (k, core_share t0 t1 wall cores))
       snap1"

lemmas [py_eval] = elapsed_busy_def reading_def core_share_def sample_def

section \<open>The testable properties of the sampler\<close>

lemma core_share_reading: "core_share t0 t1 wall cores = reading t0 t1 wall / of_int cores"
  by (simp add: core_share_def reading_def)

lemma core_share_idle [simp]: "core_share t t wall cores = 0"
  by (simp add: core_share_def elapsed_busy_def)

lemma core_share_reset: "t1 < t0 \<Longrightarrow> core_share t0 t1 wall cores = 0"
  by (simp add: core_share_def elapsed_busy_def)

lemma core_share_nonneg: "0 < wall \<Longrightarrow> 0 < cores \<Longrightarrow> 0 \<le> core_share t0 t1 wall cores"
  by (simp add: core_share_def elapsed_busy_def)

lemma core_share_full_core:
  "0 < wall \<Longrightarrow> core_share t (t + wall) wall cores = 100 / of_int cores"
  by (simp add: core_share_def elapsed_busy_def)

lemma core_share_eight_cores: "core_share 3 (7 / 2) (1 / 2) 8 = 25 / 2"
  by (simp add: core_share_def elapsed_busy_def)

lemma map_fst_sample:
  "map fst (sample snap0 snap1 wall cores) =
     filter (\<lambda>k. k \<in> fst ` set snap0) (map fst snap1)"
proof -
  have mem: "k \<in> fst ` set snap0 \<longleftrightarrow> map_of snap0 k \<noteq> None" for k
    by (simp add: map_of_eq_None_iff)
  show ?thesis
    unfolding mem
    by (induction snap1)
      (auto simp: sample_def List.map_filter_simps split: option.splits)
qed

lemma sample_both_snapshots:
  "k \<in> fst ` set (sample snap0 snap1 wall cores) \<longleftrightarrow>
     k \<in> fst ` set snap0 \<and> k \<in> fst ` set snap1"
proof -
  have "fst ` set (sample snap0 snap1 wall cores) = set (map fst (sample snap0 snap1 wall cores))"
    by simp
  then show ?thesis
    unfolding map_fst_sample by auto
qed

lemma sample_nonneg:
  assumes "0 < wall" and "0 < cores" and "(k, s) \<in> set (sample snap0 snap1 wall cores)"
  shows "0 \<le> s"
  using assms
  by (auto simp: sample_def List.map_filter_def core_share_nonneg split: option.splits)

section \<open>The ranker on the readings of the sampler\<close>

text \<open>
  Dividing a reading by the number of cores and rounding it to one decimal, as line
  189 and line 197 do in float arithmetic, moves it by at most a twentieth and a
  relative error of \<open>2\<^sup>-\<^sup>5\<^sup>1\<close>.
\<close>

lemma share_rounding:
  fixes c :: rat
  assumes "0 < cores" and "cores \<le> 2 ^ 53"
  shows "\<bar>py_round1 (truediv c (py_float cores)) - c / of_int cores\<bar>
     \<le> 1 / 20 + (\<bar>c\<bar> / of_int cores + 1) / 2 ^ 51"
proof -
  define x where "x = c / of_int cores"
  define q where "q = truediv c (py_float cores)"
  define a where "a = \<bar>x\<bar>"
  from assms have "py_float cores = of_int cores" by (intro py_float_exact) simp
  then have q: "q = truediv c (of_int cores)" by (simp add: q_def)
  have a: "0 \<le> a" by (simp add: a_def)
  have qx: "\<bar>q - x\<bar> \<le> a / 2 ^ 53"
    unfolding q x_def a_def by (rule truediv_relative)
  have "a / 2 ^ 53 \<le> a" using a by (simp add: field_simps)
  with qx have "\<bar>q\<bar> \<le> 2 * a" unfolding a_def by linarith
  then have "(\<bar>q\<bar> + 1 / 20) / 2 ^ 53 \<le> (2 * a + 1 / 20) / 2 ^ 53"
    by (simp add: divide_right_mono)
  with py_round1_close [of q]
  have rq: "\<bar>py_round1 q - q\<bar> \<le> 1 / 20 + (2 * a + 1 / 20) / 2 ^ 53"
    by linarith
  have "\<bar>py_round1 q - x\<bar> \<le> \<bar>py_round1 q - q\<bar> + \<bar>q - x\<bar>" by linarith
  also have "\<dots> \<le> (1 / 20 + (2 * a + 1 / 20) / 2 ^ 53) + a / 2 ^ 53"
    by (intro add_mono rq qx)
  also have "\<dots> \<le> 1 / 20 + (a + 1) / 2 ^ 51"
    using a by (simp add: field_simps)
  finally show ?thesis
    using assms(1) by (simp add: q_def x_def a_def abs_divide)
qed

text \<open>
  C12 (bounds). What \<^verbatim>\<open>get_top_processes\<close> reports for a process is the share of the
  specification up to rounding: if the percentage \<open>c\<close> psutil hands over is within \<open>eps\<close>
  of the busy time of the process over the sampling interval (psutil itself rounds
  to one decimal), the \<^verbatim>\<open>cpu_percent\<close> of the entry is within
  \<open>eps / cores + 1 / 20 + (\<bar>c\<bar> / cores + 1) / 2\<^sup>5\<^sup>1\<close> of that percentage divided by the number
  of cores: \<open>1 / 20\<close> for the rounding to one decimal, the last term for the two
  roundings to a float. The number of cores is at most \<open>2\<^sup>5\<^sup>3\<close>, so that it is a float.
\<close>

theorem ranker_reports_sampled_share:
  assumes "observe (Some cores) info = Inr (Some p)" and "info_cpu_percent info = Some c"
    and "\<bar>c - reading t0 t1 wall\<bar> \<le> eps" and "0 < cores" and "cores \<le> 2 ^ 53"
  shows "\<bar>cpu_percent p - core_share t0 t1 wall cores\<bar>
     \<le> eps / of_int cores + 1 / 20 + (\<bar>c\<bar> / of_int cores + 1) / 2 ^ 51"
proof -
  from observe_SomeD(4) [OF assms(1)] assms(2)
  have p: "cpu_percent p = py_round1 (truediv c (py_float cores))" by auto
  have "\<bar>c / of_int cores - core_share t0 t1 wall cores\<bar> = \<bar>c - reading t0 t1 wall\<bar> / of_int cores"
    using assms(4) by (simp add: core_share_reading flip: diff_divide_distrib)
  also have "\<dots> \<le> eps / of_int cores"
    using assms(3,4) by (simp add: divide_right_mono)
  finally have xs: "\<bar>c / of_int cores - core_share t0 t1 wall cores\<bar> \<le> eps / of_int cores" .
  have "\<bar>cpu_percent p - core_share t0 t1 wall cores\<bar> \<le>
      \<bar>cpu_percent p - c / of_int cores\<bar> + \<bar>c / of_int cores - core_share t0 t1 wall cores\<bar>"
    by linarith
  also have "\<dots> \<le> (1 / 20 + (\<bar>c\<bar> / of_int cores + 1) / 2 ^ 51) + eps / of_int cores"
    unfolding p by (intro add_mono share_rounding xs assms)
  finally show ?thesis by simp
qed

theorem ranker_reports_sampled_share_witness:
  "core_share 10 (21 / 2) (1 / 2) 2 = 50 \<and>
   \<bar>cpu_percent chrome_process - core_share 10 (21 / 2) (1 / 2) 2\<bar>
     \<le> 0 / of_int 2 + 1 / 20 + (\<bar>100\<bar> / of_int 2 + 1) / 2 ^ 51"
proof -
  have "observe (Some 2) chrome_info = Inr (Some chrome_process)"
    by (simp add: chrome_info_def chrome_process_def py_eval)
  moreover have "info_cpu_percent chrome_info = Some 100"
    by (simp add: chrome_info_def)
  moreover have "\<bar>100 - reading 10 (21 / 2) (1 / 2)\<bar> \<le> 0"
    by (simp add: elapsed_busy_def reading_def)
  ultimately have "\<bar>cpu_percent chrome_process - core_share 10 (21 / 2) (1 / 2) 2\<bar>
      \<le> 0 / of_int 2 + 1 / 20 + (\<bar>100\<bar> / of_int 2 + 1) / 2 ^ 51"
    by (rule ranker_reports_sampled_share) simp_all
  then show ?thesis by (simp add: elapsed_busy_def core_share_def)
qed

end
