(* ===== verification/Spec2Isabelle.thy ===== *)
theory Spec2Isabelle
  imports Monitor_Loop Delta_Sampler
begin

text \<open>
  \<^bold>\<open>A verification development for the system resource monitor\<close>
  (\<^verbatim>\<open>src/tools/system_monitor.py\<close>, one class \<^verbatim>\<open>SystemMonitor\<close> and a \<^verbatim>\<open>main\<close> function).

  \<^bold>\<open>The program.\<close> \<^verbatim>\<open>monitor_once\<close> asks the host for its CPU, memory, disk and process
  figures through psutil (\<^verbatim>\<open>get_cpu_info\<close>, \<^verbatim>\<open>get_memory_info\<close>, \<^verbatim>\<open>get_disk_info\<close>,
  \<^verbatim>\<open>get_top_processes\<close>) and prints each with a \<^verbatim>\<open>display_*\<close> method; byte counts are
  rendered by \<^verbatim>\<open>format_bytes\<close>. \<^verbatim>\<open>monitor_continuous\<close> repeats this until interrupted and
  \<^verbatim>\<open>main\<close> chooses between the two from the command line. The module imports psutil
  under a \<^verbatim>\<open>try\<close> and calls \<^verbatim>\<open>main\<close> when run as a script. The program keeps no state
  between captures; everything it computes is a function of what the host answers.
  The specification (\<^verbatim>\<open>spec.md\<close>) names the parts ByteFormatter, DeltaSampler,
  ResourceProbe, ProcessRanker and SnapshotAssembler.

  \<^bold>\<open>How the program is modelled.\<close> Every method is a function from an explicit record
  of the host's answers to the value the method returns or the lines it prints. An
  answer that may raise is a value of \<open>exn + 'a\<close> (\<open>Inl\<close> the exception); a method that
  can let an exception out returns such a sum or, when it prints, the lines printed
  with the exception that ended it (\<open>printed\<close>); a method whose \<^verbatim>\<open>except:\<close> clauses are
  bare returns a plain value. Loops over data are structural recursion over the list
  of answers, so every function is total. The one loop that does not end by itself,
  \<^verbatim>\<open>while True\<close> in \<^verbatim>\<open>monitor_continuous\<close>, runs over the finite list of the rounds
  observed and reports \<open>Looping\<close> when they are used up: the list is the fuel, and the
  theorems say for which lists the loop has ended and how.

  Python integers are \<open>int\<close>. A Python float is the rational number it is, a binary
  fraction of 53 significant bits (\<open>pyfloat = rat\<close>), and every float operation of the
  program (\<^verbatim>\<open>/\<close>, \<^verbatim>\<open>*\<close>, \<^verbatim>\<open>sum\<close>, \<^verbatim>\<open>round(x, 1)\<close>, the conversion of an integer) computes the
  exact result and rounds it to the nearest float, ties to even (\<open>round_double\<close> of
  theory \<open>Py_Float\<close>). The formats \<^verbatim>\<open>.1f\<close> and \<^verbatim>\<open>.0f\<close> and \<^verbatim>\<open>str\<close> work on the exact binary
  value, as Python does. The exponent range of floats is not modelled: no overflow,
  no subnormal numbers, no infinity or NaN, no negative zero. Strings are lists of
  8-bit characters, a text outside ASCII being the list of its UTF-8 bytes; \<^verbatim>\<open>len\<close>,
  the slice of a name and the column widths count code points (\<open>py_len\<close>,
  \<open>take_chars\<close>). \<open>lower\<close> maps ASCII capitals only, which is enough for the deny-list:
  no character outside ASCII becomes one of its letters in lower case.

  \<^bold>\<open>The theories.\<close>
  \<^item> \<open>Monitor_Prelude\<close>: the exceptions (\<open>exn\<close>), which of them the \<^verbatim>\<open>except\<close> tuples of
    \<^verbatim>\<open>get_top_processes\<close> swallow (\<open>psutil_skippable\<close>) and which \<^verbatim>\<open>except Exception\<close>
    catches (\<open>is_Exception\<close>); Python's slice \<^verbatim>\<open>xs[:n]\<close> (\<open>slice_to\<close>); the stable
    descending sort \<^verbatim>\<open>sort(key=..., reverse=True)\<close> (\<open>sort_desc\<close>); loops over fallible
    steps (\<open>first_raise\<close>, \<open>observations\<close>, \<open>skipped\<close>, \<open>raised\<close>) and their lemmas.
  \<^item> \<open>Py_Float\<close>: rounding to a float (\<open>round_double\<close>), the float operations (\<open>truediv\<close>,
    \<open>float_mul\<close>, \<open>py_sum\<close>, \<open>py_float\<close>), \<^verbatim>\<open>round(x, 1)\<close> (\<open>py_round1\<close>); error bounds,
    monotonicity, exactness on integers up to \<open>2\<^sup>5\<^sup>3\<close> and under scaling by powers of two,
    and which rationals round to a given float.
  \<^item> \<open>Py_Format\<close>: the format specifications of the f-strings (\<open>fmt_f1\<close>, \<open>format_f1\<close>,
    \<open>ljust\<close>, \<open>rjust\<close>), \<^verbatim>\<open>len\<close> of a string (\<open>py_len\<close>), \<^verbatim>\<open>str.lower\<close>, \<^verbatim>\<open>str.endswith\<close> and \<^verbatim>\<open>int\<close> of a
    string (\<open>py_int\<close>);
    when the rounding to a float does not show in the printed decimal.
  \<^item> \<open>Py_Values\<close>: dictionaries (\<open>pydict\<close>, \<open>getitem\<close>, \<open>has_key\<close>), \<^verbatim>\<open>str\<close> of a value
    (for a float the shortest decimal that reads back, \<open>str_float\<close>), f-strings
    (\<open>fstr\<close>) and sequences of \<^verbatim>\<open>print\<close> calls (\<open>in_order\<close>).
  \<^item> \<open>Byte_Formatter\<close> (ByteFormatter): \<^verbatim>\<open>format_bytes\<close>, lines 215-220, as \<open>format_loop\<close>
    and \<open>format_bytes\<close>; its specification by thresholds (\<open>unit_of\<close>, \<open>mantissa\<close>,
    \<open>format_spec\<close>) and the refinement, monotonicity, bounds and read-back lemmas.
  \<^item> \<open>Process_Ranker\<close> (ProcessRanker and the use the program makes of the sampler):
    \<^verbatim>\<open>get_top_processes\<close>, lines 158-211, as \<open>prime_pass\<close>, \<open>observe\<close>, \<open>collect\<close>,
    \<open>on_error\<close>, \<open>get_top_processes\<close>; the ranking specification \<open>rank_spec\<close>; well-typed
    and plausible tables; the result on every path, order, length, content and the
    refinement.
  \<^item> \<open>Delta_Sampler\<close> (DeltaSampler): the sampler as the specification words it
    (\<open>elapsed_busy\<close>, \<open>core_share\<close>, \<open>sample\<close>), with its testable properties, and the
    distance between the share it defines and what the ranker reports.
  \<^item> \<open>Process_Display\<close>: \<^verbatim>\<open>display_processes\<close>, lines 271-295, as the list of printed
    lines; totals and column widths.
  \<^item> \<open>Resource_Probe\<close> (ResourceProbe): \<^verbatim>\<open>get_disk_info\<close>, lines 115-155, and
    \<^verbatim>\<open>get_memory_info\<close>, lines 84-111, with the swap guard of line 258; fault isolation
    of mounts, bounds of the percentage, the fallback, the shape of the memory
    dictionary.
  \<^item> \<open>Cpu_Probe\<close> (ResourceProbe): \<^verbatim>\<open>get_cpu_info\<close>, lines 27-80, with its three bare
    \<^verbatim>\<open>except\<close> clauses; the two shapes of its dictionary.
  \<^item> \<open>Section_Display\<close>: \<^verbatim>\<open>get_system_info\<close>, \<^verbatim>\<open>display_header\<close>, \<^verbatim>\<open>display_cpu_info\<close>,
    \<^verbatim>\<open>display_memory_info\<close>, \<^verbatim>\<open>display_disk_info\<close>, lines 224-267; on which dictionaries
    they raise.
  \<^item> \<open>Monitor_Loop\<close> (SnapshotAssembler): \<^verbatim>\<open>monitor_once\<close>, lines 299-316,
    \<^verbatim>\<open>monitor_continuous\<close>, lines 320-328, as a function and as the step relation \<open>step\<close>
    with its invariant, \<^verbatim>\<open>main\<close>, lines 331-347, and the module itself (\<open>import_psutil\<close>,
    \<open>script\<close>), lines 13-18 and 350-351.
  \<^item> This theory: the properties that span the ranker, the displays, the loop and the
    module.

  \<^bold>\<open>What the lemmas show.\<close> For the ranker: it computes the specified ranking on a
  readable table; its result is sorted, holds the largest entries, excludes the
  denied names, ignores processes that vanish or deny access, orders ties by
  enumeration; no exception but an interrupt leaves it; one attribute psutil could
  not read empties the whole result, while on a well-typed table every error comes
  from psutil. For the formatter: the loop equals the threshold specification, units
  grow with the input, the printed number is at least 1 from \<^verbatim>\<open>KB\<close> on and below 1024
  up to the last unit, exact up to \<open>2\<^sup>5\<^sup>3\<close> bytes and within a relative error of \<open>2\<^sup>-\<^sup>5\<^sup>3\<close>
  beyond. For the probes: failing mounts are left out and the others kept in order,
  percentages are within 0 and 100 on sane figures, the disk fallback exists on
  Windows only, the memory dictionary is complete and all-or-nothing, the swap guard
  never fails, the CPU dictionary has one of two key sets and a temperature on
  Windows only. For the displays and the loop: the fallback dictionary of the CPU
  probe makes its display raise, so that without psutil the program shows its header
  and ends with \<^verbatim>\<open>KeyError\<close>, also after the warning of the failed import; only this
  error and the interrupt leave a capture; the loop ends only by an exception,
  returns on an interrupt during the sleep and ends with \<^verbatim>\<open>ValueError\<close> on a negative
  interval; the interval announced is the one parsed. Across components: the second
  sort and truncation in \<^verbatim>\<open>display_processes\<close> change nothing after
  \<^verbatim>\<open>get_top_processes\<close>; the totals printed are those of the ten rows shown, not of all
  processes; and they are the exact sums of the tenths the rows show, the roundings
  of the float arithmetic notwithstanding.

  \<^bold>\<open>Bounds.\<close> The float lemmas hold for all rationals, the exponent range apart. The
  statements about printed sums need the figures to be plausible: at most \<open>2\<^sup>1\<^sup>5\<close>
  summands, each a float nearest to a tenth, and a sum of at most \<open>2\<^sup>3\<^sup>1\<close>; a table is
  plausible when its percentages are at most \<open>2\<^sup>2\<^sup>0\<close> per core and its resident sizes at
  most \<open>2\<^sup>4\<^sup>7\<close> bytes. \<open>str_float\<close> searches the places of the shortest decimal with a
  bound of 21, which suffices for every float of magnitude \<open>2\<^sup>-\<^sup>1\<^sup>6\<close> and more
  (\<open>str_float_reads_back\<close>).

  \<^bold>\<open>Not modelled.\<close> The arithmetic of the sampler (differences of cumulative CPU times)
  is inside psutil, which the sources only call: the model of the program starts from
  the percentages psutil returns, and \<open>Delta_Sampler\<close> is written from the
  specification, not from code. An exception of \<^verbatim>\<open>psutil.process_iter\<close> itself or of
  \<^verbatim>\<open>time.sleep(0.5)\<close> in \<^verbatim>\<open>get_top_processes\<close> is entered as the event of a pass at which
  it is raised; this is what the code does with every exception but the three psutil
  errors, which \<^verbatim>\<open>process_iter\<close> does not raise (it skips vanished processes itself).
  The effect of \<^verbatim>\<open>os.system('clear')\<close> on the terminal is the boundary between two
  frames. \<^verbatim>\<open>print\<close> is total: a console that cannot encode the signs is not
  represented. An interrupt can reach the program where the host record has an answer
  that may raise (the import, the sampling calls, the two process passes, the
  sleep); an interrupt between two statements elsewhere is not represented.
  \<^verbatim>\<open>self.boot_time\<close> (line 25) is set and never read; it has no counterpart. \<^verbatim>\<open>sum\<close> adds
  from left to right, as CPython does before version 3.12 (later versions compensate
  the rounding errors, which brings the result closer to the exact sum); \<^verbatim>\<open>int\<close> has no
  limit on the number of digits and reads ASCII digits only; \<^verbatim>\<open>str\<close> of a float has no
  exponent notation, which Python uses below \<open>10\<^sup>-\<^sup>4\<close> and from \<open>10\<^sup>1\<^sup>6\<close> on.
\<close>

section \<open>Example hosts\<close>

definition worker :: "int \<Rightarrow> proc_info" where
  "worker i = \<lparr>info_pid = i, info_name = Some ''worker'', info_cpu_percent = Some 2,
     info_rss = Some 1048576\<rparr>"

definition eleven :: proc_table where
  "eleven = \<lparr>has_psutil = True, cpu_count = Some 1, first_pass = [],
     second_pass = map (\<lambda>i. Inr (worker i)) [1, 2, 3, 4, 5, 6, 7, 8, 9, 10, 11]\<rparr>"

section \<open>Ranking, then display\<close>

lemma top_fixed_by_display:
  assumes "get_top_processes tbl 10 = Inr (ps, rep)"
  shows "sort_desc cpu_percent ps = ps" and "slice_to ps 10 = ps"
proof -
  from get_top_processes_InrD [OF assms] sorted_ranked [of tbl]
  have "sorted_wrt (\<lambda>p q. cpu_percent q \<le> cpu_percent p) ps"
    by (auto intro: sorted_wrt_slice_to)
  then show "sort_desc cpu_percent ps = ps" by (rule sort_desc_id_if_sorted)
  from get_top_processes_InrD [OF assms] have "length ps \<le> 10"
    by (auto simp: length_slice_to)
  then show "slice_to ps 10 = ps" by simp
qed

lemma kept_eleven:
  "kept (cpu_count eleven) (second_pass eleven) =
     map (\<lambda>i. \<lparr>name = ''worker'', cpu_percent = 2, memory_mb = 1, pid = i\<rparr>)
       [1, 2, 3, 4, 5, 6, 7, 8, 9, 10, 11]"
  by (simp add: eleven_def worker_def kept_def List.map_filter_simps py_eval)

lemma ranked_eleven: "ranked eleven = kept (cpu_count eleven) (second_pass eleven)"
  unfolding ranked_def kept_eleven
  by (rule sort_desc_id_if_sorted) simp

lemma top_eleven:
  "get_top_processes eleven 10 =
     Inr (map (\<lambda>i. \<lparr>name = ''worker'', cpu_percent = 2, memory_mb = 1, pid = i\<rparr>)
       [1, 2, 3, 4, 5, 6, 7, 8, 9, 10], None)"
proof -
  have "escaping eleven = None"
    by (simp add: escaping_def eleven_def worker_def py_eval)
  then show ?thesis
    by (simp add: get_top_processes_eq ranked_eleven kept_eleven slice_to_def)
      (simp add: eleven_def)
qed

text \<open>
  C33 (equivalence). \<^verbatim>\<open>monitor_once\<close> passes the list of \<^verbatim>\<open>get_top_processes(limit=10)\<close> to
  \<^verbatim>\<open>display_processes\<close>, which sorts and truncates to ten again. The second sort and
  truncation change nothing: the rows printed are the returned list, in its order.
\<close>

theorem shown_rows_are_ranked:
  assumes "get_top_processes tbl 10 = Inr (ps, rep)" and "ps \<noteq> []"
  shows "\<exists>said. process_section msg tbl =
     (said @ [table_header, rule_line] @
       map (\<lambda>(i, proc). process_row i proc) (enumerate 1 ps) @ [rule_line, total_row ps],
      None) \<and> said = (case rep of None \<Rightarrow> [] | Some e \<Rightarrow> [error_line (msg e)])"
  using assms top_fixed_by_display [OF assms(1)]
  by (simp add: process_section_def display_processes_def Let_def)

theorem shown_rows_are_ranked_witness:
  "process_section (message_of laptop) two_core =
     ([table_header, rule_line, process_row 1 chrome_process,
       process_row 2 bash_process, rule_line, total_row [chrome_process, bash_process]], None)"
proof -
  have "[chrome_process, bash_process] \<noteq> []" by simp
  from shown_rows_are_ranked [OF top_two_core this, of "message_of laptop"] show ?thesis
    by (simp add: numeral_2_eq_2)
qed

text \<open>
  C34 (functional). The totals \<^verbatim>\<open>monitor_once\<close> prints under the process table are the
  sums over the ten entries with the largest CPU share only, since the list was cut
  to ten before it reached \<^verbatim>\<open>display_processes\<close>: with eleven processes of 2 percent
  each the line reads 20.0 percent while the processes collected use 22.
\<close>

theorem totals_only_top_ten:
  assumes "get_top_processes tbl 10 = Inr (ps, None)" and "has_psutil tbl" and "ps \<noteq> []"
  shows "\<exists>lines. process_section msg tbl = (lines, None) \<and>
     last lines = total_row (take 10 (ranked tbl))"
proof -
  from assms have "ps = take 10 (ranked tbl)"
    by (auto simp: get_top_processes_eq on_error_def slice_to_def
        split: if_splits option.splits)
  with assms(1,3) top_fixed_by_display [OF assms(1)] show ?thesis
    by (simp add: process_section_def display_processes_def Let_def)
qed

theorem totals_only_top_ten_witness:
  "\<exists>lines. process_section (message_of laptop) eleven = (lines, None) \<and>
     last lines = ''                       Total:   20.0%      10.0 MB'' \<and>
     total_cpu (kept (cpu_count eleven) (second_pass eleven)) = 22"
proof -
  have "has_psutil eleven" by (simp add: eleven_def)
  from totals_only_top_ten [OF top_eleven this, of "message_of laptop"] show ?thesis
    by (simp add: ranked_eleven kept_eleven total_row_def total_cpu_def total_mem_def)
      (simp add: py_eval)
qed

text \<open>
  C35 (functional). The totals agree with the rows. On a table with plausible figures
  (a core count between 1 and \<open>2\<^sup>5\<^sup>3\<close>, CPU percentages between 0 and \<open>2\<^sup>2\<^sup>0\<close> per core,
  resident sizes between 0 and \<open>2\<^sup>4\<^sup>7\<close> bytes), every figure a row shows is the tenth
  nearest to the float behind it, and the line of totals \<^verbatim>\<open>monitor_once\<close> prints
  shows exactly the sum of these tenths: neither the rounding of the quotients to
  floats nor that of the float additions reaches the printed digit.
\<close>

theorem totals_match_rows:
  assumes "get_top_processes tbl 10 = Inr (ps, None)" and "ps \<noteq> []" and "plausible tbl"
  shows "\<exists>lines. process_section msg tbl = (lines, None) \<and>
     last lines =
       rjust 29 ''Total:'' @ rjust 7 (fmt_f1 (shown_tenths cpu_percent ps)) @ ''%'' @
       rjust 10 (fmt_f1 (shown_tenths memory_mb ps)) @ '' MB'' \<and>
     (\<forall>p \<in> set ps. fmt_f1 (cpu_percent p) = fmt_f1 (nearest_tenth (cpu_percent p)) \<and>
        fmt_f1 (memory_mb p) = fmt_f1 (nearest_tenth (memory_mb p)))"
proof -
  from get_top_processes_InrD [OF assms(1)] assms(2)
  have ps: "ps = slice_to (ranked tbl) 10" by simp
  then have len: "length ps \<le> 10" by (simp add: length_slice_to)
  have mem: "p \<in> set (kept (cpu_count tbl) (second_pass tbl))" if "p \<in> set ps" for p
    using that set_ranked [of tbl] by (auto simp: ps slice_to_def dest: in_set_takeD)
  note k = kept_plausible [OF assms(3) mem]
  have c: "summable cpu_percent ps"
  proof (rule summable_bounded [OF _ len])
    fix p assume "p \<in> set ps"
    from k(1) [OF this] show "is_rounded1 (cpu_percent p) \<and> 0 \<le> cpu_percent p \<and>
        cpu_percent p \<le> 2 ^ 27" by simp
  qed
  have m: "summable memory_mb ps"
    by (rule summable_bounded [OF _ len]) (rule k(2))
  have "fmt_f1 (cpu_percent p) = fmt_f1 (nearest_tenth (cpu_percent p)) \<and>
      fmt_f1 (memory_mb p) = fmt_f1 (nearest_tenth (memory_mb p))" if "p \<in> set ps" for p
    using k(1) [OF that] k(2) [OF that] by (intro conjI fmt_f1_rounded1) simp_all
  moreover from top_fixed_by_display(1) [OF assms(1)] assms(2) c m
  have "last (display_processes ps) =
       rjust 29 ''Total:'' @ rjust 7 (fmt_f1 (shown_tenths cpu_percent ps)) @ ''%'' @
       rjust 10 (fmt_f1 (shown_tenths memory_mb ps)) @ '' MB''"
    by (simp add: display_processes_nonempty total_row_def total_cpu_def total_mem_def
        fmt_f1_total)
  ultimately show ?thesis
    using assms(1,2) by (simp add: process_section_def display_processes_nonempty)
qed

theorem totals_match_rows_witness:
  "\<exists>lines. process_section (message_of laptop) two_core = (lines, None) \<and>
     last lines = ''                       Total:   51.2%     118.7 MB'' \<and>
     fmt_f1 (cpu_percent chrome_process) = ''50.0'' \<and> fmt_f1 (cpu_percent bash_process) = ''1.2'' \<and>
     fmt_f1 (memory_mb chrome_process) = ''117.7'' \<and> fmt_f1 (memory_mb bash_process) = ''1.0''"
proof -
  have "[chrome_process, bash_process] \<noteq> []" by simp
  moreover have "plausible two_core"
    by (simp add: plausible_def example_defs)
  ultimately have "\<exists>lines. process_section (message_of laptop) two_core = (lines, None) \<and>
     last lines =
       rjust 29 ''Total:'' @
       rjust 7 (fmt_f1 (shown_tenths cpu_percent [chrome_process, bash_process])) @ ''%'' @
       rjust 10 (fmt_f1 (shown_tenths memory_mb [chrome_process, bash_process])) @ '' MB''"
    using totals_match_rows [OF top_two_core, of "message_of laptop"] by blast
  moreover have "shown_tenths cpu_percent [chrome_process, bash_process] = 512 / 10"
    and "shown_tenths memory_mb [chrome_process, bash_process] = 1187 / 10"
    by (simp_all add: shown_tenths_def chrome_process_def bash_process_def py_eval)
  moreover have "fmt_f1 (cpu_percent chrome_process) = ''50.0''"
    "fmt_f1 (cpu_percent bash_process) = ''1.2''"
    "fmt_f1 (memory_mb chrome_process) = ''117.7''" "fmt_f1 (memory_mb bash_process) = ''1.0''"
    by (simp_all add: chrome_process_def bash_process_def py_eval)
  ultimately show ?thesis by (simp add: py_eval)
qed

lemma process_table_two_core:
  "display_processes [chrome_process, bash_process] =
     [newline # ''    Process                     CPU % Memory (MB)       PID'',
      ''------------------------------------------------------------'',
      '' 1. chrome                      50.0%     117.7       100'',
      '' 2. bash                         1.2%       1.0         7'',
      ''------------------------------------------------------------'',
      ''                       Total:   51.2%     118.7 MB'']"
  by (simp add: display_processes_nonempty sort_desc_def chrome_process_def bash_process_def
      numeral_2_eq_2)
    (simp add: py_eval)

section \<open>The whole program\<close>

lemma interval_of_total: "\<exists>said interval. interval_of argv = Inr (said, interval)"
  using py_int_raises [of "argv ! 2"]
  by (cases "py_int (argv ! 2)") (auto simp: interval_of_def)

text \<open>
  The scenario of the specification, as one whole capture. On a
  Linux host with two cores, \<^verbatim>\<open>monitor_once\<close> prints the header, the CPU usage with the
  core counts and the frequency rounded to an integer, the memory and swap figures
  in binary units, two lines for each mount that could be queried, and the process
  table: a process that used one full core during the sampling interval (psutil
  reports 100 percent) is shown with 50.0 percent, its \<^verbatim>\<open>.exe\<close> suffix removed and its
  memory in megabytes; the idle pseudo-process is neither shown nor counted in the
  totals; a process that vanished between the passes and a mount that cannot be read
  are ignored.
\<close>

lemma end_to_end_scenario:
  "monitor_once laptop =
     ([newline # double_rule,
       desktop_sign @ ''  SYSTEM RESOURCE MONITOR'',
       double_rule,
       laptop_sign @ '' Platform: Linux-6.1-x86_64'',
       snake_sign @ '' Python: 3.10.4'',
       crane_sign @ ''  Architecture: 64bit'',
       double_rule,
       newline # laptop_sign @ '' CPU Usage: 12.5% (4 physical, 8 logical cores)'',
       bolt_sign @ '' Frequency: 2400 MHz'',
       newline # brain_sign @ '' Memory: 4.0 GB / 8.0 GB (50.0%)'',
       floppy_sign @ '' Available: 4.0 GB'',
       cycle_sign @ '' Swap: 0.0 B / 0.0 B (0.0%)'',
       newline # floppy_sign @ '' Disk Usage:'',
       ''   /dev/sda1 (/)'',
       ''   1.0 KB / 2.0 KB (50.0%)'',
       ''   /dev/sda2 (/home)'',
       ''   1.0 KB / 2.0 KB (50.0%)'',
       newline # ''    Process                     CPU % Memory (MB)       PID'',
       ''------------------------------------------------------------'',
       '' 1. chrome                      50.0%     117.7       100'',
       '' 2. bash                         1.2%       1.0         7'',
       ''------------------------------------------------------------'',
       ''                       Total:   51.2%     118.7 MB'',
       double_rule], None)"
  by (simp add: monitor_once_laptop sections_before_processes_def laptop_views
      display_header_fine display_cpu_linux display_memory_no_swap display_disks_three_mounts
      process_table_two_core)
    (simp add: laptop_def this_platform_def)

text \<open>
  C10 (error). Without psutil the program cannot monitor at all, in either mode and
  with any arguments: the capture ends with the \<^verbatim>\<open>KeyError\<close> of the CPU section after
  the header, nothing catches it, and the program ends with it having shown the
  header only. The fallback values of the other probes are never displayed.
\<close>

theorem no_psutil_no_monitoring:
  assumes "\<not> psutil_present (fst r)"
  shows "frames (main argv r rounds) =
       [fst (display_header (platform_info (fst r)) (system_name (fst r)))] \<and>
     ending (main argv r rounds) = Raised (KeyError ''physical_cores'')"
proof -
  from assms have bare: "\<not> samples_fine (cpu_of (fst r))"
    by (simp add: samples_fine_cpu_of)
  obtain said interval where "interval_of argv = Inr (said, interval)"
    using interval_of_total by blast
  with bare show ?thesis
    by (simp add: main_def monitor_once_cpu_fails once_round_bare leave_def)
qed

theorem no_psutil_no_monitoring_witness:
  "ending (main [''system_monitor.py''] (quiet bare_laptop) []) =
     Raised (KeyError ''physical_cores'') \<and>
   ending (main [''system_monitor.py'', ''--continuous'', ''5''] (quiet bare_laptop)
     [quiet laptop]) = Raised (KeyError ''physical_cores'')"
  using no_psutil_no_monitoring [of "quiet bare_laptop" "[''system_monitor.py'']" "[]"]
    no_psutil_no_monitoring [of "quiet bare_laptop"
      "[''system_monitor.py'', ''--continuous'', ''5'']" "[quiet laptop]"]
  by (simp add: quiet_def bare_laptop_def)

section \<open>The module run as a script\<close>

lemma script_import_raises:
  "e \<noteq> ImportError \<Longrightarrow>
   script (Inl e) as_main argv r rounds = \<lparr>preface = [], frames = [], ending = Raised e\<rparr>"
  by (simp add: script_def import_psutil_def)

lemma script_imported:
  "script found False argv r rounds =
     (case found of
        Inr u \<Rightarrow> \<lparr>preface = [], frames = [], ending = Returned\<rparr>
      | Inl e \<Rightarrow> if e = ImportError
          then \<lparr>preface = [psutil_warning], frames = [], ending = Returned\<rparr>
          else \<lparr>preface = [], frames = [], ending = Raised e\<rparr>)"
  by (simp add: script_def import_psutil_def split: sum.splits)

lemma script_with_psutil:
  "script (Inr ()) True argv r rounds =
     main argv (with_psutil True r) (map (with_psutil True) rounds)"
  by (simp add: script_def import_psutil_def)

text \<open>
  C37 (error). When the import of psutil fails, the script prints that it is \<^verbatim>\<open>Using
  limited monitoring capabilities\<close> and then monitors nothing: whatever the arguments
  and whatever the host would answer, the run shows the warning, possibly the warning
  about the interval, and the header, and ends with the \<^verbatim>\<open>KeyError\<close> of the CPU section.
\<close>

theorem import_failure_run:
  "\<exists>said. script (Inl ImportError) True argv r rounds =
     \<lparr>preface = psutil_warning # said,
      frames = [fst (display_header (platform_info (fst r)) (system_name (fst r)))],
      ending = Raised (KeyError ''physical_cores'')\<rparr> \<and>
     (said = [] \<or> said = [invalid_line])"
proof -
  let ?r = "with_psutil False r"
  have bare: "\<not> samples_fine (cpu_of (fst ?r))"
    by (simp add: samples_fine_cpu_of with_psutil_def)
  obtain said interval where i: "interval_of argv = Inr (said, interval)"
    using interval_of_total by blast
  then have "said = [] \<or> said = [invalid_line]"
    by (auto simp: interval_of_def split: if_splits sum.splits)
  with bare i show ?thesis
    by (auto simp: script_def import_psutil_def main_def monitor_once_cpu_fails once_round_bare
        leave_def with_psutil_def)
qed

theorem import_failure_run_witness:
  "script (Inl ImportError) True [''system_monitor.py''] (quiet laptop) [] =
     \<lparr>preface = [psutil_warning], frames = [fst (display_header this_platform ''Linux'')],
      ending = Raised (KeyError ''physical_cores'')\<rparr>"
proof -
  from import_failure_run [of "[''system_monitor.py'']" "quiet laptop" "[]"]
  obtain said where s: "script (Inl ImportError) True [''system_monitor.py''] (quiet laptop) [] =
     \<lparr>preface = psutil_warning # said,
      frames = [fst (display_header (platform_info (fst (quiet laptop)))
        (system_name (fst (quiet laptop))))],
      ending = Raised (KeyError ''physical_cores'')\<rparr>" by blast
  have "preface (script (Inl ImportError) True [''system_monitor.py''] (quiet laptop) []) =
      [psutil_warning]"
    by (simp add: script_def import_psutil_def main_def Let_def split: prod.splits option.splits)
  with s have "said = []" by simp
  with s show ?thesis by (simp add: quiet_def laptop_def)
qed

end
